(* ===== verification/Prelude.thy ===== *)
theory Prelude
  imports Complex_Main
begin

text \<open>
  Shared vocabulary of the development: the lemma collections, what a Go call can do besides
  returning a value, the string functions of the standard library that the sources use, and
  generic facts on lists, options and maps that the components share.
\<close>

named_theorems go_simps \<open>definitions of the model to unfold when a call is evaluated\<close>
named_theorems fp_simps \<open>evaluation of floating-point operations on classified operands\<close>
named_theorems inv_intros \<open>operations that keep a component's invariant\<close>

section \<open>Outcomes of a call\<close>

text \<open>
  A Go call returns, panics, or blocks forever (a receive from, or a range over, a channel that
  nobody closes or sends to). A function with an error result returns \<open>Inl err\<close> or \<open>Inr v\<close>.
\<close>

datatype 'a outcome = Done 'a | Panic | Blocked

fun bind_outcome :: "'a outcome \<Rightarrow> ('a \<Rightarrow> 'b outcome) \<Rightarrow> 'b outcome" where
  "bind_outcome (Done x) f = f x"
| "bind_outcome Panic f = Panic"
| "bind_outcome Blocked f = Blocked"

lemma bind_outcome_Done_iff:
  "bind_outcome m f = Done y \<longleftrightarrow> (\<exists>x. m = Done x \<and> f x = Done y)"
  by (cases m) auto

lemma bind_outcome_assoc:
  "bind_outcome (bind_outcome m f) g = bind_outcome m (\<lambda>x. bind_outcome (f x) g)"
  by (cases m) auto

text \<open>A call whose error result ends the caller, with its error or for good.\<close>

lemma bind_res_Done_iff:
  "bind_outcome m (\<lambda>r. case r of Inl e \<Rightarrow> Done (Inl (g e)) | Inr x \<Rightarrow> f x) = Done (Inr y) \<longleftrightarrow>
     (\<exists>x. m = Done (Inr x) \<and> f x = Done (Inr y))"
  by (cases m) (auto split: sum.split)

lemma bind_block_Done_iff:
  "bind_outcome m (\<lambda>r. case r of Inl e \<Rightarrow> Blocked | Inr x \<Rightarrow> f x) = Done y \<longleftrightarrow>
     (\<exists>x. m = Done (Inr x) \<and> f x = Done y)"
  by (cases m) (auto split: sum.split)

section \<open>Strings\<close>

text \<open>\<open>strings.HasPrefix\<close>, \<open>strings.TrimPrefix\<close>, \<open>strings.Contains\<close>.\<close>

definition has_prefix :: "string \<Rightarrow> string \<Rightarrow> bool" where
  "has_prefix s p \<longleftrightarrow> take (length p) s = p"

definition trim_prefix :: "string \<Rightarrow> string \<Rightarrow> string" where
  "trim_prefix s p = (if has_prefix s p then drop (length p) s else s)"

fun contains :: "string \<Rightarrow> string \<Rightarrow> bool" where
  "contains [] p \<longleftrightarrow> p = []"
| "contains (c # cs) p \<longleftrightarrow> has_prefix (c # cs) p \<or> contains cs p"

text \<open>\<open>strings.SplitN(s, sep, 2)\<close> for a one-byte separator: the parts before and after the
  first separator, or the whole string when there is none.\<close>

definition split_once :: "char \<Rightarrow> string \<Rightarrow> string list" where
  "split_once c s = (case dropWhile (\<lambda>x. x \<noteq> c) s of
       [] \<Rightarrow> [s]
     | _ # rest \<Rightarrow> [takeWhile (\<lambda>x. x \<noteq> c) s, rest])"

lemma has_prefix_append [simp]: "has_prefix (p @ s) p"
  by (simp add: has_prefix_def)

lemma has_prefixE: "has_prefix s p \<Longrightarrow> \<exists>t. s = p @ t"
  by (metis append_take_drop_id has_prefix_def)

lemma trim_prefix_append [simp]: "trim_prefix (p @ s) p = s"
  by (simp add: trim_prefix_def)

lemma contains_char_iff: "contains s [c] \<longleftrightarrow> c \<in> set s"
proof (induction s)
  case (Cons a s)
  have "has_prefix (a # s) [c] \<longleftrightarrow> a = c" by (simp add: has_prefix_def)
  with Cons.IH show ?case by auto
qed simp

lemma contains_Nil [simp]: "contains s []"
  by (cases s) (simp_all add: has_prefix_def)

lemma contains_iff: "contains s p \<longleftrightarrow> (\<exists>a b. s = a @ p @ b)"
proof (induction s)
  case Nil
  then show ?case by auto
next
  case (Cons c s)
  show ?case
  proof
    assume "contains (c # s) p"
    then consider "has_prefix (c # s) p" | "contains s p" by auto
    then show "\<exists>a b. c # s = a @ p @ b"
    proof cases
      case 1
      then obtain t where "c # s = p @ t" using has_prefixE by blast
      then show ?thesis by (intro exI[of _ "[]"] exI[of _ t]) simp
    next
      case 2
      with Cons.IH obtain a b where "s = a @ p @ b" by auto
      then show ?thesis by (intro exI[of _ "c # a"] exI[of _ b]) simp
    qed
  next
    assume "\<exists>a b. c # s = a @ p @ b"
    then obtain a b where ab: "c # s = a @ p @ b" by auto
    show "contains (c # s) p"
    proof (cases a)
      case Nil
      with ab have "c # s = p @ b" by simp
      then have "has_prefix (c # s) p" by (metis has_prefix_append)
      then show ?thesis by simp
    next
      case (Cons x a')
      with ab have "s = a' @ p @ b" by simp
      then have "contains s p" using Cons.IH by blast
      then show ?thesis by simp
    qed
  qed
qed

lemma split_once_notin: "c \<notin> set s \<Longrightarrow> split_once c s = [s]"
proof -
  assume "c \<notin> set s"
  then have "dropWhile (\<lambda>x. x \<noteq> c) s = []" by (auto simp: dropWhile_eq_Nil_conv)
  then show ?thesis unfolding split_once_def by (simp only: list.case)
qed

lemma split_once_append: "c \<notin> set a \<Longrightarrow> split_once c (a @ c # b) = [a, b]"
proof -
  assume "c \<notin> set a"
  then have "\<And>x. x \<in> set a \<Longrightarrow> x \<noteq> c" by auto
  then have "dropWhile (\<lambda>x. x \<noteq> c) (a @ c # b) = c # b" "takeWhile (\<lambda>x. x \<noteq> c) (a @ c # b) = a"
    by (simp_all add: dropWhile_append2 takeWhile_append2)
  then show ?thesis by (simp add: split_once_def)
qed

lemma split_once_cases:
  obtains (none) "c \<notin> set s" "split_once c s = [s]"
  | (found) a b where "s = a @ c # b" "c \<notin> set a" "split_once c s = [a, b]"
proof (cases "c \<in> set s")
  case False
  then show ?thesis using split_once_notin none by blast
next
  case True
  then obtain a b where "s = a @ c # b" "c \<notin> set a" by (metis split_list_first)
  then show ?thesis using found split_once_append by metis
qed

text \<open>A separator outside both left parts splits a concatenation in one way only.\<close>

lemma append_sep_inject:
  fixes c :: char
  shows "c \<notin> set a \<Longrightarrow> c \<notin> set a' \<Longrightarrow> a @ c # b = a' @ c # b' \<Longrightarrow> a = a' \<and> b = b'"
  by (metis split_once_append list.inject)

section \<open>Lists\<close>

lemma set_upt_nth: "i < length xs \<Longrightarrow> xs ! i \<in> set xs"
  by simp

lemma sorted_wrt_nth_less: "sorted_wrt P xs \<Longrightarrow> i < j \<Longrightarrow> j < length xs \<Longrightarrow> P (xs ! i) (xs ! j)"
  by (simp add: sorted_wrt_iff_nth_less)

text \<open>A left-to-right loop that stops at the first error: \<open>for \<dots> { if err \<dots> return }\<close>.\<close>

fun map_res :: "('a \<Rightarrow> 'e + 'b) \<Rightarrow> 'a list \<Rightarrow> 'e + 'b list" where
  "map_res f [] = Inr []"
| "map_res f (x # xs) = (case f x of
       Inl e \<Rightarrow> Inl e
     | Inr y \<Rightarrow> (case map_res f xs of Inl e \<Rightarrow> Inl e | Inr ys \<Rightarrow> Inr (y # ys)))"

lemma map_res_Cons_Inr:
  "map_res f (x # xs) = Inr ys \<longleftrightarrow> (\<exists>y zs. ys = y # zs \<and> f x = Inr y \<and> map_res f xs = Inr zs)"
  by (auto split: sum.splits)

lemma map_res_Inr_iff:
  "map_res f xs = Inr ys \<longleftrightarrow> list_all2 (\<lambda>x y. f x = Inr y) xs ys"
proof (induction xs arbitrary: ys)
  case (Cons x xs)
  show ?case unfolding map_res_Cons_Inr list_all2_Cons1 Cons.IH by blast
qed auto

lemma map_res_Inl_iff:
  "map_res f xs = Inl e \<longleftrightarrow>
     (\<exists>as x bs. xs = as @ x # bs \<and> f x = Inl e \<and> (\<forall>a \<in> set as. \<exists>y. f a = Inr y))"
proof (induction xs)
  case (Cons x xs)
  let ?P = "\<lambda>xs as x' bs. xs = as @ x' # bs \<and> f x' = Inl e \<and> (\<forall>a \<in> set as. \<exists>y. f a = Inr y)"
  have step: "map_res f (x # xs) = Inl e \<longleftrightarrow> f x = Inl e \<or> (\<exists>y. f x = Inr y) \<and> map_res f xs = Inl e"
    by (auto split: sum.splits)
  have "(\<exists>as x' bs. ?P (x # xs) as x' bs) \<longleftrightarrow>
      f x = Inl e \<or> (\<exists>y. f x = Inr y) \<and> (\<exists>as x' bs. ?P xs as x' bs)" (is "?L \<longleftrightarrow> ?R")
  proof
    assume ?L
    then obtain as x' bs where h: "?P (x # xs) as x' bs" by blast
    show ?R
    proof (cases as)
      case (Cons a as')
      with h have "?P xs as' x' bs" "\<exists>y. f x = Inr y" by auto
      then show ?thesis by blast
    qed (use h in auto)
  next
    assume ?R
    then show ?L
    proof
      assume "f x = Inl e"
      then have "?P (x # xs) [] x xs" by simp
      then show ?thesis by blast
    next
      assume "(\<exists>y. f x = Inr y) \<and> (\<exists>as x' bs. ?P xs as x' bs)"
      then obtain as x' bs where "?P (x # xs) (x # as) x' bs" by auto
      then show ?thesis by blast
    qed
  qed
  with step Cons.IH show ?case by simp
qed simp

lemma map_res_cong:
  "(\<And>x. x \<in> set xs \<Longrightarrow> f x = g x) \<Longrightarrow> map_res f xs = map_res g xs"
  by (induction xs) (auto split: sum.splits)

lemma map_res_Inr_map: "(\<And>x. x \<in> set xs \<Longrightarrow> f x = Inr (g x)) \<Longrightarrow> map_res f xs = Inr (map g xs)"
  by (induction xs) auto

lemma map_res_length: "map_res f xs = Inr ys \<Longrightarrow> length ys = length xs"
  by (auto simp: map_res_Inr_iff dest: list_all2_lengthD)

section \<open>Association lists as Go maps\<close>

text \<open>\<open>m[k] = v\<close> and \<open>delete(m, k)\<close> on a map kept as an association list.\<close>

definition aput :: "'k \<Rightarrow> 'v \<Rightarrow> ('k \<times> 'v) list \<Rightarrow> ('k \<times> 'v) list" where
  "aput k v m = filter (\<lambda>p. fst p \<noteq> k) m @ [(k, v)]"

definition adel :: "'k \<Rightarrow> ('k \<times> 'v) list \<Rightarrow> ('k \<times> 'v) list" where
  "adel k m = filter (\<lambda>p. fst p \<noteq> k) m"

lemma map_of_filter_fst: "map_of (filter (\<lambda>p. fst p \<noteq> k) m) x = (if x = k then None else map_of m x)"
  by (induction m) auto

lemma map_of_aput [simp]: "map_of (aput k v m) = (map_of m)(k \<mapsto> v)"
  by (rule ext) (simp add: aput_def map_add_def map_of_filter_fst split: option.split)

lemma map_of_adel [simp]: "map_of (adel k m) = (map_of m)(k := None)"
  by (rule ext) (simp add: adel_def map_of_filter_fst)

lemma distinct_aput: "distinct (map fst m) \<Longrightarrow> distinct (map fst (aput k v m))"
  by (auto simp: aput_def distinct_map_filter)

lemma distinct_adel: "distinct (map fst m) \<Longrightarrow> distinct (map fst (adel k m))"
  by (simp add: adel_def distinct_map_filter)

lemma length_adel: "map_of m k = None \<Longrightarrow> length (adel k m) = length m"
  by (auto simp: adel_def map_of_eq_None_iff intro!: arg_cong[of _ _ length] filter_True)

end
