(* ===== verification/Go_Float.thy ===== *)
theory Go_Float
  imports Prelude "HOL-Library.Log_Nat"
begin

text \<open>
  The floating-point arithmetic of the language: \<open>float32\<close> and \<open>float64\<close> are IEEE 754 binary32
  and binary64 with round-to-nearest, ties to even. A value is a NaN, an infinity, minus zero, or
  a finite number kept as the rational it denotes; every operation is the exact rational result
  rounded to the format, so the definitions run in the kernel. The facts that the components
  use: rounding is monotone (\<open>rnd_mono\<close>), is the identity on representable numbers
  (\<open>rnd_representable\<close>), and always gives a representable number (\<open>representable_rnd\<close>).
\<close>

section \<open>Formats and rounding\<close>

datatype ffmt = F32 | F64

text \<open>Significand bits, exponent of the smallest subnormal, exponent of the overflow threshold.\<close>

fun prec :: "ffmt \<Rightarrow> nat" where
  "prec F32 = 24"
| "prec F64 = 53"

fun qmin :: "ffmt \<Rightarrow> int" where
  "qmin F32 = - 149"
| "qmin F64 = - 1074"

fun ovf :: "ffmt \<Rightarrow> int" where
  "ovf F32 = 128"
| "ovf F64 = 1024"

definition pow2 :: "int \<Rightarrow> rat" where
  "pow2 e = 2 powi e"

text \<open>Nearest integer, ties to even.\<close>

definition rne :: "rat \<Rightarrow> int" where
  "rne r = (let f = \<lfloor>r\<rfloor>; d = r - of_int f in
     if d < 1 / 2 then f else if 1 / 2 < d then f + 1 else if even f then f else f + 1)"

text \<open>The exponent of the leading bit of a positive rational.\<close>

definition ilog2 :: "rat \<Rightarrow> int" where
  "ilog2 r = (let (a, b) = quotient_of r; k = bitlen a - bitlen b in
     if pow2 k \<le> r then k else k - 1)"

text \<open>The exponent of the unit in the last place at \<open>r\<close>, and rounding to a multiple of it.\<close>

definition quantum :: "ffmt \<Rightarrow> rat \<Rightarrow> int" where
  "quantum fm r = max (ilog2 \<bar>r\<bar> - (int (prec fm) - 1)) (qmin fm)"

definition rnd :: "ffmt \<Rightarrow> rat \<Rightarrow> rat" where
  "rnd fm r = (if r = 0 then 0 else
     let u = pow2 (quantum fm r) in of_int (rne (r / u)) * u)"

definition representable :: "ffmt \<Rightarrow> rat \<Rightarrow> bool" where
  "representable fm r \<longleftrightarrow>
     (\<exists>m q. r = of_int m * pow2 q \<and> \<bar>m\<bar> < 2 ^ prec fm \<and> qmin fm \<le> q)"

section \<open>Values and operations\<close>

datatype fp = FNaN | FInf bool | FNegZero | FFin rat

text \<open>\<open>FInf True\<close> is minus infinity; \<open>FFin 0\<close> is plus zero.\<close>

fun fval :: "fp \<Rightarrow> rat" where
  "fval (FFin r) = r"
| "fval _ = 0"

fun is_fin :: "fp \<Rightarrow> bool" where
  "is_fin (FFin r) = True"
| "is_fin FNegZero = True"
| "is_fin _ = False"

fun signbit :: "fp \<Rightarrow> bool" where
  "signbit FNaN = False"
| "signbit (FInf b) = b"
| "signbit FNegZero = True"
| "signbit (FFin r) = (r < 0)"

text \<open>Rounding an exact result: overflow gives an infinity, underflow a signed zero.\<close>

definition fround :: "ffmt \<Rightarrow> bool \<Rightarrow> rat \<Rightarrow> fp" where
  "fround fm neg r = (let v = rnd fm r in
     if pow2 (ovf fm) \<le> \<bar>v\<bar> then FInf neg
     else if v = 0 then (if neg then FNegZero else FFin 0)
     else FFin v)"

text \<open>The values of a format.\<close>

fun fwf :: "ffmt \<Rightarrow> fp \<Rightarrow> bool" where
  "fwf fm (FFin r) = (rnd fm r = r \<and> \<bar>r\<bar> < pow2 (ovf fm))"
| "fwf fm _ = True"

fun fneg :: "fp \<Rightarrow> fp" where
  "fneg FNaN = FNaN"
| "fneg (FInf b) = FInf (\<not> b)"
| "fneg FNegZero = FFin 0"
| "fneg (FFin r) = (if r = 0 then FNegZero else FFin (- r))"

fun fadd :: "ffmt \<Rightarrow> fp \<Rightarrow> fp \<Rightarrow> fp" where
  "fadd fm FNaN y = FNaN"
| "fadd fm x FNaN = FNaN"
| "fadd fm (FInf a) (FInf b) = (if a = b then FInf a else FNaN)"
| "fadd fm (FInf a) y = FInf a"
| "fadd fm x (FInf b) = FInf b"
| "fadd fm x y = (let r = fval x + fval y in
     if r = 0 then (if x = FNegZero \<and> y = FNegZero then FNegZero else FFin 0)
     else fround fm (r < 0) r)"

definition fsub :: "ffmt \<Rightarrow> fp \<Rightarrow> fp \<Rightarrow> fp" where
  "fsub fm x y = fadd fm x (fneg y)"

fun fmul :: "ffmt \<Rightarrow> fp \<Rightarrow> fp \<Rightarrow> fp" where
  "fmul fm FNaN y = FNaN"
| "fmul fm x FNaN = FNaN"
| "fmul fm (FInf a) y = (if is_fin y \<and> fval y = 0 then FNaN else FInf (a \<noteq> signbit y))"
| "fmul fm x (FInf b) = (if fval x = 0 then FNaN else FInf (signbit x \<noteq> b))"
| "fmul fm x y = fround fm (signbit x \<noteq> signbit y) (fval x * fval y)"

fun fdiv :: "ffmt \<Rightarrow> fp \<Rightarrow> fp \<Rightarrow> fp" where
  "fdiv fm FNaN y = FNaN"
| "fdiv fm x FNaN = FNaN"
| "fdiv fm (FInf a) (FInf b) = FNaN"
| "fdiv fm (FInf a) y = FInf (a \<noteq> signbit y)"
| "fdiv fm x (FInf b) = (if signbit x \<noteq> b then FNegZero else FFin 0)"
| "fdiv fm x y = (if fval y = 0
     then (if fval x = 0 then FNaN else FInf (signbit x \<noteq> signbit y))
     else fround fm (signbit x \<noteq> signbit y) (fval x / fval y))"

text \<open>Ordered comparisons: \<open><\<close>, \<open>\<le>\<close> and \<open>==\<close> of the language, false on a NaN.\<close>

fun flt :: "fp \<Rightarrow> fp \<Rightarrow> bool" where
  "flt FNaN y = False"
| "flt x FNaN = False"
| "flt (FInf a) (FInf b) = (a \<and> \<not> b)"
| "flt (FInf a) y = a"
| "flt x (FInf b) = (\<not> b)"
| "flt x y = (fval x < fval y)"

fun feq :: "fp \<Rightarrow> fp \<Rightarrow> bool" where
  "feq FNaN y = False"
| "feq x FNaN = False"
| "feq (FInf a) (FInf b) = (a = b)"
| "feq (FInf a) y = False"
| "feq x (FInf b) = False"
| "feq x y = (fval x = fval y)"

definition fle :: "fp \<Rightarrow> fp \<Rightarrow> bool" where
  "fle x y \<longleftrightarrow> flt x y \<or> feq x y"

text \<open>Conversions: between the formats, and from an integer.\<close>

fun fcvt :: "ffmt \<Rightarrow> fp \<Rightarrow> fp" where
  "fcvt fm (FFin r) = fround fm (r < 0) r"
| "fcvt fm x = x"

definition fof_int :: "ffmt \<Rightarrow> int \<Rightarrow> fp" where
  "fof_int fm n = fround fm (n < 0) (of_int n)"

text \<open>Truncation towards zero, the value part of a conversion to an integer type.\<close>

definition ftrunc :: "rat \<Rightarrow> int" where
  "ftrunc r = (if 0 \<le> r then \<lfloor>r\<rfloor> else - \<lfloor>- r\<rfloor>)"

section \<open>Powers of two and rounding to an integer\<close>

lemma pow2_pos [simp]: "0 < pow2 e"
  by (simp add: pow2_def)
lemma pow2_ge [simp]: "0 \<le> pow2 e"
  by (rule less_imp_le) simp
lemma pow2_not_le_0 [simp]: "\<not> pow2 e \<le> 0"
  by (simp add: not_le)

lemma pow2_nz [simp]: "pow2 e \<noteq> 0"
  using pow2_pos[of e] by linarith
lemma pow2_abs [simp]: "\<bar>pow2 e\<bar> = pow2 e"
  by (simp add: abs_of_nonneg)
lemma pow2_add: "pow2 (a + b) = pow2 a * pow2 b"
  by (simp add: pow2_def power_int_add)
lemma pow2_diff: "pow2 (a - b) = pow2 a / pow2 b"
  by (simp add: pow2_def power_int_diff)
lemma pow2_nat: "0 \<le> e \<Longrightarrow> pow2 e = of_int (2 ^ nat e)"
  by (simp add: pow2_def power_int_def)
lemma pow2_le_iff [simp]: "pow2 a \<le> pow2 b \<longleftrightarrow> a \<le> b"
  unfolding pow2_def
  by (meson linorder_not_le one_less_numeral_iff power_int_mono_iff power_int_increasing power_int_strict_increasing semiring_norm(76) order_less_imp_le leD)
lemma pow2_less_iff [simp]: "pow2 a < pow2 b \<longleftrightarrow> a < b"
  by (meson linorder_not_le pow2_le_iff)

lemma rne_of_int [simp]: "rne (of_int n) = n"
  by (simp add: rne_def)

lemma rne_bounds: "of_int (rne r) - r \<le> 1 / 2" "r - of_int (rne r) \<le> 1 / 2"
  by (simp_all add: rne_def Let_def) linarith+

lemma rne_cases: "rne r = \<lfloor>r\<rfloor> \<or> rne r = \<lfloor>r\<rfloor> + 1"
  by (simp add: rne_def Let_def)

lemma rne_mono: assumes "r \<le> s" shows "rne r \<le> rne s"
proof (cases "\<lfloor>r\<rfloor> = \<lfloor>s\<rfloor>")
  case True
  then show ?thesis using assms by (auto simp: rne_def Let_def)
next
  case False
  with floor_mono [OF assms] have "\<lfloor>r\<rfloor> + 1 \<le> \<lfloor>s\<rfloor>" by linarith
  moreover have "rne r \<le> \<lfloor>r\<rfloor> + 1" using rne_cases[of r] by auto
  moreover have "\<lfloor>s\<rfloor> \<le> rne s" using rne_cases[of s] by auto
  ultimately show ?thesis by linarith
qed

lemma rne_minus: "rne (- r) = - rne r"
proof (cases "r = of_int \<lfloor>r\<rfloor>")
  case True
  then have "- r = of_int (- \<lfloor>r\<rfloor>)" by simp
  then show ?thesis using True rne_of_int by metis
next
  case False
  then have "\<lfloor>- r\<rfloor> = - \<lfloor>r\<rfloor> - 1"
    by (metis add_uminus_conv_diff ceiling_altdef ceiling_def minus_add_distrib add.inverse_inverse)
  then show ?thesis by (auto simp: rne_def Let_def)
qed

section \<open>Leading exponents\<close>

lemma ilog2_bounds:
  assumes "0 < r"
  shows "pow2 (ilog2 r) \<le> r" "r < pow2 (ilog2 r + 1)"
proof -
  obtain a b where q: "quotient_of r = (a, b)" by (cases "quotient_of r")
  have b: "0 < b" using quotient_of_denom_pos[OF q] .
  have r: "r = of_int a / of_int b" using quotient_of_div[OF q] .
  have a: "0 < a" using assms b r by (simp add: zero_less_divide_iff)
  have ba: "2 ^ nat (bitlen a - 1) \<le> a" "a < 2 ^ nat (bitlen a)"
    using bitlen_bounds[OF a] by auto
  have bb: "2 ^ nat (bitlen b - 1) \<le> b" "b < 2 ^ nat (bitlen b)"
    using bitlen_bounds[OF b] by auto
  have pa: "0 < bitlen a" "0 < bitlen b"
    using a b bitlen_nonneg[of a] bitlen_nonneg[of b] bitlen_eq_zero_iff[of a] bitlen_eq_zero_iff[of b] by linarith+
  have A: "pow2 (bitlen a - 1) \<le> of_int a" "of_int a < pow2 (bitlen a)"
    using ba pa by (simp_all only: pow2_nat of_int_le_iff of_int_less_iff less_imp_le diff_ge_0_iff_ge int_one_le_iff_zero_less)
  have B: "pow2 (bitlen b - 1) \<le> of_int b" "of_int b < pow2 (bitlen b)"
    using bb pa by (simp_all only: pow2_nat of_int_le_iff of_int_less_iff less_imp_le diff_ge_0_iff_ge int_one_le_iff_zero_less)
  let ?k = "bitlen a - bitlen b"
  have "r < pow2 (bitlen a) / pow2 (bitlen b - 1)"
    unfolding r using A B a b by (intro frac_less) auto
  then have up: "r < pow2 (?k + 1)"
    by (simp add: pow2_diff pow2_add)
  have "pow2 (bitlen a - 1) / pow2 (bitlen b) \<le> r"
    unfolding r using A B a b by (intro frac_le) auto
  then have lo: "pow2 (?k - 1) \<le> r"
    by (simp add: pow2_diff mult.commute)
  have il: "ilog2 r = (if pow2 ?k \<le> r then ?k else ?k - 1)"
    by (simp add: ilog2_def q)
  show "pow2 (ilog2 r) \<le> r" using il lo by auto
  show "r < pow2 (ilog2 r + 1)" using il up by auto
qed

lemma ilog2_le: "0 < r \<Longrightarrow> r < pow2 e \<Longrightarrow> ilog2 r < e"
  using ilog2_bounds(1)[of r] pow2_less_iff[of "ilog2 r" e] by linarith

lemma ilog2_ge: "pow2 e \<le> r \<Longrightarrow> e \<le> ilog2 r"
proof -
  assume h: "pow2 e \<le> r"
  then have "0 < r" using pow2_pos[of e] by linarith
  then have "pow2 e < pow2 (ilog2 r + 1)" using ilog2_bounds(2)[of r] h by linarith
  then show ?thesis by simp
qed

lemma ilog2_mono: "0 < r \<Longrightarrow> r \<le> s \<Longrightarrow> ilog2 r \<le> ilog2 s"
  using ilog2_bounds(1)[of r] by (intro ilog2_ge) linarith

section \<open>Representable numbers\<close>

lemma rnd_representable:
  assumes "representable fm r" shows "rnd fm r = r"
proof (cases "r = 0")
  case False
  obtain m q where mq: "r = of_int m * pow2 q" "\<bar>m\<bar> < 2 ^ prec fm" "qmin fm \<le> q"
    using assms by (auto simp: representable_def)
  have "\<bar>r\<bar> = of_int \<bar>m\<bar> * pow2 q" by (simp add: mq(1) abs_mult less_imp_le)
  also have "\<dots> < pow2 (int (prec fm)) * pow2 q"
    using mq(2) by (simp add: pow2_nat) (metis of_int_less_iff of_int_abs of_int_numeral of_int_power)
  finally have "\<bar>r\<bar> < pow2 (int (prec fm) + q)" by (simp add: pow2_add)
  then have "ilog2 \<bar>r\<bar> < int (prec fm) + q" using False by (intro ilog2_le) auto
  then have le: "quantum fm r \<le> q" using mq(3) by (simp add: quantum_def)
  let ?u = "quantum fm r"
  have "r / pow2 ?u = of_int m * pow2 (q - ?u)" by (simp add: mq(1) pow2_diff)
  then have int: "r / pow2 ?u = of_int (m * 2 ^ nat (q - ?u))"
    using le by (simp add: pow2_nat)
  then have "rne (r / pow2 ?u) = m * 2 ^ nat (q - ?u)" by (metis rne_of_int)
  then have "of_int (rne (r / pow2 ?u)) = r / pow2 ?u"
    using int by simp
  then show ?thesis using False by (simp add: rnd_def)
qed (simp add: rnd_def)

lemma rnd_zero [simp]: "rnd fm 0 = 0"
  by (simp add: rnd_def)

lemma rnd_minus: "rnd fm (- r) = - rnd fm r"
  by (simp add: rnd_def quantum_def Let_def rne_minus)

lemma rnd_nonneg: "0 \<le> r \<Longrightarrow> 0 \<le> rnd fm r"
proof -
  assume "0 \<le> r"
  then have "0 \<le> r / pow2 (quantum fm r)" by simp
  then have "0 \<le> rne (r / pow2 (quantum fm r))" using rne_mono[of 0 "r / pow2 (quantum fm r)"] rne_of_int[of 0] by simp
  then show ?thesis by (simp add: rnd_def Let_def)
qed

section \<open>Rounding is monotone\<close>

lemma rnd_mono_pos: assumes "0 < x" "x \<le> y" shows "rnd fm x \<le> rnd fm y"
proof (cases "quantum fm x = quantum fm y")
  case True
  have "x / pow2 (quantum fm y) \<le> y / pow2 (quantum fm y)"
    using assms by (simp add: divide_right_mono)
  from rne_mono[OF this] show ?thesis using assms True
    by (simp add: rnd_def Let_def mult_right_mono)
next
  case False
  let ?qx = "quantum fm x" and ?qy = "quantum fm y" and ?e = "ilog2 y"
  have "ilog2 x \<le> ?e" using assms by (intro ilog2_mono)
  with False assms have lt: "?qx < ?qy" "ilog2 x < ?e" and qy: "?qy = ?e - (int (prec fm) - 1)"
    by (auto simp: quantum_def max_def split: if_splits)
  have p: "0 < prec fm" by (cases fm) auto
  have xe: "x < pow2 ?e" using ilog2_bounds(2)[of x] assms(1) lt(2) pow2_le_iff[of "ilog2 x + 1" ?e] by linarith
  have key: "of_int (2 ^ nat (?e - q)) * pow2 q = pow2 ?e" if "q \<le> ?e" for q
    using that pow2_nat[of "?e - q"] pow2_add[of "?e - q" q] by simp
  have qe: "?qy \<le> ?e" "?qx \<le> ?e" using qy p lt by auto
  have "x / pow2 ?qx \<le> of_int (2 ^ nat (?e - ?qx))"
    using xe key[OF qe(2)] by (simp add: field_simps)
  then have "rne (x / pow2 ?qx) \<le> 2 ^ nat (?e - ?qx)" using rne_mono rne_of_int by metis
  then have "of_int (rne (x / pow2 ?qx)) * pow2 ?qx \<le> of_int (2 ^ nat (?e - ?qx)) * pow2 ?qx"
    by (intro mult_right_mono) (simp_all only: of_int_le_iff less_imp_le pow2_pos)
  then have 1: "rnd fm x \<le> pow2 ?e" unfolding key[OF qe(2)] using assms by (simp add: rnd_def Let_def)
  have "of_int (2 ^ nat (?e - ?qy)) \<le> y / pow2 ?qy"
    using ilog2_bounds(1)[of y] assms key[OF qe(1)] by (simp add: field_simps)
  then have "2 ^ nat (?e - ?qy) \<le> rne (y / pow2 ?qy)" using rne_mono rne_of_int by metis
  then have "of_int (2 ^ nat (?e - ?qy)) * pow2 ?qy \<le> of_int (rne (y / pow2 ?qy)) * pow2 ?qy"
    by (intro mult_right_mono) (simp_all only: of_int_le_iff less_imp_le pow2_pos)
  then have 2: "pow2 ?e \<le> rnd fm y" unfolding key[OF qe(1)] using assms by (simp add: rnd_def Let_def)
  from 1 2 show ?thesis by linarith
qed

lemma rnd_mono: assumes "x \<le> y" shows "rnd fm x \<le> rnd fm y"
proof -
  consider "0 < x" | "x \<le> 0" "0 \<le> y" | "y < 0" by linarith
  then show ?thesis
  proof cases
    case 1 then show ?thesis using assms by (rule rnd_mono_pos)
  next
    case 2
    then have "0 \<le> rnd fm y" "0 \<le> rnd fm (- x)" by (simp_all add: rnd_nonneg)
    then show ?thesis by (simp add: rnd_minus)
  next
    case 3
    then have "rnd fm (- y) \<le> rnd fm (- x)" using assms by (intro rnd_mono_pos) auto
    then show ?thesis by (simp add: rnd_minus)
  qed
qed

lemma rne_abs_le: "\<bar>r\<bar> \<le> of_int n \<Longrightarrow> \<bar>rne r\<bar> \<le> n"
  using rne_mono[of r "of_int n"] rne_mono[of "- r" "of_int n"] by (auto simp: rne_minus abs_le_iff)

lemma representable_rnd: "representable fm (rnd fm r)"
proof (cases "r = 0")
  case True
  then show ?thesis unfolding representable_def by (intro exI[of _ 0] exI[of _ "qmin fm"]) simp
next
  case False
  let ?q = "quantum fm r" and ?m = "rne (r / pow2 (quantum fm r))" and ?p = "int (prec fm)"
  have rr: "rnd fm r = of_int ?m * pow2 ?q" using False by (simp add: rnd_def Let_def)
  have q: "qmin fm \<le> ?q" by (simp add: quantum_def)
  have "\<bar>r\<bar> < pow2 (ilog2 \<bar>r\<bar> + 1)" using False ilog2_bounds(2)[of "\<bar>r\<bar>"] by simp
  also have "\<dots> \<le> pow2 (?p + ?q)" by (simp add: quantum_def)
  finally have "\<bar>r\<bar> / pow2 ?q \<le> of_int (2 ^ prec fm)" using pow2_nat[of ?p] by (simp add: pow2_add field_simps)
  then have m: "\<bar>?m\<bar> \<le> 2 ^ prec fm" by (intro rne_abs_le) (simp add: abs_divide)
  show ?thesis
  proof (cases "\<bar>?m\<bar> = 2 ^ prec fm")
    case False
    with m rr q show ?thesis unfolding representable_def by (intro exI[of _ ?m] exI[of _ ?q]) auto
  next
    case True
    then have "?m = sgn ?m * 2 ^ prec fm" by (metis sgn_mult_abs mult.commute)
    then have "rnd fm r = of_int (sgn ?m) * pow2 (?p + ?q)"
      by (subst rr) (metis (no_types, lifting) mult.assoc nat_int of_int_mult of_nat_0_le_iff pow2_add pow2_nat)
    moreover have "\<bar>sgn ?m\<bar> < 2 ^ prec fm" by (cases fm) (auto simp: sgn_if)
    ultimately show ?thesis using q unfolding representable_def
      by (intro exI[of _ "sgn ?m"] exI[of _ "?p + ?q"]) auto
  qed
qed

lemma rnd_idem [simp]: "rnd fm (rnd fm r) = rnd fm r"
  by (simp add: rnd_representable representable_rnd)

lemma rnd_eq_iff: "rnd fm r = r \<longleftrightarrow> representable fm r"
  using representable_rnd[of fm r] rnd_representable[of fm r] by auto

lemma representable_32_64: "representable F32 r \<Longrightarrow> representable F64 r"
  unfolding representable_def by (force elim: order_less_le_trans)

lemma representable_int: "\<bar>n\<bar> \<le> 2 ^ prec fm \<Longrightarrow> representable fm (of_int n)"
proof (cases "\<bar>n\<bar> = 2 ^ prec fm")
  case True
  then have "n = sgn n * 2 ^ prec fm" by (metis sgn_mult_abs mult.commute)
  then have "(of_int n :: rat) = of_int (sgn n) * pow2 (int (prec fm))"
    using pow2_nat[of "int (prec fm)"] by (metis nat_int of_int_mult of_nat_0_le_iff)
  then show ?thesis unfolding representable_def
    by (intro exI[of _ "sgn n"] exI[of _ "int (prec fm)"]) (cases fm; auto simp: sgn_if)
next
  case False
  assume "\<bar>n\<bar> \<le> 2 ^ prec fm"
  with False show ?thesis unfolding representable_def
    by (intro exI[of _ n] exI[of _ 0]) (cases fm; auto simp: pow2_def)
qed


section \<open>Facts about the operations\<close>

lemma rnd_le_representable: "r \<le> s \<Longrightarrow> representable fm s \<Longrightarrow> rnd fm r \<le> s"
  using rnd_mono[of r s fm] rnd_representable[of fm s] by simp

lemma rnd_ge_representable: "s \<le> r \<Longrightarrow> representable fm s \<Longrightarrow> s \<le> rnd fm r"
  using rnd_mono[of s r fm] rnd_representable[of fm s] by simp

lemma representable_pow2_ovf: "representable fm (pow2 (ovf fm))"
  unfolding representable_def by (intro exI[of _ 1] exI[of _ "ovf fm"]) (cases fm; simp)

lemma representable_minus: "representable fm r \<Longrightarrow> representable fm (- r)"
  by (simp flip: rnd_eq_iff add: rnd_minus)

lemma representable_0 [simp]: "representable fm 0"
  using representable_int[of 0 fm] by simp

lemma representable_1 [simp]: "representable fm 1"
  using representable_int[of 1 fm] by (cases fm) simp_all

lemma one_less_ovf [simp]: "1 < pow2 (ovf fm)"
proof -
  have "pow2 0 < pow2 (ovf fm)" by (simp only: pow2_less_iff) (cases fm; simp)
  then show ?thesis by (simp add: pow2_def)
qed

lemma fround_one [simp]: "fround fm b 1 = FFin 1"
  using one_less_ovf[of fm] by (simp add: fround_def rnd_representable del: one_less_ovf)

lemma fwf_FFin_iff: "fwf fm (FFin r) \<longleftrightarrow> representable fm r \<and> \<bar>r\<bar> < pow2 (ovf fm)"
  by (simp add: rnd_eq_iff)

lemma fwf_zero [simp]: "fwf fm (FFin 0)"
  by simp

lemma fwf_fround [simp]: "fwf fm (fround fm b r)"
  by (auto simp: fround_def Let_def)

text \<open>Rounding a number of the unit interval stays in it.\<close>

lemma fround_unit:
  assumes "0 \<le> r" "r \<le> 1"
  shows "is_fin (fround fm b r) \<and> 0 \<le> fval (fround fm b r) \<and> fval (fround fm b r) \<le> 1"
proof -
  have "0 \<le> rnd fm r" "rnd fm r \<le> 1"
    using assms by (auto intro: rnd_ge_representable rnd_le_representable)
  moreover have "1 < pow2 (ovf fm)" by simp
  ultimately have "\<bar>rnd fm r\<bar> < pow2 (ovf fm)" by linarith
  then show ?thesis using \<open>0 \<le> rnd fm r\<close> \<open>rnd fm r \<le> 1\<close> by (auto simp: fround_def Let_def)
qed

text \<open>A finite value of the format is its own rounding.\<close>

lemma fround_fwf: "fwf fm (FFin r) \<Longrightarrow> r \<noteq> 0 \<Longrightarrow> fround fm b r = FFin r"
  by (simp add: fround_def)

lemma fwf_fadd [simp]: "fwf fm x \<Longrightarrow> fwf fm y \<Longrightarrow> fwf fm (fadd fm x y)"
  by (cases x; cases y) (auto simp: Let_def simp del: fwf.simps(1) intro: fwf_fround)+

lemma fwf_fdiv [simp]: "fwf fm (fdiv fm x y)"
  by (cases x; cases y) (auto simp: Let_def simp del: fwf.simps(1))

lemma fwf_fcvt [simp]: "fwf fm (fcvt fm x)"
  by (cases x) (auto simp: Let_def simp del: fwf.simps(1))

lemma fwf_fof_int [simp]: "fwf fm (fof_int fm n)"
  by (simp add: fof_int_def)

lemma fcvt_same: "fwf fm x \<Longrightarrow> fcvt fm x = x"
proof (cases x)
  case (FFin r)
  assume "fwf fm x"
  with FFin show ?thesis by (cases "r = 0") (auto simp: fround_def Let_def)
qed auto

text \<open>Widening a \<open>float32\<close> to \<open>float64\<close> is exact, so widening and narrowing is the identity.\<close>

lemma fwf_32_64: "fwf F32 x \<Longrightarrow> fwf F64 x"
proof (cases x)
  case (FFin r)
  assume "fwf F32 x"
  with FFin have r: "representable F32 r" "\<bar>r\<bar> < pow2 128" by (simp_all only: fwf_FFin_iff ovf.simps)
  have "pow2 128 \<le> pow2 1024" by simp
  with r FFin show ?thesis using representable_32_64 by (auto simp only: fwf_FFin_iff ovf.simps)
qed auto

lemma fcvt_widen: "fwf F32 x \<Longrightarrow> fcvt F64 x = x"
  by (simp add: fcvt_same fwf_32_64)

lemma fcvt_narrow_widen: "fwf F32 x \<Longrightarrow> fcvt F32 (fcvt F64 x) = x"
  by (simp add: fcvt_widen fcvt_same)

lemma fof_int_exact: "\<bar>n\<bar> \<le> 2 ^ prec fm \<Longrightarrow> fof_int fm n = FFin (of_int n)"
proof -
  assume h: "\<bar>n\<bar> \<le> 2 ^ prec fm"
  have "(of_int \<bar>n\<bar> :: rat) \<le> of_int (2 ^ prec fm)" using h by (simp only: of_int_le_iff)
  also have "\<dots> = pow2 (int (prec fm))" by (simp add: pow2_nat)
  also have "\<dots> < pow2 (ovf fm)" by (cases fm) simp_all
  finally have "fwf fm (FFin (of_int n))" using representable_int[OF h] by (simp only: fwf_FFin_iff of_int_abs)
  then show ?thesis by (cases "n = 0") (auto simp: fof_int_def fround_fwf fround_def)
qed

lemma ftrunc_of_int [simp]: "ftrunc (of_int n) = n"
  by (simp add: ftrunc_def)

text \<open>Rounding a result that lies between two values of the format.\<close>

lemma fround_between:
  assumes "representable fm lo" "representable fm hi" "lo \<le> r" "r \<le> hi"
    "\<bar>lo\<bar> < pow2 (ovf fm)" "\<bar>hi\<bar> < pow2 (ovf fm)"
  shows "is_fin (fround fm b r)" "lo \<le> fval (fround fm b r)" "fval (fround fm b r) \<le> hi"
    "fval (fround fm b r) = rnd fm r"
proof -
  have "lo \<le> rnd fm r" "rnd fm r \<le> hi"
    using assms rnd_le_representable rnd_ge_representable by auto
  then have "\<bar>rnd fm r\<bar> < pow2 (ovf fm)" using assms(5,6) by linarith
  with \<open>lo \<le> rnd fm r\<close> \<open>rnd fm r \<le> hi\<close>
  show "is_fin (fround fm b r)" "lo \<le> fval (fround fm b r)" "fval (fround fm b r) \<le> hi"
    "fval (fround fm b r) = rnd fm r"
    by (auto simp: fround_def Let_def)
qed

lemma is_fin_fwf_bound: "fwf fm x \<Longrightarrow> is_fin x \<Longrightarrow> representable fm (fval x) \<and> \<bar>fval x\<bar> < pow2 (ovf fm)"
  by (cases x) (auto simp: rnd_eq_iff)

lemma flt_fin: "is_fin x \<Longrightarrow> is_fin y \<Longrightarrow> flt x y \<longleftrightarrow> fval x < fval y"
  by (cases x; cases y) auto

lemma feq_fin: "is_fin x \<Longrightarrow> is_fin y \<Longrightarrow> feq x y \<longleftrightarrow> fval x = fval y"
  by (cases x; cases y) auto

lemma fdiv_fin: "is_fin x \<Longrightarrow> is_fin y \<Longrightarrow> fval y \<noteq> 0 \<Longrightarrow>
    fdiv fm x y = fround fm (signbit x \<noteq> signbit y) (fval x / fval y)"
  by (cases x; cases y) auto

lemma fadd_fin: "is_fin x \<Longrightarrow> is_fin y \<Longrightarrow> fval x + fval y \<noteq> 0 \<Longrightarrow>
    fadd fm x y = fround fm (fval x + fval y < 0) (fval x + fval y)"
  by (cases x; cases y) (auto simp: Let_def)

lemma fadd_fin_zero: "is_fin x \<Longrightarrow> is_fin y \<Longrightarrow> fval x + fval y = 0 \<Longrightarrow>
    is_fin (fadd fm x y) \<and> fval (fadd fm x y) = 0"
  by (cases x; cases y) auto

text \<open>Adding a non-negative finite value never goes below either operand.\<close>

lemma fadd_nonneg:
  assumes "fwf fm x" "fwf fm y" "is_fin x" "is_fin y" "0 \<le> fval x" "0 \<le> fval y"
    and hi: "representable fm hi" "fval x + fval y \<le> hi" "\<bar>hi\<bar> < pow2 (ovf fm)"
  shows "is_fin (fadd fm x y)" "fval x \<le> fval (fadd fm x y)" "fval y \<le> fval (fadd fm x y)"
    "fval (fadd fm x y) \<le> rnd fm (fval x + fval y)"
proof -
  have b: "representable fm (fval x)" "\<bar>fval x\<bar> < pow2 (ovf fm)"
    "representable fm (fval y)" "\<bar>fval y\<bar> < pow2 (ovf fm)"
    using assms(1-4) is_fin_fwf_bound by auto
  let ?s = "fval x + fval y"
  have "is_fin (fadd fm x y) \<and> fval x \<le> fval (fadd fm x y) \<and> fval y \<le> fval (fadd fm x y) \<and>
    fval (fadd fm x y) \<le> rnd fm ?s"
  proof (cases "?s = 0")
    case True
    with assms have "fval x = 0" "fval y = 0" by linarith+
    then show ?thesis using fadd_fin_zero[of x y fm] assms by simp
  next
    case False
    have eq: "fadd fm x y = fround fm (?s < 0) ?s" using False assms by (simp add: fadd_fin)
    note 1 = fround_between[OF b(1) hi(1), of ?s "?s < 0"]
    note 2 = fround_between[OF b(3) hi(1), of ?s "?s < 0"]
    show ?thesis unfolding eq using 1 2 assms b hi by simp
  qed
  then show "is_fin (fadd fm x y)" "fval x \<le> fval (fadd fm x y)" "fval y \<le> fval (fadd fm x y)"
    "fval (fadd fm x y) \<le> rnd fm ?s" by auto
qed

end
