(* ===== verification/Go_Values.thy ===== *)
theory Go_Values
  imports Go_Float "HOL-Library.Word"
begin

text \<open>
  The values that flow between the components: the dynamic types that an \<open>interface{}\<close> holds
  in the sources, the error values, and the encoding of values as JSON that the persistent queue
  uses. A map is an association list (the first entry of a key counts); a machine integer has its
  width; a \<open>float32\<close> or \<open>float64\<close> is a value of \<open>Go_Float\<close>.
\<close>

section \<open>Dynamic values\<close>

datatype goval =
    GNil
  | GBool bool
  | GInt int
  | GInt64 "64 word"
  | GF32 fp
  | GF64 fp
  | GString string
  | GF32s "fp list"
  | GF32ss "fp list list"
  | GF64s "fp list"
  | GF64ss "fp list list"
  | GI8s "8 word list"
  | GU8s "8 word list"
  | GI16s "16 word list"
  | GU16s "16 word list"
  | GI32s "32 word list"
  | GU32s "32 word list"
  | GI64s "64 word list"
  | GU64s "64 word list"
  | GI64ss "64 word list list"
  | GBools "bool list"
  | GInts "int list"
  | GStrings "string list"
  | GSlice "goval list"
  | GMap "(string \<times> goval) list"
  | GMaps "(string \<times> goval) list list"
  | GMapClaims "(string \<times> goval) list"
  | GTask string string goval
  | GConfig bool string

text \<open>
  \<open>GSlice\<close> is \<open>[]interface{}\<close>, \<open>GMap\<close> is \<open>map[string]interface{}\<close>, \<open>GMaps\<close> a slice of those,
  \<open>GMapClaims\<close> is \<open>jwt.MapClaims\<close> (a named type, so not a \<open>map[string]interface{}\<close> for a type
  assertion), \<open>GTask\<close> is a \<open>*worker.Task\<close> (model id, version, input) and \<open>GConfig\<close> a
  \<open>*config.Config\<close> of which only \<open>SignatureVerification\<close> is read.
\<close>

abbreviation kv_get :: "(string \<times> goval) list \<Rightarrow> string \<Rightarrow> goval option" where
  "kv_get m k \<equiv> map_of m k"

section \<open>Bytes\<close>

type_synonym bytes = "8 word list"

text \<open>The number that a big-endian byte string denotes, as \<open>big.Int.SetBytes\<close> reads it.\<close>

definition be_val :: "bytes \<Rightarrow> nat" where
  "be_val bs = foldl (\<lambda>n b. n * 256 + unat b) 0 bs"

lemma be_fold: "foldl (\<lambda>n b. n * 256 + unat b) k bs = k * 256 ^ length bs + be_val bs"
  for bs :: bytes
proof (induction bs arbitrary: k)
  case (Cons b bs)
  show ?case using Cons.IH[of "k * 256 + unat b"] Cons.IH[of "unat b"]
    by (simp add: be_val_def algebra_simps)
qed (simp add: be_val_def)

lemma be_val_Nil [simp]: "be_val [] = 0"
  by (simp add: be_val_def)

lemma be_val_Cons [simp]: "be_val (b # bs) = unat b * 256 ^ length bs + be_val bs"
  using be_fold[of "unat b" bs] by (simp add: be_val_def)

lemma be_val_bound: "be_val bs < 256 ^ length bs"
proof (induction bs)
  case (Cons b bs)
  have "unat b \<le> 255" using unsigned_less[of b, where ?'a = nat] by simp
  then have "unat b * 256 ^ length bs \<le> 255 * 256 ^ length bs" by (rule mult_le_mono1)
  moreover have "be_val (b # bs) = unat b * 256 ^ length bs + be_val bs" by simp
  moreover have "256 ^ length (b # bs) = 255 * 256 ^ length bs + (256 ^ length bs :: nat)" by simp
  ultimately show ?case using Cons.IH by linarith
qed simp

text \<open>\<open>hex.EncodeToString\<close>: two lower-case digits per byte.\<close>

definition hex_digit :: "nat \<Rightarrow> char" where
  "hex_digit n = ''0123456789abcdef'' ! (n mod 16)"

definition hex_encode :: "bytes \<Rightarrow> string" where
  "hex_encode bs = concat (map (\<lambda>b. [hex_digit (unat b div 16), hex_digit (unat b mod 16)]) bs)"

lemma hex_digit_inject: "m < 16 \<Longrightarrow> n < 16 \<Longrightarrow> hex_digit m = hex_digit n \<Longrightarrow> m = n"
proof -
  have "distinct ''0123456789abcdef''" by simp
  then show "m < 16 \<Longrightarrow> n < 16 \<Longrightarrow> hex_digit m = hex_digit n \<Longrightarrow> m = n"
    unfolding hex_digit_def by (subst (asm) nth_eq_iff_index_eq) auto
qed

lemma hex_encode_inject: "hex_encode a = hex_encode b \<longleftrightarrow> a = b"
proof
  show "hex_encode a = hex_encode b \<Longrightarrow> a = b"
  proof (induction a arbitrary: b)
    case Nil
    then show ?case by (cases b) (simp_all add: hex_encode_def)
  next
    case (Cons x a)
    then obtain y b' where b: "b = y # b'" by (cases b) (simp_all add: hex_encode_def)
    have lt: "unat x div 16 < 16" "unat y div 16 < 16"
      using unsigned_less[of x, where ?'a = nat] unsigned_less[of y, where ?'a = nat] by auto
    have "unat x div 16 = unat y div 16" "unat x mod 16 = unat y mod 16"
      using Cons.prems b lt by (auto simp: hex_encode_def intro!: hex_digit_inject)
    then have "x = y" by (metis div_mult_mod_eq word_unat_eq_iff)
    moreover have "a = b'" using Cons.IH[of b'] Cons.prems b by (simp add: hex_encode_def)
    ultimately show ?case by (simp add: b)
  qed
qed simp

lemma length_hex_encode [simp]: "length (hex_encode bs) = 2 * length bs"
  by (induction bs) (simp_all add: hex_encode_def)

section \<open>Errors\<close>

text \<open>
  The sentinel errors that callers compare with, an error made from a message, an error made by
  \<open>fmt.Errorf\<close> (the format and its arguments), one that wraps another with \<open>%w\<close>, and an error
  that comes from outside (operating system, third-party library).
\<close>

datatype gerr =
    ErrModelNotFound
  | ErrModelAlreadyExists
  | ErrNotImplemented
  | ErrModelVersionNotFound
  | ErrKeyNotFound
  | ErrCanceled
  | ErrDeadlineExceeded
  | ErrNew string
  | Errorf string "goval list"
  | Errorw string "goval list" gerr
  | ErrExt string

text \<open>\<open>errors.Is\<close>: the error or one that it wraps.\<close>

fun err_is :: "gerr \<Rightarrow> gerr \<Rightarrow> bool" where
  "err_is (Errorw f a e) t \<longleftrightarrow> Errorw f a e = t \<or> err_is e t"
| "err_is e t \<longleftrightarrow> e = t"

lemma err_is_refl [simp]: "err_is e e"
  by (cases e) auto

type_synonym 'a res = "gerr + 'a"

section \<open>JSON\<close>

text \<open>
  The text that \<open>encoding/json\<close> writes is kept as its syntax tree. A number token remembers what
  it was printed from: an integer, a \<open>float64\<close> (printed with the shortest digits that read back
  as the same \<open>float64\<close>), or a \<open>float32\<close> (shortest digits for \<open>float32\<close>; what they read back
  as in \<open>float64\<close> is the parameter \<open>dec32\<close> of the decoder).
\<close>

datatype json =
    JNull
  | JBool bool
  | JInt int
  | JF64 fp
  | JF32 fp
  | JStr string
  | JArr "json list"
  | JObj "(string \<times> json) list"

text \<open>Standard base64, the encoding of a \<open>[]byte\<close> in JSON.\<close>

definition b64_char :: "nat \<Rightarrow> char" where
  "b64_char n = (''ABCDEFGHIJKLMNOPQRSTUVWXYZabcdefghijklmnopqrstuvwxyz0123456789+/'' ! (n mod 64))"

fun b64 :: "8 word list \<Rightarrow> string" where
  "b64 [] = []"
| "b64 [a] = [b64_char (unat a div 4), b64_char (unat a mod 4 * 16), CHR ''='', CHR ''='']"
| "b64 [a, b] = [b64_char (unat a div 4), b64_char (unat a mod 4 * 16 + unat b div 16),
     b64_char (unat b mod 16 * 4), CHR ''='']"
| "b64 (a # b # c # r) = b64_char (unat a div 4) # b64_char (unat a mod 4 * 16 + unat b div 16)
     # b64_char (unat b mod 16 * 4 + unat c div 64) # b64_char (unat c mod 64) # b64 r"

text \<open>A float that is not finite has no JSON form (\<open>UnsupportedValueError\<close>).\<close>

definition jfloat :: "(fp \<Rightarrow> json) \<Rightarrow> fp \<Rightarrow> json res" where
  "jfloat tok x = (if is_fin x then Inr (tok x) else Inl (ErrExt ''json: unsupported value''))"

definition jarr :: "json list res \<Rightarrow> json res" where
  "jarr r = (case r of Inl e \<Rightarrow> Inl e | Inr js \<Rightarrow> Inr (JArr js))"

text \<open>
  Encoding. A \<open>*worker.Task\<close> has channel fields, which are an \<open>UnsupportedTypeError\<close>.
\<close>

fun marshal :: "goval \<Rightarrow> json res"
  and marshal_list :: "goval list \<Rightarrow> json list res"
  and marshal_kvs :: "(string \<times> goval) list \<Rightarrow> (string \<times> json) list res"
  and marshal_maps :: "(string \<times> goval) list list \<Rightarrow> json list res" where
  "marshal GNil = Inr JNull"
| "marshal (GBool b) = Inr (JBool b)"
| "marshal (GInt n) = Inr (JInt n)"
| "marshal (GInt64 w) = Inr (JInt (sint w))"
| "marshal (GF32 x) = jfloat JF32 x"
| "marshal (GF64 x) = jfloat JF64 x"
| "marshal (GString s) = Inr (JStr s)"
| "marshal (GF32s xs) = jarr (map_res (jfloat JF32) xs)"
| "marshal (GF32ss xss) = jarr (map_res (\<lambda>xs. jarr (map_res (jfloat JF32) xs)) xss)"
| "marshal (GF64s xs) = jarr (map_res (jfloat JF64) xs)"
| "marshal (GF64ss xss) = jarr (map_res (\<lambda>xs. jarr (map_res (jfloat JF64) xs)) xss)"
| "marshal (GI8s ws) = Inr (JArr (map (\<lambda>w. JInt (sint w)) ws))"
| "marshal (GU8s ws) = Inr (JStr (b64 ws))"
| "marshal (GI16s ws) = Inr (JArr (map (\<lambda>w. JInt (sint w)) ws))"
| "marshal (GU16s ws) = Inr (JArr (map (\<lambda>w. JInt (uint w)) ws))"
| "marshal (GI32s ws) = Inr (JArr (map (\<lambda>w. JInt (sint w)) ws))"
| "marshal (GU32s ws) = Inr (JArr (map (\<lambda>w. JInt (uint w)) ws))"
| "marshal (GI64s ws) = Inr (JArr (map (\<lambda>w. JInt (sint w)) ws))"
| "marshal (GU64s ws) = Inr (JArr (map (\<lambda>w. JInt (uint w)) ws))"
| "marshal (GI64ss wss) = Inr (JArr (map (\<lambda>ws. JArr (map (\<lambda>w. JInt (sint w)) ws)) wss))"
| "marshal (GBools bs) = Inr (JArr (map JBool bs))"
| "marshal (GInts ns) = Inr (JArr (map JInt ns))"
| "marshal (GStrings ss) = Inr (JArr (map JStr ss))"
| "marshal (GSlice vs) = jarr (marshal_list vs)"
| "marshal (GMap m) = (case marshal_kvs m of Inl e \<Rightarrow> Inl e | Inr js \<Rightarrow> Inr (JObj js))"
| "marshal (GMaps ms) = jarr (marshal_maps ms)"
| "marshal (GMapClaims m) = (case marshal_kvs m of Inl e \<Rightarrow> Inl e | Inr js \<Rightarrow> Inr (JObj js))"
| "marshal (GTask i v x) = Inl (ErrExt ''json: unsupported type: chan<- *inference.Prediction'')"
| "marshal (GConfig e p) = Inr (JObj [(''SignatureVerification'',
     JObj [(''Enabled'', JBool e), (''PublicKeyPem'', JStr p)])])"
| "marshal_list [] = Inr []"
| "marshal_list (v # vs) = (case marshal v of Inl e \<Rightarrow> Inl e
     | Inr j \<Rightarrow> (case marshal_list vs of Inl e \<Rightarrow> Inl e | Inr js \<Rightarrow> Inr (j # js)))"
| "marshal_kvs [] = Inr []"
| "marshal_kvs (kv # m) = (case marshal (snd kv) of Inl e \<Rightarrow> Inl e
     | Inr j \<Rightarrow> (case marshal_kvs m of Inl e \<Rightarrow> Inl e | Inr js \<Rightarrow> Inr ((fst kv, j) # js)))"
| "marshal_maps [] = Inr []"
| "marshal_maps (m # ms) = (case marshal_kvs m of Inl e \<Rightarrow> Inl e
     | Inr o1 \<Rightarrow> (case marshal_maps ms of Inl e \<Rightarrow> Inl e | Inr js \<Rightarrow> Inr (JObj o1 # js)))"

text \<open>Decoding into an \<open>interface{}\<close>: numbers become \<open>float64\<close>, arrays \<open>[]interface{}\<close>.\<close>

fun unmarshal :: "(fp \<Rightarrow> fp) \<Rightarrow> json \<Rightarrow> goval"
  and unmarshal_list :: "(fp \<Rightarrow> fp) \<Rightarrow> json list \<Rightarrow> goval list"
  and unmarshal_kvs :: "(fp \<Rightarrow> fp) \<Rightarrow> (string \<times> json) list \<Rightarrow> (string \<times> goval) list" where
  "unmarshal dec32 JNull = GNil"
| "unmarshal dec32 (JBool b) = GBool b"
| "unmarshal dec32 (JInt n) = GF64 (fof_int F64 n)"
| "unmarshal dec32 (JF64 x) = GF64 x"
| "unmarshal dec32 (JF32 x) = GF64 (dec32 x)"
| "unmarshal dec32 (JStr s) = GString s"
| "unmarshal dec32 (JArr js) = GSlice (unmarshal_list dec32 js)"
| "unmarshal dec32 (JObj o1) = GMap (unmarshal_kvs dec32 o1)"
| "unmarshal_list dec32 [] = []"
| "unmarshal_list dec32 (j # js) = unmarshal dec32 j # unmarshal_list dec32 js"
| "unmarshal_kvs dec32 [] = []"
| "unmarshal_kvs dec32 (kj # o1) = (fst kj, unmarshal dec32 (snd kj)) # unmarshal_kvs dec32 o1"

lemma unmarshal_list_map: "unmarshal_list dec32 js = map (unmarshal dec32) js"
  by (induction js) auto

text \<open>No decoded value is one of the typed slices: they all come back as \<open>[]interface{}\<close>.\<close>

fun is_typed_slice :: "goval \<Rightarrow> bool" where
  "is_typed_slice (GF32s _) = True"
| "is_typed_slice (GF32ss _) = True"
| "is_typed_slice (GF64s _) = True"
| "is_typed_slice (GF64ss _) = True"
| "is_typed_slice (GI8s _) = True"
| "is_typed_slice (GU8s _) = True"
| "is_typed_slice (GI32s _) = True"
| "is_typed_slice (GI64s _) = True"
| "is_typed_slice (GBools _) = True"
| "is_typed_slice _ = False"

lemma unmarshal_not_typed_slice [simp]: "\<not> is_typed_slice (unmarshal dec32 j)"
  by (cases j) auto

end
