(* ===== verification/Pipeline.thy ===== *)
theory Pipeline
  imports Go_Values
begin

text \<open>
  The pre- and post-processing pipeline (\<open>src/internal/processing/pipeline.go\<close>): its construction
  from the configuration and \<open>Pipeline.Run\<close> with the four built-in steps. \<open>math.Exp\<close> is the
  parameter \<open>ex\<close>. The step \<open>normalize\<close> writes into the slice it gets, so the model returns, beside
  the result, what the caller's value holds afterwards.
\<close>

section \<open>Steps and construction\<close>

record step =
  step_type :: string
  params :: "(string \<times> goval) list"

record pipeline =
  steps :: "step list"

definition build_step :: "(string \<times> goval) list \<Rightarrow> step res" where
  "build_step s = (case kv_get s ''type'' of
       Some (GString t) \<Rightarrow>
         Inr \<lparr>step_type = t, params = (case kv_get s ''params'' of Some (GMap p) \<Rightarrow> p | _ \<Rightarrow> [])\<rparr>
     | _ \<Rightarrow> Inl (ErrNew (''pipeline step missing 'type'' @ [CHR 0x27])))"

definition NewPipelineFromConfig :: "(string \<times> goval) list list \<Rightarrow> pipeline res" where
  "NewPipelineFromConfig cfg = (case map_res build_step cfg of
       Inl e \<Rightarrow> Inl e
     | Inr ss \<Rightarrow> Inr \<lparr>steps = ss\<rparr>)"

section \<open>The built-in steps\<close>

text \<open>\<open>var max float32; for _, v := range arr { if v > max { max = v } }\<close>\<close>

definition arr_max :: "fp list \<Rightarrow> fp" where
  "arr_max arr = foldl (\<lambda>m v. if flt m v then v else m) (FFin 0) arr"

definition normalize :: "fp list \<Rightarrow> fp list" where
  "normalize arr = map (\<lambda>v. fdiv F32 v (arr_max arr)) arr"

definition softmax_exps :: "(fp \<Rightarrow> fp) \<Rightarrow> fp list \<Rightarrow> fp list" where
  "softmax_exps ex arr = map (\<lambda>v. fcvt F32 (ex (fcvt F64 (fsub F32 v (arr_max arr))))) arr"

definition fsum :: "fp list \<Rightarrow> fp" where
  "fsum es = foldl (fadd F32) (FFin 0) es"

definition softmax :: "(fp \<Rightarrow> fp) \<Rightarrow> fp list \<Rightarrow> fp list" where
  "softmax ex arr = (let es = softmax_exps ex arr in map (\<lambda>e. fdiv F32 e (fsum es)) es)"

definition threshold_of :: "(string \<times> goval) list \<Rightarrow> fp" where
  "threshold_of ps = (case kv_get ps ''threshold'' of Some (GF64 t) \<Rightarrow> t | _ \<Rightarrow> FFin (1 / 2))"

definition apply_threshold :: "fp \<Rightarrow> fp list \<Rightarrow> int list" where
  "apply_threshold thresh arr = map (\<lambda>v. if fle thresh (fcvt F64 v) then 1 else 0) arr"

definition label_text :: "goval \<Rightarrow> string" where
  "label_text v = (case v of GString s \<Rightarrow> s | _ \<Rightarrow> '''')"

definition map_to_labels :: "string list \<Rightarrow> int list \<Rightarrow> string list" where
  "map_to_labels labels arr =
     map (\<lambda>idx. if 0 \<le> idx \<and> idx < int (length labels) then labels ! nat idx else '''') arr"

section \<open>Run\<close>

text \<open>
  What one step does with the current data: it fails, it ends the whole run with a result (the
  \<open>return arr, nil\<close> of \<open>normalize\<close>), it overwrites the slice in place, or it makes a new value.
\<close>

datatype step_result = Fail gerr | Stop goval | InPlace goval | Fresh goval

definition run_step :: "(fp \<Rightarrow> fp) \<Rightarrow> step \<Rightarrow> goval \<Rightarrow> step_result" where
  "run_step ex st data =
     (if step_type st = ''normalize'' then
        (case data of
           GF32s arr \<Rightarrow> if feq (arr_max arr) (FFin 0) then Stop (GF32s arr)
                        else InPlace (GF32s (normalize arr))
         | _ \<Rightarrow> Fail (ErrNew ''normalize expects []float32 input''))
      else if step_type st = ''softmax'' then
        (case data of
           GF32s arr \<Rightarrow> Fresh (GF32s (softmax ex arr))
         | _ \<Rightarrow> Fail (ErrNew ''softmax expects []float32 input''))
      else if step_type st = ''apply_threshold'' then
        (case data of
           GF32s arr \<Rightarrow> Fresh (GInts (apply_threshold (threshold_of (params st)) arr))
         | _ \<Rightarrow> Fail (ErrNew ''apply_threshold expects []float32 input''))
      else if step_type st = ''map_to_labels'' then
        (case data of
           GInts arr \<Rightarrow>
             (case kv_get (params st) ''labels'' of
                Some (GSlice ls) \<Rightarrow> Fresh (GStrings (map_to_labels (map label_text ls) arr))
              | _ \<Rightarrow> Fail (ErrNew ''map_to_labels requires 'labels' param as []string''))
         | _ \<Rightarrow> Fail (ErrNew ''map_to_labels expects []int input''))
      else Fail (ErrNew (''unsupported step: '' @ step_type st)))"

text \<open>
  The loop over the steps. \<open>al\<close> says whether \<open>data\<close> is still the caller's slice, \<open>input\<close> is what
  that slice holds now.
\<close>

fun run_steps :: "(fp \<Rightarrow> fp) \<Rightarrow> step list \<Rightarrow> bool \<Rightarrow> goval \<Rightarrow> goval \<Rightarrow> goval res \<times> goval" where
  "run_steps ex [] al input data = (Inr data, input)"
| "run_steps ex (st # sts) al input data = (case run_step ex st data of
       Fail e \<Rightarrow> (Inl e, input)
     | Stop d \<Rightarrow> (Inr d, input)
     | InPlace d \<Rightarrow> run_steps ex sts al (if al then d else input) d
     | Fresh d \<Rightarrow> run_steps ex sts False input d)"

definition Run_effect :: "(fp \<Rightarrow> fp) \<Rightarrow> pipeline \<Rightarrow> goval \<Rightarrow> goval res \<times> goval" where
  "Run_effect ex p input = run_steps ex (steps p) True input input"

definition Run :: "(fp \<Rightarrow> fp) \<Rightarrow> pipeline \<Rightarrow> goval \<Rightarrow> goval res" where
  "Run ex p input = fst (Run_effect ex p input)"

text \<open>\<open>ProcessInput\<close> and \<open>ProcessOutput\<close> are aliases of \<open>Run\<close>.\<close>

definition ProcessInput :: "(fp \<Rightarrow> fp) \<Rightarrow> pipeline \<Rightarrow> goval \<Rightarrow> goval res" where
  "ProcessInput ex p input = Run ex p input"

definition ProcessOutput :: "(fp \<Rightarrow> fp) \<Rightarrow> pipeline \<Rightarrow> goval \<Rightarrow> goval res" where
  "ProcessOutput ex p output = Run ex p output"

lemmas pipeline_defs [go_simps] = Run_def Run_effect_def run_step_def

section \<open>Static types of a pipeline\<close>

text \<open>
  The abstract contract of a configuration: each built-in step takes one dynamic type to another,
  and a pipeline is well typed for an input type when the steps compose.
\<close>

datatype pty = TF32s | TInts | TStrings

fun val_ty :: "goval \<Rightarrow> pty option" where
  "val_ty (GF32s _) = Some TF32s"
| "val_ty (GInts _) = Some TInts"
| "val_ty (GStrings _) = Some TStrings"
| "val_ty _ = None"

fun val_len :: "goval \<Rightarrow> nat" where
  "val_len (GF32s xs) = length xs"
| "val_len (GInts xs) = length xs"
| "val_len (GStrings xs) = length xs"
| "val_len _ = 0"

definition has_labels :: "step \<Rightarrow> bool" where
  "has_labels st = (case kv_get (params st) ''labels'' of Some (GSlice _) \<Rightarrow> True | _ \<Rightarrow> False)"

definition step_ty :: "step \<Rightarrow> pty \<Rightarrow> pty option" where
  "step_ty st t =
     (if step_type st = ''normalize'' \<or> step_type st = ''softmax''
        then (if t = TF32s then Some TF32s else None)
      else if step_type st = ''apply_threshold'' then (if t = TF32s then Some TInts else None)
      else if step_type st = ''map_to_labels''
        then (if t = TInts \<and> has_labels st then Some TStrings else None)
      else None)"

fun steps_ty :: "step list \<Rightarrow> pty \<Rightarrow> pty option" where
  "steps_ty [] t = Some t"
| "steps_ty (st # sts) t = (case step_ty st t of None \<Rightarrow> None | Some u \<Rightarrow> steps_ty sts u)"

text \<open>The data on which \<open>normalize\<close> ends the run: no element is positive.\<close>

definition no_positive :: "goval \<Rightarrow> bool" where
  "no_positive v = (case v of GF32s arr \<Rightarrow> feq (arr_max arr) (FFin 0) | _ \<Rightarrow> False)"

section \<open>The maximum\<close>

lemma arr_max_fold:
  assumes "is_fin m" and "\<forall>v \<in> set arr. is_fin v"
  defines "r \<equiv> foldl (\<lambda>m v. if flt m v then v else m) m arr"
  shows "is_fin r \<and> fval m \<le> fval r \<and> (\<forall>v \<in> set arr. fval v \<le> fval r) \<and> (r = m \<or> r \<in> set arr)"
  unfolding r_def using assms(1,2)
proof (induction arr arbitrary: m)
  case (Cons v arr)
  let ?m = "if flt m v then v else m"
  have f: "is_fin ?m" "\<forall>v \<in> set arr. is_fin v" using Cons.prems by auto
  have "fval m \<le> fval ?m" "fval v \<le> fval ?m"
    using Cons.prems by (auto simp: flt_fin)
  with Cons.IH[OF f] show ?case by fastforce
qed simp

lemma arr_max_props:
  assumes "\<forall>v \<in> set arr. is_fin v"
  shows arr_max_fin: "is_fin (arr_max arr)" and arr_max_nonneg: "0 \<le> fval (arr_max arr)"
    and arr_max_upper: "\<And>v. v \<in> set arr \<Longrightarrow> fval v \<le> fval (arr_max arr)"
    and arr_max_mem: "arr_max arr = FFin 0 \<or> arr_max arr \<in> set arr"
  using arr_max_fold[of "FFin 0" arr] assms unfolding arr_max_def by auto

section \<open>normalize\<close>

text \<open>The quotient of two finite values of which the divisor is positive and the larger.\<close>

lemma fdiv_unit:
  assumes "is_fin x" "is_fin y" "0 \<le> fval x" "fval x \<le> fval y" "0 < fval y"
  shows "is_fin (fdiv fm x y)" "0 \<le> fval (fdiv fm x y)" "fval (fdiv fm x y) \<le> 1"
proof -
  have "0 \<le> fval x / fval y" "fval x / fval y \<le> 1" using assms by auto
  with fround_unit[OF this] assms
  show "is_fin (fdiv fm x y)" "0 \<le> fval (fdiv fm x y)" "fval (fdiv fm x y) \<le> 1"
    by (simp_all add: fdiv_fin)
qed

lemma fdiv_self: "is_fin x \<Longrightarrow> 0 < fval x \<Longrightarrow> fdiv fm x x = FFin 1"
  by (simp add: fdiv_fin)

lemma normalize_range:
  assumes "\<forall>v \<in> set arr. is_fin v \<and> 0 \<le> fval v" and "0 < fval (arr_max arr)"
  shows "\<forall>w \<in> set (normalize arr). is_fin w \<and> 0 \<le> fval w \<and> fval w \<le> 1"
    and "FFin 1 \<in> set (normalize arr)"
proof -
  note mx = arr_max_props[of arr]
  show "\<forall>w \<in> set (normalize arr). is_fin w \<and> 0 \<le> fval w \<and> fval w \<le> 1"
    using assms mx fdiv_unit unfolding normalize_def by auto
  have "arr_max arr \<in> set arr" using mx assms by force
  moreover have "fdiv F32 (arr_max arr) (arr_max arr) = FFin 1"
    using mx assms by (intro fdiv_self) auto
  ultimately show "FFin 1 \<in> set (normalize arr)" unfolding normalize_def by force
qed

section \<open>softmax\<close>

text \<open>
  What the step relies on of \<open>math.Exp\<close>: on a non-positive argument (minus infinity included) the
  result is a finite number between 0 and 1, and \<open>Exp(0)\<close> is 1.
\<close>

definition exp_ok :: "(fp \<Rightarrow> fp) \<Rightarrow> bool" where
  "exp_ok ex \<longleftrightarrow> (\<forall>x. fle x (FFin 0) \<longrightarrow> is_fin (ex x) \<and> 0 \<le> fval (ex x) \<and> fval (ex x) \<le> 1)
     \<and> (\<forall>x. feq x (FFin 0) \<longrightarrow> ex x = FFin 1)"

lemma fround_nonpos: "r \<le> 0 \<Longrightarrow> fle (fround fm (r < 0) r) (FFin 0)"
proof -
  assume r: "r \<le> 0"
  then have "rnd fm r \<le> 0" by (intro rnd_le_representable) simp_all
  then show ?thesis using r
    by (cases "r = 0") (auto simp: fround_def fle_def Let_def abs_le_iff)
qed

lemma fcvt_nonpos: "fle x (FFin 0) \<Longrightarrow> fle (fcvt fm x) (FFin 0)"
  by (cases x) (auto simp: fle_def intro!: fround_nonpos[unfolded fle_def])

lemma fsub_nonpos:
  assumes "is_fin v" "is_fin m" "fval v \<le> fval m"
  shows "fle (fsub fm v m) (FFin 0)"
proof -
  have n: "is_fin (fneg m)" "fval (fneg m) = - fval m" using assms(2) by (cases m; simp)+
  show ?thesis
  proof (cases "fval v + fval (fneg m) = 0")
    case True
    then show ?thesis using fadd_fin_zero[OF assms(1) n(1) True]
      by (auto simp: fsub_def fle_def feq_fin)
  next
    case False
    with assms n have "fsub fm v m = fround fm (fval v - fval m < 0) (fval v - fval m)"
      by (simp add: fsub_def fadd_fin)
    then show ?thesis using assms by (simp only: fround_nonpos diff_le_0_iff_le)
  qed
qed

lemma fcvt_unit:
  assumes "is_fin x" "0 \<le> fval x" "fval x \<le> 1"
  shows "is_fin (fcvt fm x) \<and> 0 \<le> fval (fcvt fm x) \<and> fval (fcvt fm x) \<le> 1"
  using assms by (cases x) (auto simp: fround_unit)

definition unit_val :: "fp \<Rightarrow> bool" where
  "unit_val e \<longleftrightarrow> fwf F32 e \<and> is_fin e \<and> 0 \<le> fval e \<and> fval e \<le> 1"

lemma softmax_exps_unit:
  assumes "exp_ok ex" "\<forall>v \<in> set arr. is_fin v"
  shows "\<forall>e \<in> set (softmax_exps ex arr). unit_val e"
proof
  fix e assume "e \<in> set (softmax_exps ex arr)"
  then obtain v where v: "v \<in> set arr"
    and e: "e = fcvt F32 (ex (fcvt F64 (fsub F32 v (arr_max arr))))"
    by (auto simp: softmax_exps_def)
  have "fle (fcvt F64 (fsub F32 v (arr_max arr))) (FFin 0)"
    using v assms(2) arr_max_props[OF assms(2)] by (intro fcvt_nonpos fsub_nonpos) auto
  with assms(1) fcvt_unit[of "ex (fcvt F64 (fsub F32 v (arr_max arr)))" F32]
  show "unit_val e" by (auto simp: exp_ok_def unit_val_def e)
qed

text \<open>
  The running sum never overflows: above \<open>2^24\<close> adding at most 1 rounds back to \<open>2^24\<close>. It never
  goes below one of its summands either, since rounding is monotone.
\<close>

lemma rnd_2p24: "rnd F32 (2 ^ 24 + 1) = 2 ^ 24"
  by code_simp

lemma fsum_fold:
  assumes "\<forall>e \<in> set es. unit_val e" "fwf F32 s" "is_fin s" "0 \<le> fval s" "fval s \<le> 2 ^ 24"
  defines "t \<equiv> foldl (fadd F32) s es"
  shows "fwf F32 t \<and> is_fin t \<and> fval s \<le> fval t \<and> fval t \<le> 2 ^ 24 \<and> (\<forall>e \<in> set es. fval e \<le> fval t)"
  unfolding t_def using assms(1-5)
proof (induction es arbitrary: s)
  case (Cons e es)
  have u: "unit_val e" using Cons.prems by simp
  let ?s = "fadd F32 s e"
  have rep: "representable F32 (2 ^ 25)" unfolding representable_def
    by (intro exI[of _ 1] exI[of _ 25]) (simp add: pow2_def power_int_def)
  have big: "\<bar>2 ^ 25 :: rat\<bar> < pow2 (ovf F32)"
    using pow2_less_iff[of 25 128] by (simp add: pow2_def power_int_def)
  have sum: "fval s + fval e \<le> 2 ^ 25" "fval s + fval e \<le> 2 ^ 24 + 1"
    using u Cons.prems by (auto simp: unit_val_def)
  have "rnd F32 (fval s + fval e) \<le> 2 ^ 24"
    using rnd_mono[OF sum(2), of F32] rnd_2p24 by simp
  with fadd_nonneg[of F32 s e "2 ^ 25"] rep big sum u Cons.prems
  have s: "fwf F32 ?s" "is_fin ?s" "fval s \<le> fval ?s" "fval e \<le> fval ?s" "fval ?s \<le> 2 ^ 24"
    by (auto simp: unit_val_def)
  moreover have "0 \<le> fval ?s" using s Cons.prems by linarith
  ultimately show ?case using Cons.IH[of ?s] Cons.prems by fastforce
qed simp

lemma fsum_props:
  assumes "\<forall>e \<in> set es. unit_val e"
  shows "is_fin (fsum es)" "0 \<le> fval (fsum es)" "fval (fsum es) \<le> 2 ^ 24"
    "\<And>e. e \<in> set es \<Longrightarrow> fval e \<le> fval (fsum es)"
  using fsum_fold[of es "FFin 0"] assms unfolding fsum_def by auto

lemma softmax_exps_top:
  assumes "exp_ok ex" "\<forall>v \<in> set arr. is_fin v" "v \<in> set arr" "0 \<le> fval v"
  shows "FFin 1 \<in> set (softmax_exps ex arr)"
proof -
  note mx = arr_max_props[OF assms(2)]
  obtain w where w: "w \<in> set arr" "fval w = fval (arr_max arr)"
    using mx(2-4) assms(3,4) by (metis fval.simps(1) order_antisym)
  have fin: "is_fin w" "is_fin (fneg (arr_max arr))" using assms(2) w mx(1) by (auto, cases "arr_max arr", auto)
  have "fval w + fval (fneg (arr_max arr)) = 0" using w mx(1) by (cases "arr_max arr") auto
  then have "is_fin (fsub F32 w (arr_max arr)) \<and> fval (fsub F32 w (arr_max arr)) = 0"
    unfolding fsub_def using fin by (intro fadd_fin_zero) auto
  then have "feq (fcvt F64 (fsub F32 w (arr_max arr))) (FFin 0)"
    by (cases "fsub F32 w (arr_max arr)") (auto simp: fround_def)
  then have "fcvt F32 (ex (fcvt F64 (fsub F32 w (arr_max arr)))) = FFin 1"
    using assms(1) by (simp add: exp_ok_def)
  then show ?thesis using w(1) unfolding softmax_exps_def by force
qed

lemma softmax_range:
  assumes "exp_ok ex" "\<forall>v \<in> set arr. is_fin v" "v \<in> set arr" "0 \<le> fval v"
  shows "\<forall>w \<in> set (softmax ex arr). is_fin w \<and> 0 \<le> fval w \<and> fval w \<le> 1"
proof -
  let ?es = "softmax_exps ex arr"
  note u = softmax_exps_unit[OF assms(1,2)]
  note sm = fsum_props[OF u]
  have "1 \<le> fval (fsum ?es)" using sm(4)[OF softmax_exps_top[OF assms]] by simp
  then show ?thesis using u sm fdiv_unit unfolding softmax_def Let_def
    by (auto simp: unit_val_def)
qed

section \<open>Runs\<close>

lemma val_ty_cases:
  "val_ty v = Some TF32s \<longleftrightarrow> (\<exists>xs. v = GF32s xs)"
  "val_ty v = Some TInts \<longleftrightarrow> (\<exists>xs. v = GInts xs)"
  "val_ty v = Some TStrings \<longleftrightarrow> (\<exists>xs. v = GStrings xs)"
  by (cases v; simp)+

lemma length_normalize [simp]: "length (normalize arr) = length arr"
  by (simp add: normalize_def)

lemma length_softmax [simp]: "length (softmax ex arr) = length arr"
  by (simp add: softmax_def softmax_exps_def Let_def)

lemma length_apply_threshold [simp]: "length (apply_threshold t arr) = length arr"
  by (simp add: apply_threshold_def)

lemma length_map_to_labels [simp]: "length (map_to_labels ls arr) = length arr"
  by (simp add: map_to_labels_def)

lemma has_labelsE: "has_labels st \<Longrightarrow> \<exists>ls. kv_get (params st) ''labels'' = Some (GSlice ls)"
  by (cases "kv_get (params st) ''labels''"; cases "the (kv_get (params st) ''labels'')")
    (simp_all add: has_labels_def)

lemma run_step_no_labels:
  "step_type st = ''map_to_labels'' \<Longrightarrow> \<not> has_labels st \<Longrightarrow> \<exists>e. run_step ex st (GInts arr) = Fail e"
  by (cases "kv_get (params st) ''labels''"; cases "the (kv_get (params st) ''labels'')")
    (simp_all add: has_labels_def run_step_def)

text \<open>A typed step succeeds, with a value of its type and the same length, or stops the run.\<close>

lemma run_step_typed:
  assumes "step_ty st t = Some u" "val_ty d = Some t"
  shows "(\<exists>d'. (run_step ex st d = InPlace d' \<or> run_step ex st d = Fresh d') \<and>
            val_ty d' = Some u \<and> val_len d' = val_len d) \<or>
         (run_step ex st d = Stop d \<and> no_positive d)"
proof (cases t)
  case TF32s
  then obtain arr where "d = GF32s arr" using assms(2) by (auto simp: val_ty_cases)
  then show ?thesis using assms TF32s
    by (auto simp: step_ty_def run_step_def no_positive_def split: if_splits)
next
  case TInts
  then obtain arr where d: "d = GInts arr" using assms(2) by (auto simp: val_ty_cases)
  have st: "step_type st = ''map_to_labels''" "has_labels st" "u = TStrings"
    using assms(1) TInts by (auto simp: step_ty_def split: if_splits)
  then show ?thesis using has_labelsE[of st] d by (auto simp: run_step_def)
next
  case TStrings
  then show ?thesis using assms(1) by (simp add: step_ty_def split: if_splits)
qed

lemma run_steps_typed:
  assumes "steps_ty sts t = Some u" "val_ty d = Some t"
  shows "\<exists>v. fst (run_steps ex sts al inp d) = Inr v \<and> val_len v = val_len d \<and>
           (val_ty v = Some u \<or> no_positive v)"
  using assms
proof (induction sts arbitrary: t d al inp)
  case (Cons st sts)
  then obtain t' where t': "step_ty st t = Some t'" "steps_ty sts t' = Some u"
    by (auto split: option.splits)
  from run_step_typed[OF t'(1) Cons.prems(2), of ex] show ?case
  proof
    assume "\<exists>d'. (run_step ex st d = InPlace d' \<or> run_step ex st d = Fresh d') \<and>
            val_ty d' = Some t' \<and> val_len d' = val_len d"
    then obtain d' where d': "run_step ex st d = InPlace d' \<or> run_step ex st d = Fresh d'"
      "val_ty d' = Some t'" "val_len d' = val_len d" by blast
    note IH = Cons.IH[OF t'(2) d'(2)]
    from d'(1) show ?thesis using IH d'(3) by (elim disjE) simp_all
  qed auto
qed simp

text \<open>A step that is not typed fails or stops the run.\<close>

lemma run_step_untyped:
  assumes "step_ty st t = None" "val_ty d = Some t"
  shows "\<exists>e. run_step ex st d = Fail e"
proof (cases t)
  case TF32s
  then obtain arr where "d = GF32s arr" using assms(2) by (auto simp: val_ty_cases)
  then show ?thesis using assms TF32s by (auto simp: step_ty_def run_step_def split: if_splits)
next
  case TInts
  then obtain arr where "d = GInts arr" using assms(2) by (auto simp: val_ty_cases)
  then show ?thesis using assms TInts run_step_no_labels[of st ex arr]
    by (auto simp: step_ty_def run_step_def split: if_splits)
next
  case TStrings
  then obtain arr where "d = GStrings arr" using assms(2) by (auto simp: val_ty_cases)
  then show ?thesis by (auto simp: run_step_def)
qed

lemma run_steps_untyped:
  assumes "steps_ty sts t = None" "val_ty d = Some t"
  shows "(\<exists>e. fst (run_steps ex sts al inp d) = Inl e) \<or>
         (\<exists>v. fst (run_steps ex sts al inp d) = Inr v \<and> no_positive v)"
  using assms
proof (induction sts arbitrary: t d al inp)
  case (Cons st sts)
  show ?case
  proof (cases "step_ty st t")
    case None
    with run_step_untyped[OF None Cons.prems(2), of ex] show ?thesis by auto
  next
    case (Some t')
    from run_step_typed[OF Some Cons.prems(2), of ex] show ?thesis
    proof
      assume "\<exists>d'. (run_step ex st d = InPlace d' \<or> run_step ex st d = Fresh d') \<and>
            val_ty d' = Some t' \<and> val_len d' = val_len d"
      then obtain d' where d': "run_step ex st d = InPlace d' \<or> run_step ex st d = Fresh d'"
        "val_ty d' = Some t'" by blast
      have "steps_ty sts t' = None" using Cons.prems Some by simp
      note IH = Cons.IH[OF this d'(2)]
      from d'(1) show ?thesis using IH by (elim disjE) simp_all
    qed auto
  qed
qed simp

text \<open>Anything but a slice of the three pipeline types is refused by the first step.\<close>

lemma run_steps_no_type:
  assumes "val_ty d = None" "sts \<noteq> []"
  shows "\<exists>e. fst (run_steps ex sts al inp d) = Inl e"
proof -
  obtain st sts' where "sts = st # sts'" using assms(2) by (cases sts) auto
  moreover have "\<exists>e. run_step ex st d = Fail e"
    using assms(1) by (cases d) (auto simp: run_step_def)
  ultimately show ?thesis by auto
qed

text \<open>The caller's slice changes only through \<open>normalize\<close> steps at the front.\<close>

lemma run_steps_unaliased: "snd (run_steps ex sts False inp d) = inp"
  by (induction sts arbitrary: d) (auto split: step_result.splits)

lemma run_step_InPlace_normalize: "run_step ex st d = InPlace d' \<Longrightarrow> step_type st = ''normalize''"
  by (auto simp: run_step_def split: if_splits goval.splits option.splits)

lemma run_steps_caller:
  assumes "sts = [] \<or> step_type (hd sts) \<noteq> ''normalize''"
  shows "snd (run_steps ex sts al inp d) = inp"
proof (cases sts)
  case (Cons st sts')
  then show ?thesis using assms run_steps_unaliased run_step_InPlace_normalize
    by (fastforce split: step_result.splits)
qed simp

section \<open>Properties\<close>

text \<open>C14: A configuration that type checks never makes \<open>Run\<close> fail: on an input of the pipeline's
  input type it returns a value with as many elements as the input, of the declared result type,
  unless \<open>normalize\<close> met a slice without a positive element, which is then the result.\<close>

theorem Run_type_sound:
  assumes "steps_ty (steps p) t = Some u" and "val_ty input = Some t"
  shows "\<exists>v. Run ex p input = Inr v \<and> val_len v = val_len input \<and>
           (val_ty v = Some u \<or> no_positive v)"
  using run_steps_typed[OF assms] by (simp add: Run_def Run_effect_def)

definition demo_pipeline :: pipeline where
  "demo_pipeline = \<lparr>steps = [
     \<lparr>step_type = ''normalize'', params = []\<rparr>,
     \<lparr>step_type = ''apply_threshold'', params = [(''threshold'', GF64 (FFin (3 / 4)))]\<rparr>,
     \<lparr>step_type = ''map_to_labels'', params = [(''labels'', GSlice [GString ''cat'', GString ''dog''])]\<rparr>]\<rparr>"

theorem Run_type_sound_witness:
  "steps_ty (steps demo_pipeline) TF32s = Some TStrings \<and>
   (\<exists>v. Run (\<lambda>x. x) demo_pipeline (GF32s [FFin 1, FFin 2]) = Inr v \<and> val_len v = 2 \<and>
      (val_ty v = Some TStrings \<or> no_positive v))"
proof -
  have t: "steps_ty (steps demo_pipeline) TF32s = Some TStrings"
    by (simp add: demo_pipeline_def step_ty_def has_labels_def)
  show ?thesis using t Run_type_sound[OF t, of "GF32s [FFin 1, FFin 2]" "\<lambda>x. x"]
    by (simp add: numeral_2_eq_2)
qed

text \<open>C26: \<open>normalize\<close> maps finite non-negative data with a positive maximum into the unit interval,
  and the maximum exactly to 1, in \<open>float32\<close> arithmetic.\<close>

theorem normalize_unit_interval:
  assumes "\<forall>v \<in> set arr. is_fin v \<and> 0 \<le> fval v" and "\<exists>v \<in> set arr. 0 < fval v"
  shows "run_step ex \<lparr>step_type = ''normalize'', params = ps\<rparr> (GF32s arr) = InPlace (GF32s (normalize arr))
    \<and> (\<forall>w \<in> set (normalize arr). is_fin w \<and> 0 \<le> fval w \<and> fval w \<le> 1)
    \<and> FFin 1 \<in> set (normalize arr)"
proof -
  have f: "\<forall>v \<in> set arr. is_fin v" using assms by auto
  have pos: "0 < fval (arr_max arr)" using assms(2) arr_max_upper[OF f] by fastforce
  then have "\<not> feq (arr_max arr) (FFin 0)" using arr_max_fin[OF f] by (simp add: feq_fin)
  then show ?thesis using normalize_range[OF assms(1) pos] by (simp add: run_step_def)
qed

theorem normalize_unit_interval_witness:
  "run_step (\<lambda>x. x) \<lparr>step_type = ''normalize'', params = []\<rparr> (GF32s [FFin 1, FFin 2])
     = InPlace (GF32s (normalize [FFin 1, FFin 2]))
   \<and> FFin 1 \<in> set (normalize [FFin 1, FFin 2])"
  using normalize_unit_interval[of "[FFin 1, FFin 2]" "\<lambda>x. x" "[]"] by simp

text \<open>C27: \<open>softmax\<close> yields finite numbers of the unit interval for every finite input that has a
  non-negative element; the running sum neither overflows nor drops below a summand.\<close>

theorem softmax_unit_interval:
  assumes "exp_ok ex" and "\<forall>v \<in> set arr. is_fin v" and "\<exists>v \<in> set arr. 0 \<le> fval v"
  shows "length (softmax ex arr) = length arr
    \<and> (\<forall>w \<in> set (softmax ex arr). is_fin w \<and> 0 \<le> fval w \<and> fval w \<le> 1)
    \<and> 1 \<le> fval (fsum (softmax_exps ex arr)) \<and> fval (fsum (softmax_exps ex arr)) \<le> 2 ^ 24"
proof -
  from assms(3) obtain v where v: "v \<in> set arr" "0 \<le> fval v" by blast
  note sm = fsum_props[OF softmax_exps_unit[OF assms(1,2)]]
  have "1 \<le> fval (fsum (softmax_exps ex arr))"
    using sm(4)[OF softmax_exps_top[OF assms(1,2) v]] by simp
  then show ?thesis using softmax_range[OF assms(1,2) v] sm(3) by simp
qed

definition demo_exp :: "fp \<Rightarrow> fp" where
  "demo_exp x = (if feq x (FFin 0) then FFin 1 else FFin (1 / 2))"

lemma demo_exp_ok: "exp_ok demo_exp"
  by (simp add: exp_ok_def demo_exp_def)

theorem softmax_unit_interval_witness:
  "exp_ok demo_exp \<and> length (softmax demo_exp [FFin 1, FFin (- 1)]) = 2 \<and>
   1 \<le> fval (fsum (softmax_exps demo_exp [FFin 1, FFin (- 1)]))"
  using softmax_unit_interval[OF demo_exp_ok, of "[FFin 1, FFin (- 1)]"] demo_exp_ok by simp

text \<open>The running maximum of \<open>softmax\<close> starts at 0, so on data whose exponentials all
  underflow in \<open>float32\<close> (large negative logits) the sum is 0 and every output is a NaN.\<close>

theorem softmax_underflow_NaN:
  assumes "\<forall>v \<in> set arr. is_fin v \<and> fval v < 0"
    and "\<forall>v \<in> set arr. fcvt F32 (ex (fcvt F64 (fsub F32 v (FFin 0)))) = FFin 0"
  shows "softmax ex arr = map (\<lambda>_. FNaN) arr"
proof -
  have f: "\<forall>v \<in> set arr. is_fin v" using assms by auto
  have mx: "arr_max arr = FFin 0" using arr_max_mem[OF f] arr_max_nonneg[OF f] assms(1) by force
  have es: "softmax_exps ex arr = map (\<lambda>_. FFin 0) arr"
    using assms(2) by (simp add: softmax_exps_def mx)
  have "foldl (fadd F32) (FFin 0) (map (\<lambda>_. FFin 0) xs) = FFin 0" for xs :: "fp list"
    by (induction xs) simp_all
  then show ?thesis by (simp add: softmax_def es fsum_def comp_def)
qed

theorem softmax_underflow_NaN_witness:
  "softmax (\<lambda>x. FFin 0) [FFin (- 200), FFin (- 300)] = [FNaN, FNaN]"
  using softmax_underflow_NaN[of "[FFin (- 200), FFin (- 300)]" "\<lambda>x. FFin 0"]
  by (simp add: fround_def)

text \<open>When \<open>normalize\<close> meets a slice without a positive element it returns from \<open>Run\<close> itself:
  the rest of the pipeline is skipped, whatever it is.\<close>

theorem normalize_skips_rest:
  assumes "\<forall>v \<in> set arr. is_fin v \<and> fval v \<le> 0"
  shows "Run ex \<lparr>steps = \<lparr>step_type = ''normalize'', params = ps\<rparr> # rest\<rparr> (GF32s arr) = Inr (GF32s arr)"
proof -
  have f: "\<forall>v \<in> set arr. is_fin v" using assms by auto
  have "fval (arr_max arr) = 0"
    using arr_max_mem[OF f] arr_max_nonneg[OF f] assms by fastforce
  then have "feq (arr_max arr) (FFin 0)" using arr_max_fin[OF f] by (simp add: feq_fin)
  then show ?thesis by (simp add: Run_def Run_effect_def run_step_def)
qed

theorem normalize_skips_rest_witness:
  "Run (\<lambda>x. x) \<lparr>steps = [\<lparr>step_type = ''normalize'', params = []\<rparr>,
       \<lparr>step_type = ''apply_threshold'', params = []\<rparr>]\<rparr> (GF32s [FFin 0, FFin (- 1)])
     = Inr (GF32s [FFin 0, FFin (- 1)])"
  using normalize_skips_rest[of "[FFin 0, FFin (- 1)]" "\<lambda>x. x" "[]"] by simp

end
