(* ===== verification/Persistent_Queue.thy ===== *)
theory Persistent_Queue
  imports Go_Values "HOL-Library.List_Lexorder"
begin

text \<open>
  The durable queue (\<open>src/internal/persistence/queue.go\<close>): FIFO order comes from a 64-bit sequence
  number written big-endian as the key of a BadgerDB store. The store is not part of the
  repository: its operations are the record \<open>badger\<close>, an argument of every operation here, and
  what the queue relies on (byte-wise key order of the iterator, read-your-writes) is the locale
  \<open>badger_store\<close>. The queue is shown to implement the interface \<open>fifo_queue\<close>.
\<close>

abbreviation ascending :: "'a::linorder list \<Rightarrow> bool" where
  "ascending xs \<equiv> sorted_wrt (<) xs"

section \<open>The store\<close>

text \<open>
  \<open>bset\<close> and \<open>bdel\<close> are a committed \<open>Update\<close> with one \<open>Set\<close> or \<open>Delete\<close>, \<open>bview\<close> what an iterator
  visits from \<open>Rewind\<close> on, \<open>bvalue\<close> is \<open>Item.ValueCopy\<close>.
\<close>

record 'db badger =
  bopen :: "string \<Rightarrow> 'db res"
  bset :: "'db \<Rightarrow> bytes \<Rightarrow> json \<Rightarrow> 'db res"
  bdel :: "'db \<Rightarrow> bytes \<Rightarrow> 'db res"
  bview :: "'db \<Rightarrow> (bytes \<times> json) list res"
  bvalue :: "'db \<Rightarrow> bytes \<Rightarrow> json res"
  bclose :: "'db \<Rightarrow> unit res"

section \<open>The queue\<close>

record 'db pqueue =
  db :: 'db
  seq :: "64 word"

definition NewPersistentQueue :: "'db badger \<Rightarrow> string \<Rightarrow> 'db pqueue res" where
  "NewPersistentQueue ops path = (case bopen ops path of
       Inl e \<Rightarrow> Inl e
     | Inr d \<Rightarrow> Inr \<lparr>db = d, seq = 0\<rparr>)"

text \<open>\<open>key[7-i] = byte(q.seq >> (i * 8))\<close>\<close>

definition seq_key :: "64 word \<Rightarrow> bytes" where
  "seq_key s = map (\<lambda>j. ucast (drop_bit (8 * (7 - j)) s)) [0..<8]"

text \<open>The sequence number advances before the item is encoded, also when that fails.\<close>

definition Enqueue :: "'db badger \<Rightarrow> ('i \<Rightarrow> json res) \<Rightarrow> 'i \<Rightarrow> 'db pqueue \<Rightarrow> gerr option \<times> 'db pqueue" where
  "Enqueue ops enc item q =
     (let q1 = q\<lparr>seq := seq q + 1\<rparr>; key = seq_key (seq q1) in
      case enc item of
        Inl e \<Rightarrow> (Some e, q1)
      | Inr val \<Rightarrow> (case bset ops (db q1) key val of
            Inl e \<Rightarrow> (Some e, q1)
          | Inr d \<Rightarrow> (None, q1\<lparr>db := d\<rparr>)))"

text \<open>The first item of the iterator is deleted before its value is decoded.\<close>

definition Dequeue :: "'db badger \<Rightarrow> (json \<Rightarrow> 'o res) \<Rightarrow> 'db pqueue \<Rightarrow> 'o res \<times> 'db pqueue" where
  "Dequeue ops dec q = (case bview ops (db q) of
       Inl e \<Rightarrow> (Inl e, q)
     | Inr [] \<Rightarrow> (Inl ErrKeyNotFound, q)
     | Inr ((k, _) # _) \<Rightarrow> (case bvalue ops (db q) k of
           Inl e \<Rightarrow> (Inl e, q)
         | Inr v \<Rightarrow> (case bdel ops (db q) k of
               Inl e \<Rightarrow> (Inl e, q)
             | Inr d \<Rightarrow> (dec v, q\<lparr>db := d\<rparr>))))"

definition Len :: "'db badger \<Rightarrow> 'db pqueue \<Rightarrow> int \<times> gerr option" where
  "Len ops q = (case bview ops (db q) of
       Inl e \<Rightarrow> (- 1, Some e)
     | Inr its \<Rightarrow> (int (length its), None))"

definition Close :: "'db badger \<Rightarrow> 'db pqueue \<Rightarrow> unit res" where
  "Close ops q = bclose ops (db q)"

section \<open>Big-endian keys\<close>

text \<open>On keys of one length the byte-wise order is the order of the numbers.\<close>

lemma lex_be_val:
  "length xs = length ys \<Longrightarrow> (xs < ys) = (be_val xs < be_val ys)" for xs ys :: bytes
proof (induction xs ys rule: list_induct2)
  case (Cons x xs y ys)
  have b: "be_val xs < 256 ^ length ys" "be_val ys < 256 ^ length ys"
    using be_val_bound[of xs] be_val_bound[of ys] Cons.hyps by auto
  consider "x < y" | "x = y" | "y < x" by fastforce
  then show ?case
  proof cases
    case 1
    then have "Suc (unat x) \<le> unat y" by (simp add: word_less_nat_alt)
    then have "Suc (unat x) * 256 ^ length ys \<le> unat y * 256 ^ length ys" by (rule mult_le_mono1)
    with b 1 Cons.hyps show ?thesis by simp
  next
    case 2
    with Cons show ?thesis by simp
  next
    case 3
    then have "Suc (unat y) \<le> unat x" by (simp add: word_less_nat_alt)
    then have "Suc (unat y) * 256 ^ length ys \<le> unat x * 256 ^ length ys" by (rule mult_le_mono1)
    with b 3 Cons.hyps show ?thesis by auto
  qed
qed simp

lemma length_seq_key [simp]: "length (seq_key s) = 8"
  by (simp add: seq_key_def)

lemma unat_byte: "unat (ucast (drop_bit n s) :: 8 word) = unat s div 2 ^ n mod 256" for s :: "64 word"
  by (simp add: unsigned_ucast_eq unat_drop_bit_eq) (simp add: take_bit_eq_mod drop_bit_eq_div)

lemma nat_div_bytes: "n div 2 ^ (8 * Suc k) = n div 2 ^ (8 * k) div 256" for n :: nat
proof -
  have "(2::nat) ^ (8 * Suc k) = 2 ^ (8 * k) * 256" by (simp add: power_add)
  then show ?thesis by (simp only: div_mult2_eq)
qed

lemma be_val_seq_key [simp]: "be_val (seq_key s) = unat s"
proof -
  define d where "d k = unat s div 2 ^ (8 * k)" for k
  define b where "b k = d k mod 256" for k
  have step: "d k = 256 * d j + b k" if "j = Suc k" for j k
    unfolding b_def unfolding d_def that nat_div_bytes by (simp add: mult.commute)
  have byte: "unat (ucast (drop_bit (8 * k) s) :: 8 word) = b k" for k
    by (simp add: unat_byte d_def b_def)
  have "unat s < 2 ^ 64" using unsigned_less[of s, where ?'a = nat] by simp
  then have d8: "d 8 = 0" by (simp add: d_def)
  have d0: "d 0 = unat s" by (simp add: d_def)
  have l: "[0..<8] = [0, 1, 2, 3, 4, 5, 6, 7 :: nat]" by (simp add: upt_rec)
  have "be_val (seq_key s) =
      (((((((b 7 * 256 + b 6) * 256 + b 5) * 256 + b 4) * 256 + b 3) * 256 + b 2) * 256) + b 1) * 256 + b 0"
    unfolding seq_key_def be_val_def l
    using byte[of 0] byte[of 1] byte[of 2] byte[of 3] byte[of 4] byte[of 5] byte[of 6] byte[of 7] by simp
  also have "\<dots> = d 0"
  proof -
    have e: "d 0 = 256 * d 1 + b 0" "d 1 = 256 * d 2 + b 1" "d 2 = 256 * d 3 + b 2" "d 3 = 256 * d 4 + b 3"
      "d 4 = 256 * d 5 + b 4" "d 5 = 256 * d 6 + b 5" "d 6 = 256 * d 7 + b 6" "d 7 = 256 * d 8 + b 7"
      by (rule step, simp)+
    show ?thesis unfolding e(1) unfolding e(2) unfolding e(3) unfolding e(4) unfolding e(5)
      unfolding e(6) unfolding e(7) unfolding e(8) by (simp add: d8)
  qed
  finally show ?thesis by (simp add: d0)
qed

lemma seq_key_less_iff [simp]: "seq_key a < seq_key b \<longleftrightarrow> a < b"
  by (simp add: lex_be_val word_less_nat_alt)

lemma seq_key_inject [simp]: "seq_key a = seq_key b \<longleftrightarrow> a = b"
  by (metis be_val_seq_key word_unat_eq_iff)

section \<open>Ordered stores\<close>

text \<open>Strictly sorted association lists with the same lookups are equal.\<close>

lemma sorted_alist_unique:
  fixes xs ys :: "('k::linorder \<times> 'v) list"
  assumes "ascending (map fst xs)" "ascending (map fst ys)" "map_of xs = map_of ys"
  shows "xs = ys"
proof -
  have d: "distinct (map fst xs)" "distinct (map fst ys)" "sorted (map fst xs)" "sorted (map fst ys)"
    using assms strict_sorted_iff by auto
  have mem: "(k, v) \<in> set zs \<longleftrightarrow> map_of zs k = Some v" if "distinct (map fst zs)" for zs :: "('k \<times> 'v) list" and k v
    using that by (simp add: map_of_eq_Some_iff)
  have st: "set xs = set ys" using mem[OF d(1)] mem[OF d(2)] assms(3) by auto
  moreover have "inj_on fst (set xs \<union> set ys)" using d st by (simp add: distinct_map)
  ultimately show ?thesis using d by (intro map_sorted_distinct_set_unique[of fst]) auto
qed

lemma sorted_alist_snoc:
  fixes its its' :: "('k::linorder \<times> 'v) list"
  assumes "ascending (map fst its)" "ascending (map fst its')"
    and "map_of its' = (map_of its)(k \<mapsto> v)" and "\<forall>k' \<in> fst ` set its. k' < k"
  shows "its' = its @ [(k, v)]"
proof (rule sorted_alist_unique[OF assms(2)])
  show "ascending (map fst (its @ [(k, v)]))"
    using assms(1,4) by (simp add: sorted_wrt_append)
  have "map_of its k = None" using assms(4) by (auto simp: map_of_eq_None_iff)
  then show "map_of its' = map_of (its @ [(k, v)])"
    using assms(3) by (auto simp: map_add_def fun_eq_iff split: option.splits)
qed

lemma sorted_alist_overwrite_hd:
  fixes its its' :: "('k::linorder \<times> 'v) list"
  assumes "ascending (map fst ((k, w) # its))" "ascending (map fst its')"
    and "map_of its' = (map_of ((k, w) # its))(k \<mapsto> v)"
  shows "its' = (k, v) # its"
  using assms by (intro sorted_alist_unique[OF assms(2)]) auto

lemma sorted_alist_tl:
  fixes its its' :: "('k::linorder \<times> 'v) list"
  assumes "ascending (map fst ((k, w) # its))" "ascending (map fst its')"
    and "map_of its' = (map_of ((k, w) # its))(k := None)"
  shows "its' = its"
proof (rule sorted_alist_unique[OF assms(2)])
  have "map_of its k = None" using assms(1) by (auto simp: map_of_eq_None_iff)
  then show "map_of its' = map_of its" using assms(3) by (auto simp: fun_eq_iff)
qed (use assms(1) in auto)

text \<open>
  What the queue relies on of BadgerDB, for a store in working order (\<open>ok\<close>): an iterator visits
  the pairs in increasing key order, an update or a deletion is seen by later reads.
\<close>

locale badger_store =
  fixes ops :: "'db badger" and ok :: "'db \<Rightarrow> bool"
  assumes view_ok: "ok d \<Longrightarrow> \<exists>its. bview ops d = Inr its \<and> ascending (map fst its)"
    and set_ok: "ok d \<Longrightarrow> bview ops d = Inr its \<Longrightarrow>
      \<exists>d' its'. bset ops d k v = Inr d' \<and> ok d' \<and> bview ops d' = Inr its' \<and> map_of its' = (map_of its)(k \<mapsto> v)"
    and del_ok: "ok d \<Longrightarrow> bview ops d = Inr its \<Longrightarrow>
      \<exists>d' its'. bdel ops d k = Inr d' \<and> ok d' \<and> bview ops d' = Inr its' \<and> map_of its' = (map_of its)(k := None)"
    and value_ok: "ok d \<Longrightarrow> bview ops d = Inr its \<Longrightarrow> map_of its k = Some v \<Longrightarrow> bvalue ops d k = Inr v"

section \<open>The FIFO interface\<close>

text \<open>
  What a client of a durable queue may rely on: \<open>content\<close> is the list of encoded items in the order
  in which they will come out, \<open>room q n\<close> that \<open>n\<close> more items can be numbered.
\<close>

locale fifo_queue =
  fixes enq :: "'i \<Rightarrow> 'q \<Rightarrow> gerr option \<times> 'q"
    and deq :: "'q \<Rightarrow> 'o res \<times> 'q"
    and enc :: "'i \<Rightarrow> json res" and dec :: "json \<Rightarrow> 'o res"
    and content :: "'q \<Rightarrow> json list" and inv :: "'q \<Rightarrow> bool" and room :: "'q \<Rightarrow> nat \<Rightarrow> bool"
  assumes enq_law: "inv q \<Longrightarrow> room q (Suc n) \<Longrightarrow> enc i = Inr j \<Longrightarrow>
      \<exists>q'. enq i q = (None, q') \<and> inv q' \<and> room q' n \<and> content q' = content q @ [j]"
    and deq_empty: "inv q \<Longrightarrow> content q = [] \<Longrightarrow> deq q = (Inl ErrKeyNotFound, q)"
    and deq_law: "inv q \<Longrightarrow> room q n \<Longrightarrow> content q = j # js \<Longrightarrow>
      \<exists>q'. deq q = (dec j, q') \<and> inv q' \<and> room q' n \<and> content q' = js"

text \<open>Sequences of operations, on the implementation and on the reference list.\<close>

datatype 'i qop = OpEnq 'i | OpDeq

fun enqs :: "'i qop list \<Rightarrow> nat" where
  "enqs [] = 0"
| "enqs (OpEnq i # os) = Suc (enqs os)"
| "enqs (OpDeq # os) = enqs os"

fun run_ops :: "('i \<Rightarrow> 'q \<Rightarrow> gerr option \<times> 'q) \<Rightarrow> ('q \<Rightarrow> 'o res \<times> 'q) \<Rightarrow> 'i qop list \<Rightarrow> 'q \<Rightarrow> 'o res list \<times> 'q" where
  "run_ops enq deq [] q = ([], q)"
| "run_ops enq deq (OpEnq i # os) q = run_ops enq deq os (snd (enq i q))"
| "run_ops enq deq (OpDeq # os) q =
     (let (r, q1) = deq q; (rs, q2) = run_ops enq deq os q1 in (r # rs, q2))"

fun spec_ops :: "('i \<Rightarrow> json res) \<Rightarrow> (json \<Rightarrow> 'o res) \<Rightarrow> 'i qop list \<Rightarrow> json list \<Rightarrow> 'o res list \<times> json list" where
  "spec_ops enc dec [] js = ([], js)"
| "spec_ops enc dec (OpEnq i # os) js =
     spec_ops enc dec os (case enc i of Inl e \<Rightarrow> js | Inr j \<Rightarrow> js @ [j])"
| "spec_ops enc dec (OpDeq # os) js = (case js of
       [] \<Rightarrow> (let (rs, ks) = spec_ops enc dec os [] in (Inl ErrKeyNotFound # rs, ks))
     | j # js' \<Rightarrow> (let (rs, ks) = spec_ops enc dec os js' in (dec j # rs, ks)))"

context fifo_queue
begin

lemma run_refines:
  assumes "inv q" "room q (enqs os)" "\<forall>i. OpEnq i \<in> set os \<longrightarrow> (\<exists>j. enc i = Inr j)"
  shows "\<exists>rs q'. run_ops enq deq os q = (rs, q') \<and> inv q' \<and> spec_ops enc dec os (content q) = (rs, content q')"
  using assms
proof (induction os arbitrary: q)
  case Nil
  then show ?case by simp
next
  case (Cons p os)
  show ?case
  proof (cases p)
    case (OpEnq i)
    then obtain j where j: "enc i = Inr j" using Cons.prems(3) by auto
    obtain q' where q': "enq i q = (None, q')" "inv q'" "room q' (enqs os)" "content q' = content q @ [j]"
      using enq_law[OF Cons.prems(1) _ j] Cons.prems(2) OpEnq by auto
    with Cons.IH[OF q'(2,3)] Cons.prems(3) OpEnq j show ?thesis by auto
  next
    case OpDeq
    show ?thesis
    proof (cases "content q")
      case Nil
      with Cons.IH[OF Cons.prems(1)] Cons.prems deq_empty[OF Cons.prems(1) Nil] OpDeq
      show ?thesis by auto
    next
      case (Cons j js)
      obtain q' where q': "deq q = (dec j, q')" "inv q'" "room q' (enqs os)" "content q' = js"
        using deq_law[OF Cons.prems(1) _ Cons] Cons.prems(2) OpDeq by auto
      with Cons.IH[OF q'(2,3)] Cons.prems(3) OpDeq Cons show ?thesis by auto
    qed
  qed
qed

end

section \<open>The queue implements the interface\<close>

definition items :: "'db badger \<Rightarrow> 'db pqueue \<Rightarrow> (bytes \<times> json) list" where
  "items ops q = (case bview ops (db q) of Inl e \<Rightarrow> [] | Inr its \<Rightarrow> its)"

definition content_of :: "'db badger \<Rightarrow> 'db pqueue \<Rightarrow> json list" where
  "content_of ops q = map snd (items ops q)"

text \<open>Every stored key is a sequence number that has been handed out.\<close>

definition queue_inv :: "'db badger \<Rightarrow> ('db \<Rightarrow> bool) \<Rightarrow> 'db pqueue \<Rightarrow> bool" where
  "queue_inv ops ok q \<longleftrightarrow> ok (db q) \<and> (\<forall>k \<in> fst ` set (items ops q). k \<le> seq_key (seq q))"

definition queue_room :: "'db pqueue \<Rightarrow> nat \<Rightarrow> bool" where
  "queue_room q n \<longleftrightarrow> unat (seq q) + n < 2 ^ 64"

context badger_store
begin

lemma items_view: "ok (db q) \<Longrightarrow> bview ops (db q) = Inr (items ops q) \<and> ascending (map fst (items ops q))"
  using view_ok[of "db q"] by (auto simp: items_def)

lemma seq_step: "queue_room q (Suc n) \<Longrightarrow> unat (seq q + 1) = Suc (unat (seq q)) \<and> seq q < seq q + 1"
proof -
  assume "queue_room q (Suc n)"
  then have "Suc (unat (seq q)) < 2 ^ 64" by (simp add: queue_room_def)
  then have "unat (seq q + 1) = Suc (unat (seq q))" by (simp add: unat_word_ariths)
  then show ?thesis by (simp add: word_less_nat_alt)
qed

lemma Enqueue_law:
  assumes "queue_inv ops ok q" "queue_room q (Suc n)" "enc i = Inr j"
  shows "\<exists>q'. Enqueue ops enc i q = (None, q') \<and> queue_inv ops ok q' \<and> queue_room q' n \<and>
           content_of ops q' = content_of ops q @ [j]"
proof -
  let ?k = "seq_key (seq q + 1)"
  have okq: "ok (db q)" using assms(1) by (simp add: queue_inv_def)
  note v = items_view[OF okq]
  note sq = seq_step[OF assms(2)]
  obtain d' its' where d': "bset ops (db q) ?k j = Inr d'" "ok d'" "bview ops d' = Inr its'"
    "map_of its' = (map_of (items ops q))(?k \<mapsto> j)"
    using set_ok[OF okq, of "items ops q" ?k j] v by auto
  define q' where "q' = q\<lparr>seq := seq q + 1, db := d'\<rparr>"
  have E: "Enqueue ops enc i q = (None, q')" using assms(3) d'(1) by (simp add: Enqueue_def q'_def)
  have it: "items ops q' = its'" using d'(3) by (simp add: items_def q'_def)
  have lt: "\<forall>k' \<in> fst ` set (items ops q). k' < ?k"
    using assms(1) sq seq_key_less_iff[of "seq q" "seq q + 1"]
    unfolding queue_inv_def by (meson order_le_less_trans)
  have "ascending (map fst its')" using items_view[of q'] d'(2) it by (simp add: q'_def)
  then have its: "its' = items ops q @ [(?k, j)]"
    using sorted_alist_snoc[OF conjunct2[OF v] _ d'(4) lt] by simp
  have "queue_inv ops ok q'" using d'(2) it its lt by (auto simp: queue_inv_def q'_def less_imp_le)
  moreover have "queue_room q' n" using assms(2) sq by (simp add: queue_room_def q'_def)
  ultimately show ?thesis using E it its by (auto simp: content_of_def)
qed

lemma Dequeue_empty:
  assumes "queue_inv ops ok q" "content_of ops q = []"
  shows "Dequeue ops dec q = (Inl ErrKeyNotFound, q)"
  using assms items_view[of q] by (simp add: queue_inv_def content_of_def Dequeue_def)

lemma Dequeue_law:
  assumes "queue_inv ops ok q" "queue_room q n" "content_of ops q = j # js"
  shows "\<exists>q'. Dequeue ops dec q = (dec j, q') \<and> queue_inv ops ok q' \<and> queue_room q' n \<and> content_of ops q' = js"
proof -
  have okq: "ok (db q)" using assms(1) by (simp add: queue_inv_def)
  note v = items_view[OF okq]
  obtain k its where it: "items ops q = (k, j) # its" "js = map snd its"
    using assms(3) by (auto simp: content_of_def)
  obtain d' its' where d': "bdel ops (db q) k = Inr d'" "ok d'" "bview ops d' = Inr its'"
    "map_of its' = (map_of (items ops q))(k := None)"
    using del_ok[OF okq, of "items ops q" k] v by auto
  have val: "bvalue ops (db q) k = Inr j" using value_ok[OF okq, of "items ops q" k j] v it by simp
  define q' where "q' = q\<lparr>db := d'\<rparr>"
  have D: "Dequeue ops dec q = (dec j, q')" using v it val d'(1) by (simp add: Dequeue_def q'_def)
  have it': "items ops q' = its'" using d'(3) by (simp add: items_def q'_def)
  have "ascending (map fst its')" using items_view[of q'] d'(2) it' by (simp add: q'_def)
  then have its: "its' = its" using sorted_alist_tl[of k j its its'] v it d'(4) by auto
  have "queue_inv ops ok q'" using assms(1) d'(2) it it' its by (auto simp: queue_inv_def q'_def)
  then show ?thesis using D it it' its assms(2) by (auto simp: content_of_def queue_room_def q'_def)
qed

lemma Len_law: "queue_inv ops ok q \<Longrightarrow> Len ops q = (int (length (content_of ops q)), None)"
  using items_view[of q] by (simp add: queue_inv_def Len_def content_of_def)

end

sublocale badger_store \<subseteq> fq: fifo_queue "Enqueue ops enc" "Dequeue ops dec" enc dec
    "content_of ops" "queue_inv ops ok" queue_room
  for enc dec
proof unfold_locales
  fix q n i j
  show "queue_inv ops ok q \<Longrightarrow> queue_room q (Suc n) \<Longrightarrow> enc i = Inr j \<Longrightarrow>
      \<exists>q'. Enqueue ops enc i q = (None, q') \<and> queue_inv ops ok q' \<and> queue_room q' n \<and>
        content_of ops q' = content_of ops q @ [j]"
    by (rule Enqueue_law)
qed (rule Dequeue_empty Dequeue_law; assumption)+

context badger_store
begin

lemma queue_run_refines:
  assumes "queue_inv ops ok q" "queue_room q (enqs os)" "\<forall>i. OpEnq i \<in> set os \<longrightarrow> (\<exists>j. enc i = Inr j)"
  shows "\<exists>rs q'. run_ops (Enqueue ops enc) (Dequeue ops dec) os q = (rs, q') \<and> queue_inv ops ok q' \<and>
    spec_ops enc dec os (content_of ops q) = (rs, content_of ops q')"
  using assms by (rule fq.run_refines)

end

section \<open>An in-memory store\<close>

text \<open>A concrete ordered store that satisfies the laws: a sorted association list.\<close>

fun mem_put :: "bytes \<Rightarrow> json \<Rightarrow> (bytes \<times> json) list \<Rightarrow> (bytes \<times> json) list" where
  "mem_put k v [] = [(k, v)]"
| "mem_put k v ((k', v') # m) =
     (if k < k' then (k, v) # (k', v') # m
      else if k = k' then (k, v) # m
      else (k', v') # mem_put k v m)"

definition mem_badger :: "((bytes \<times> json) list) badger" where
  "mem_badger = \<lparr>bopen = (\<lambda>path. Inr []),
     bset = (\<lambda>m k v. Inr (mem_put k v m)),
     bdel = (\<lambda>m k. Inr (adel k m)),
     bview = Inr,
     bvalue = (\<lambda>m k. case map_of m k of None \<Rightarrow> Inl ErrKeyNotFound | Some v \<Rightarrow> Inr v),
     bclose = (\<lambda>m. Inr ())\<rparr>"

lemma map_of_mem_put: "map_of (mem_put k v m) = (map_of m)(k \<mapsto> v)"
  by (induction k v m rule: mem_put.induct) auto

lemma set_mem_put: "fst ` set (mem_put k v m) = insert k (fst ` set m)"
  by (induction k v m rule: mem_put.induct) auto

lemma ascending_mem_put: "ascending (map fst m) \<Longrightarrow> ascending (map fst (mem_put k v m))"
proof (induction k v m rule: mem_put.induct)
  case (2 k v k' v' m)
  then show ?case by (auto simp: set_mem_put[simplified] dest: order_less_trans)
qed simp

lemma ascending_adel: "ascending (map fst m) \<Longrightarrow> ascending (map fst (adel k m))"
  by (simp add: adel_def sorted_wrt_map sorted_wrt_filter)

interpretation mem: badger_store mem_badger "\<lambda>m. ascending (map fst m)"
  by unfold_locales (auto simp: mem_badger_def map_of_mem_put ascending_mem_put ascending_adel)

section \<open>Properties\<close>

text \<open>Big-endian keys order as the sequence numbers do: byte-wise comparison of two keys is
  comparison of the 64-bit numbers, so an iterator meets items in the order of their numbers.\<close>

theorem seq_key_order:
  "(seq_key a < seq_key b \<longleftrightarrow> a < b) \<and> (seq_key a = seq_key b \<longleftrightarrow> a = b) \<and> be_val (seq_key a) = unat a"
  by simp

text \<open>C9: On a working store, any interleaving of \<open>Enqueue\<close> and \<open>Dequeue\<close> on a freshly opened empty
  queue returns exactly what a FIFO list returns, as long as fewer than \<open>2^64\<close> items are enqueued
  and they can be encoded; \<open>Len\<close> is then the length of that list.\<close>

theorem queue_refines_list:
  assumes "badger_store ops ok" and "bopen ops path = Inr d" and "ok d" and "bview ops d = Inr []"
    and "enqs os < 2 ^ 64" and "\<forall>i. OpEnq i \<in> set os \<longrightarrow> (\<exists>j. enc i = Inr j)"
  shows "\<exists>q rs q'. NewPersistentQueue ops path = Inr q \<and>
    run_ops (Enqueue ops enc) (Dequeue ops dec) os q = (rs, q') \<and>
    spec_ops enc dec os [] = (rs, content_of ops q') \<and>
    Len ops q' = (int (length (content_of ops q')), None)"
proof -
  define q where "q = \<lparr>db = d, seq = 0\<rparr>"
  have it: "items ops q = []" using assms(4) by (simp add: items_def q_def)
  then have q: "queue_inv ops ok q" "queue_room q (enqs os)" "content_of ops q = []"
    using assms(3,5) by (simp_all add: queue_inv_def queue_room_def content_of_def q_def)
  obtain rs q' where r: "run_ops (Enqueue ops enc) (Dequeue ops dec) os q = (rs, q')"
    "queue_inv ops ok q'" "spec_ops enc dec os (content_of ops q) = (rs, content_of ops q')"
    using badger_store.queue_run_refines[OF assms(1) q(1,2) assms(6)] by blast
  have "NewPersistentQueue ops path = Inr q" using assms(2) by (simp add: NewPersistentQueue_def q_def)
  then show ?thesis using r q(3) badger_store.Len_law[OF assms(1) r(2)] by auto
qed

definition demo_enc :: "nat \<Rightarrow> json res" where
  "demo_enc n = Inr (JInt (int n))"

theorem queue_refines_list_witness:
  "\<exists>q rs q'. NewPersistentQueue mem_badger ''q'' = Inr q \<and>
     run_ops (Enqueue mem_badger demo_enc) (Dequeue mem_badger Inr)
       [OpEnq 7, OpEnq 8, OpDeq, OpDeq, OpDeq] q = (rs, q') \<and>
     rs = [Inr (JInt 7), Inr (JInt 8), Inl ErrKeyNotFound] \<and> Len mem_badger q' = (0, None)"
proof -
  have "\<exists>q rs q'. NewPersistentQueue mem_badger ''q'' = Inr q \<and>
     run_ops (Enqueue mem_badger demo_enc) (Dequeue mem_badger Inr)
       [OpEnq 7, OpEnq 8, OpDeq, OpDeq, OpDeq] q = (rs, q') \<and>
     spec_ops demo_enc Inr [OpEnq 7, OpEnq 8, OpDeq, OpDeq, OpDeq] [] = (rs, content_of mem_badger q') \<and>
     Len mem_badger q' = (int (length (content_of mem_badger q')), None)"
    by (rule queue_refines_list[OF mem.badger_store_axioms]) (auto simp: mem_badger_def demo_enc_def)
  then show ?thesis by (auto simp: demo_enc_def)
qed

text \<open>The sequence number is not recovered when a queue is reopened: if the store still holds the
  item numbered 1, the first \<open>Enqueue\<close> after a restart overwrites it. That item is lost, the new
  one takes its place at the front, and the length does not change.\<close>

theorem reopen_overwrites_first:
  assumes "badger_store ops ok" and "bopen ops path = Inr d" and "ok d"
    and "bview ops d = Inr ((seq_key 1, j) # its)" and "enc i = Inr j'"
  shows "\<exists>q q'. NewPersistentQueue ops path = Inr q \<and> content_of ops q = j # map snd its \<and>
    Enqueue ops enc i q = (None, q') \<and> content_of ops q' = j' # map snd its \<and> Len ops q' = Len ops q"
proof -
  define q where "q = \<lparr>db = d, seq = 0 :: 64 word\<rparr>"
  have asc: "ascending (map fst ((seq_key 1, j) # its))"
    using badger_store.view_ok[OF assms(1,3)] assms(4) by auto
  obtain d' its' where d': "bset ops d (seq_key 1) j' = Inr d'" "ok d'" "bview ops d' = Inr its'"
    "map_of its' = (map_of ((seq_key 1, j) # its))(seq_key 1 \<mapsto> j')"
    using badger_store.set_ok[OF assms(1,3,4)] by blast
  have "its' = (seq_key 1, j') # its"
    using badger_store.view_ok[OF assms(1) d'(2)] d'(3,4) asc
    by (intro sorted_alist_overwrite_hd[of "seq_key 1" j]) auto
  then show ?thesis using assms(2,4,5) d'(1,3)
    by (simp add: NewPersistentQueue_def content_of_def items_def Enqueue_def Len_def)
qed

theorem reopen_overwrites_first_witness:
  "\<exists>q q'. NewPersistentQueue (mem_badger\<lparr>bopen := \<lambda>p. Inr [(seq_key 1, JInt 7), (seq_key 2, JInt 8)]\<rparr>) ''q'' = Inr q \<and>
     Enqueue (mem_badger\<lparr>bopen := \<lambda>p. Inr [(seq_key 1, JInt 7), (seq_key 2, JInt 8)]\<rparr>) demo_enc 9 q = (None, q') \<and>
     content_of (mem_badger\<lparr>bopen := \<lambda>p. Inr [(seq_key 1, JInt 7), (seq_key 2, JInt 8)]\<rparr>) q' = [JInt 9, JInt 8]"
proof -
  let ?ops = "mem_badger\<lparr>bopen := \<lambda>p. Inr [(seq_key 1, JInt 7), (seq_key 2, JInt 8)]\<rparr>"
  have st: "badger_store ?ops (\<lambda>m. ascending (map fst m))"
    by unfold_locales (auto simp: mem_badger_def map_of_mem_put ascending_mem_put ascending_adel)
  show ?thesis
    using reopen_overwrites_first[OF st, of "''q''" "[(seq_key 1, JInt 7), (seq_key 2, JInt 8)]"
        "JInt 7" "[(seq_key 2, JInt 8)]" demo_enc 9 "JInt 9"]
    by (auto simp: mem_badger_def demo_enc_def)
qed

end
