(* ===== verification/Registry.thy ===== *)
theory Registry
  imports Go_Values
begin

text \<open>
  The contract that the model registries of the server share: the model manager and the base
  engine both keep models under a key made from identifier and version. The locale states what a
  caller may rely on; what follows from it is proved once here and holds for every registry that
  interprets it.
\<close>

section \<open>Keys\<close>

text \<open>\<open>key := id; if version != "" { key = id + ":" + version }\<close>\<close>

definition version_key :: "string \<Rightarrow> string \<Rightarrow> string" where
  "version_key mid version = (if version \<noteq> [] then mid @ CHR '':'' # version else mid)"

lemma version_key_inject:
  assumes "CHR '':'' \<notin> set i" "CHR '':'' \<notin> set i'" "CHR '':'' \<notin> set v" "CHR '':'' \<notin> set v'"
  shows "version_key i v = version_key i' v' \<longleftrightarrow> i = i' \<and> v = v'"
proof
  assume h: "version_key i v = version_key i' v'"
  show "i = i' \<and> v = v'"
  proof (cases "v = []"; cases "v' = []")
    assume "v = []" "v' \<noteq> []"
    with h have "i = i' @ CHR '':'' # v'" by (simp add: version_key_def)
    with assms(1) show ?thesis by simp
  next
    assume "v \<noteq> []" "v' = []"
    with h have "i' = i @ CHR '':'' # v" by (simp add: version_key_def)
    with assms(2) show ?thesis by simp
  next
    assume "v \<noteq> []" "v' \<noteq> []"
    with h have "i @ CHR '':'' # v = i' @ CHR '':'' # v'" by (simp add: version_key_def)
    with assms(1,2) show ?thesis by (rule append_sep_inject)
  qed (use h in \<open>simp add: version_key_def\<close>)
qed simp

section \<open>The contract\<close>

text \<open>A sequence of registry calls: a load (\<open>True\<close>) or an unload of a version of a model.\<close>

fun reg_after :: "('x \<Rightarrow> string \<Rightarrow> string \<Rightarrow> 's \<Rightarrow> gerr option \<times> 's) \<Rightarrow>
    (string \<Rightarrow> string \<Rightarrow> 's \<Rightarrow> gerr option \<times> 's) \<Rightarrow> (bool \<times> 'x \<times> string \<times> string) list \<Rightarrow> 's \<Rightarrow> 's" where
  "reg_after load unload [] s = s"
| "reg_after load unload ((ld, x, i, v) # os) s =
     reg_after load unload os (snd (if ld then load x i v s else unload i v s))"

locale model_registry =
  fixes get :: "'s \<Rightarrow> string \<Rightarrow> string \<Rightarrow> 'v option"
    and load :: "'x \<Rightarrow> string \<Rightarrow> string \<Rightarrow> 's \<Rightarrow> gerr option \<times> 's"
    and unload :: "string \<Rightarrow> string \<Rightarrow> 's \<Rightarrow> gerr option \<times> 's"
  assumes get_key: "version_key i v = version_key i' v' \<Longrightarrow> get s i v = get s i' v'"
    and load_ok: "load x i v s = (None, s') \<Longrightarrow>
      get s i v = None \<and>
      (\<exists>m. \<forall>i' v'. get s' i' v' = (if version_key i' v' = version_key i v then Some m else get s i' v'))"
    and load_err: "load x i v s = (Some e, s') \<Longrightarrow> get s' = get s"
    and load_dup: "get s i v \<noteq> None \<Longrightarrow> fst (load x i v s) = Some ErrModelAlreadyExists"
    and unload_ok: "get s i v \<noteq> None \<Longrightarrow> fst (unload i v s) = None \<and>
      (\<forall>i' v'. get (snd (unload i v s)) i' v' =
         (if version_key i' v' = version_key i v then None else get s i' v'))"
    and unload_missing: "get s i v = None \<Longrightarrow>
      fst (unload i v s) = Some ErrModelNotFound \<and> get (snd (unload i v s)) = get s"
begin

lemma load_get: "load x i v s = (None, s') \<Longrightarrow> get s' i v \<noteq> None"
  using load_ok[of x i v s s'] by fastforce

text \<open>Unloading what was just loaded gives back the registry from before.\<close>

lemma load_unload:
  assumes "load x i v s = (None, s')"
  shows "fst (unload i v s') = None \<and> get (snd (unload i v s')) = get s"
proof -
  obtain m where m: "\<And>i' v'. get s' i' v' = (if version_key i' v' = version_key i v then Some m else get s i' v')"
    and n: "get s i v = None" using load_ok[OF assms] by blast
  have u: "fst (unload i v s') = None"
    "\<And>i' v'. get (snd (unload i v s')) i' v' = (if version_key i' v' = version_key i v then None else get s' i' v')"
    using unload_ok[of s' i v] m by auto
  have same: "get s i' v' = None" if "version_key i' v' = version_key i v" for i' v'
    using get_key[OF that] n by simp
  have "get (snd (unload i v s')) i' v' = get s i' v'" for i' v'
    using u(2)[of i' v'] m same by auto
  then show ?thesis using u(1) by blast
qed

text \<open>A key is loaded at the end only if some call of the sequence loaded it or it was there.\<close>

lemma after_loaded:
  "get (reg_after load unload os s) i v \<noteq> None \<Longrightarrow>
     get s i v \<noteq> None \<or> (\<exists>x i' v'. (True, x, i', v') \<in> set os \<and> version_key i' v' = version_key i v)"
proof (induction os arbitrary: s)
  case (Cons p os)
  obtain ld x j w where p: "p = (ld, x, j, w)" by (cases p)
  let ?s = "snd (if ld then load x j w s else unload j w s)"
  have "get ?s i v \<noteq> None \<Longrightarrow> get s i v \<noteq> None \<or> (ld \<and> version_key j w = version_key i v)"
  proof (cases ld)
    case True
    assume g: "get ?s i v \<noteq> None"
    obtain r s' where r: "load x j w s = (r, s')" by (cases "load x j w s")
    show ?thesis
    proof (cases r)
      case None
      with r load_ok[of x j w s s'] obtain m where
        "\<And>i' v'. get s' i' v' = (if version_key i' v' = version_key j w then Some m else get s i' v')"
        by blast
      then have "get s' i v = (if version_key i v = version_key j w then Some m else get s i v)" .
      then show ?thesis using True g r by (auto split: if_splits)
    next
      case (Some e)
      then show ?thesis using True g r load_err[of x j w s e s'] by simp
    qed
  next
    case False
    assume "get ?s i v \<noteq> None"
    then show ?thesis using False unload_ok[of s j w] unload_missing[of s j w]
      by (cases "get s j w") (auto split: if_splits)
  qed
  with Cons.IH[of ?s] Cons.prems p show ?case by fastforce
qed simp

end

end
