(* ===== verification/Config.thy ===== *)
theory Config
  imports Go_Values
begin

text \<open>
  The configuration (\<open>src/internal/config/config.go\<close>). The settings that viper finds in the file or
  the environment are the parameter \<open>v\<close> of \<open>Load\<close>, by their dotted keys; \<open>Load\<close> supplies the
  defaults of \<open>SetDefault\<close> and the zero value of everything else.
\<close>

record tls_config =
  tls_Enabled :: bool
  CertFile :: string
  KeyFile :: string
  ClientCA :: string
  RequireClientCert :: bool

record s3_config =
  Endpoint :: string
  Bucket :: string
  AccessKey :: string
  SecretKey :: string
  Region :: string
  UseSSL :: bool

record jwt_config =
  jwt_Enabled :: bool
  Issuer :: string
  Audience :: string
  JWKSURL :: string
  Secret :: string
  Algorithm :: string
  RequireRole :: string
  RequireScope :: string

record config =
  ServerPort :: string
  WorkerPoolSize :: int
  ModelPath :: string
  LogLevel :: string
  PipelineCfg :: "(string \<times> goval) list list"
  S3 :: s3_config
  APIKey :: string
  SigEnabled :: bool
  SigPublicKeyPem :: string
  TLS :: tls_config
  JWT :: jwt_config
  EPType :: string
  EPDeviceID :: int
  LibPath :: string
  SessionPoolSize :: int

definition str_setting :: "(string \<rightharpoonup> goval) \<Rightarrow> string \<Rightarrow> string \<Rightarrow> string" where
  "str_setting v k d = (case v k of Some (GString s) \<Rightarrow> s | _ \<Rightarrow> d)"

definition int_setting :: "(string \<rightharpoonup> goval) \<Rightarrow> string \<Rightarrow> int \<Rightarrow> int" where
  "int_setting v k d = (case v k of Some (GInt n) \<Rightarrow> n | _ \<Rightarrow> d)"

definition bool_setting :: "(string \<rightharpoonup> goval) \<Rightarrow> string \<Rightarrow> bool" where
  "bool_setting v k = (case v k of Some (GBool b) \<Rightarrow> b | _ \<Rightarrow> False)"

definition maps_setting :: "(string \<rightharpoonup> goval) \<Rightarrow> string \<Rightarrow> (string \<times> goval) list list" where
  "maps_setting v k = (case v k of Some (GMaps ms) \<Rightarrow> ms | _ \<Rightarrow> [])"

definition Load :: "(string \<rightharpoonup> goval) \<Rightarrow> config" where
  "Load v = \<lparr>
     ServerPort = str_setting v ''server_port'' ''8080'',
     WorkerPoolSize = int_setting v ''worker_pool_size'' 4,
     ModelPath = str_setting v ''model_path'' ''testdata/test_model.onnx'',
     LogLevel = str_setting v ''logging.level'' ''info'',
     PipelineCfg = maps_setting v ''pipeline'',
     S3 = \<lparr>Endpoint = str_setting v ''s3.endpoint'' [], Bucket = str_setting v ''s3.bucket'' [],
       AccessKey = str_setting v ''s3.access_key'' [], SecretKey = str_setting v ''s3.secret_key'' [],
       Region = str_setting v ''s3.region'' [], UseSSL = bool_setting v ''s3.use_ssl''\<rparr>,
     APIKey = str_setting v ''api_key'' [],
     SigEnabled = bool_setting v ''signature_verification.enabled'',
     SigPublicKeyPem = str_setting v ''signature_verification.public_key_pem'' [],
     TLS = \<lparr>tls_Enabled = bool_setting v ''tls.enabled'', CertFile = str_setting v ''tls.cert_file'' [],
       KeyFile = str_setting v ''tls.key_file'' [], ClientCA = str_setting v ''tls.client_ca'' [],
       RequireClientCert = bool_setting v ''tls.require_client_cert''\<rparr>,
     JWT = \<lparr>jwt_Enabled = bool_setting v ''jwt.enabled'', Issuer = str_setting v ''jwt.issuer'' [],
       Audience = str_setting v ''jwt.audience'' [], JWKSURL = str_setting v ''jwt.jwks_url'' [],
       Secret = str_setting v ''jwt.secret'' [], Algorithm = str_setting v ''jwt.algorithm'' [],
       RequireRole = str_setting v ''jwt.require_role'' [], RequireScope = str_setting v ''jwt.require_scope'' []\<rparr>,
     EPType = str_setting v ''execution_provider.type'' ''cpu'',
     EPDeviceID = int_setting v ''execution_provider.device_id'' 0,
     LibPath = str_setting v ''onnxruntime.lib_path'' [],
     SessionPoolSize = int_setting v ''onnxruntime.session_pool_size'' 0\<rparr>"

text \<open>The configuration that a server without file and environment gets.\<close>

definition default_config :: config where
  "default_config = Load Map.empty"

lemmas setting_defs [go_simps] = str_setting_def int_setting_def bool_setting_def maps_setting_def

end
