(* ===== verification/Go_Path.thy ===== *)
theory Go_Path
  imports Prelude
begin

text \<open>
  \<open>filepath.Join\<close> and \<open>filepath.Clean\<close> on Unix paths, which the sources use to place downloaded
  models and to match cache entries.
\<close>

section \<open>Clean and Join\<close>

fun split_slash :: "string \<Rightarrow> string list" where
  "split_slash [] = [[]]"
| "split_slash (c # cs) = (if c = CHR ''/'' then [] # split_slash cs
     else (case split_slash cs of [] \<Rightarrow> [[c]] | p # ps \<Rightarrow> (c # p) # ps))"

fun join_slash :: "string list \<Rightarrow> string" where
  "join_slash [] = []"
| "join_slash [p] = p"
| "join_slash (p # ps) = p @ CHR ''/'' # join_slash ps"

text \<open>
  The element stack of \<open>Clean\<close>, kept in reverse: empty elements and \<open>.\<close> vanish, \<open>..\<close> removes the
  element before it, and a \<open>..\<close> that has nothing to remove stays unless the path is rooted.
\<close>

fun clean_stack :: "bool \<Rightarrow> string list \<Rightarrow> string list \<Rightarrow> string list" where
  "clean_stack rooted st [] = st"
| "clean_stack rooted st (p # ps) =
     (if p = [] \<or> p = ''.'' then clean_stack rooted st ps
      else if p = ''..'' then
        (case st of
           [] \<Rightarrow> clean_stack rooted (if rooted then [] else [''..'']) ps
         | q # st' \<Rightarrow> if q = ''..'' then clean_stack rooted (''..'' # st) ps
                      else clean_stack rooted st' ps)
      else clean_stack rooted (p # st) ps)"

definition path_clean :: "string \<Rightarrow> string" where
  "path_clean s = (let rooted = has_prefix s ''/''; ps = rev (clean_stack rooted [] (split_slash s)) in
     if rooted then CHR ''/'' # join_slash ps
     else if ps = [] then ''.'' else join_slash ps)"

text \<open>\<open>filepath.Join(a, b)\<close>: leading empty elements are ignored, the rest is joined and cleaned.\<close>

definition path_join :: "string \<Rightarrow> string \<Rightarrow> string" where
  "path_join a b = (if a \<noteq> [] then path_clean (a @ CHR ''/'' # b)
     else if b \<noteq> [] then path_clean b else [])"

section \<open>Splitting\<close>

lemma split_slash_ne [simp]: "split_slash s \<noteq> []"
  by (induction s) (auto split: list.splits)

lemma split_slash_append: "split_slash (a @ CHR ''/'' # b) = split_slash a @ split_slash b"
proof (induction a)
  case (Cons c a)
  obtain p ps where "split_slash a = p # ps" by (cases "split_slash a") auto
  with Cons show ?case by simp
qed simp

lemma split_slash_plain: "CHR ''/'' \<notin> set s \<Longrightarrow> split_slash s = [s]"
  by (induction s) auto

lemma clean_stack_append: "clean_stack r st (ps @ qs) = clean_stack r (clean_stack r st ps) qs"
  by (induction r st ps rule: clean_stack.induct) (auto split: list.splits)

text \<open>A plain file name: not empty, not \<open>.\<close> or \<open>..\<close>, without a slash.\<close>

definition plain_name :: "string \<Rightarrow> bool" where
  "plain_name n \<longleftrightarrow> n \<noteq> [] \<and> n \<noteq> ''.'' \<and> n \<noteq> ''..'' \<and> CHR ''/'' \<notin> set n"

lemma clean_stack_plain: "plain_name n \<Longrightarrow> clean_stack r st [n] = n # st"
  by (auto simp: plain_name_def)

lemma join_slash_snoc: "ps \<noteq> [] \<Longrightarrow> join_slash (ps @ [n]) = join_slash ps @ CHR ''/'' # n"
  by (induction ps rule: join_slash.induct) auto

lemma has_prefix_slash_append: "a \<noteq> [] \<Longrightarrow> has_prefix (a @ b) ''/'' = has_prefix a ''/''"
  by (cases a) (simp_all add: has_prefix_def)

text \<open>Joining a plain name to a rooted directory: the name is the last element of the result.\<close>

lemma path_join_plain:
  assumes "dir \<noteq> []" "plain_name n"
  shows "path_join dir n =
    (let r = has_prefix dir ''/''; st = clean_stack r [] (split_slash dir) in
     if r then CHR ''/'' # join_slash (rev st @ [n]) else join_slash (rev st @ [n]))"
proof -
  let ?r = "has_prefix dir ''/''"
  have r: "has_prefix (dir @ CHR ''/'' # n) ''/'' = ?r" using assms(1) by (rule has_prefix_slash_append)
  have "split_slash (dir @ CHR ''/'' # n) = split_slash dir @ [n]"
    using assms(2) by (simp add: split_slash_append split_slash_plain plain_name_def)
  then have "clean_stack ?r [] (split_slash (dir @ CHR ''/'' # n)) = n # clean_stack ?r [] (split_slash dir)"
    by (simp only: clean_stack_append clean_stack_plain[OF assms(2)])
  then show ?thesis using assms(1) by (cases ?r) (simp_all add: path_join_def path_clean_def r Let_def)
qed

lemma join_slash_snoc_inject: "join_slash (ps @ [m]) = join_slash (ps @ [n]) \<longleftrightarrow> m = n"
  by (cases "ps = []") (simp_all add: join_slash_snoc)

text \<open>Different plain names in one directory give different paths.\<close>

lemma path_join_inject:
  "plain_name m \<Longrightarrow> plain_name n \<Longrightarrow> path_join dir m = path_join dir n \<longleftrightarrow> m = n"
proof (cases "dir = []")
  case True
  assume "plain_name m" "plain_name n"
  then show ?thesis using True
    by (auto simp: path_join_def path_clean_def split_slash_plain has_prefix_def plain_name_def
        take_Cons' Let_def split: if_splits)
next
  case False
  assume "plain_name m" "plain_name n"
  then show ?thesis using False by (auto simp: path_join_plain Let_def join_slash_snoc_inject)
qed

end
