(* ===== verification/Model_Manager.thy ===== *)
theory Model_Manager
  imports Registry Config Go_Path
begin

text \<open>
  The model registry (\<open>src/internal/model/model.go\<close>) and the local part of the remote registry
  (\<open>src/internal/model/s3.go\<close>): loading with a recorded SHA-256 checksum and optional ECDSA
  signature check, lookup, unloading, listing, the handling of \<open>s3://\<close> paths, and the cleanup of
  the local cache. Files, hashing and signature verification are the parameters \<open>os_env\<close> and
  \<open>crypto\<close>; the object store is a parameter of \<open>LoadModelWithS3Support\<close>.
\<close>

section \<open>The world outside\<close>

record os_env =
  fs_open :: "string \<Rightarrow> unit res"
  fs_read :: "string \<Rightarrow> bytes res"

text \<open>What \<open>x509.ParsePKIXPublicKey\<close> can return.\<close>

datatype pubkey = EcdsaKey bytes | RsaKey bytes | OtherKey

record crypto =
  sha256_sum :: "bytes \<Rightarrow> bytes"
  pem_decode :: "bytes \<Rightarrow> bytes option"
  parse_pkix :: "bytes \<Rightarrow> pubkey res"
  ecdsa_verify :: "bytes \<Rightarrow> bytes \<Rightarrow> nat \<Rightarrow> nat \<Rightarrow> bool"

section \<open>Models and the manager\<close>

record model =
  ID :: string
  Version :: string
  Path :: string
  InputShape :: "int list"
  OutputShape :: "int list"
  Metadata :: "(string \<times> goval) list"

text \<open>
  The map of loaded models, and the increments of the two Prometheus counters (model id, version,
  status) in the order in which they happen.
\<close>

record model_manager =
  models :: "(string \<times> model) list"
  load_counter :: "(string \<times> string \<times> string) list"
  unload_counter :: "(string \<times> string \<times> string) list"

definition NewModelManager :: model_manager where
  "NewModelManager = \<lparr>models = [], load_counter = [], unload_counter = []\<rparr>"

definition count_load :: "string \<Rightarrow> string \<Rightarrow> string \<Rightarrow> model_manager \<Rightarrow> model_manager" where
  "count_load mid v st m = m\<lparr>load_counter := load_counter m @ [(mid, v, st)]\<rparr>"

definition count_unload :: "string \<Rightarrow> string \<Rightarrow> string \<Rightarrow> model_manager \<Rightarrow> model_manager" where
  "count_unload mid v st m = m\<lparr>unload_counter := unload_counter m @ [(mid, v, st)]\<rparr>"

text \<open>A signature is 64 bytes, the two big-endian halves \<open>r\<close> and \<open>s\<close>.\<close>

definition verifySignature :: "os_env \<Rightarrow> crypto \<Rightarrow> string \<Rightarrow> string \<Rightarrow> string \<Rightarrow> gerr option" where
  "verifySignature env cr filePath sigPath pubKeyPath =
     (case fs_read env filePath of Inl e \<Rightarrow> Some e | Inr file \<Rightarrow>
      (case fs_read env sigPath of Inl e \<Rightarrow> Some e | Inr sig \<Rightarrow>
      (case fs_read env pubKeyPath of Inl e \<Rightarrow> Some e | Inr pubKeyBytes \<Rightarrow>
      (case pem_decode cr pubKeyBytes of None \<Rightarrow> Some (ErrNew ''invalid PEM public key'') | Some block \<Rightarrow>
      (case parse_pkix cr block of Inl e \<Rightarrow> Some e | Inr pub \<Rightarrow>
      (case pub of
         EcdsaKey pubKey \<Rightarrow>
           (let hash = sha256_sum cr file in
            if length sig \<noteq> 64 then Some (ErrNew ''invalid signature length'')
            else if \<not> ecdsa_verify cr pubKey hash (be_val (take 32 sig)) (be_val (drop 32 sig))
              then Some (ErrNew ''signature verification failed'')
            else None)
       | _ \<Rightarrow> Some (ErrNew ''not ECDSA public key'')))))))"

text \<open>
  \<open>LoadModel\<close>: the model is put into the map before its signature is checked, and the check runs
  only when the metadata carries a configuration that enables it.
\<close>

definition sig_check :: "os_env \<Rightarrow> crypto \<Rightarrow> (string \<times> goval) list \<Rightarrow> string \<Rightarrow> gerr option" where
  "sig_check env cr metadata path = (case kv_get metadata ''config'' of
       Some (GConfig enabled pem) \<Rightarrow>
         if enabled then verifySignature env cr path (path @ ''.sig'') pem else None
     | _ \<Rightarrow> None)"

definition LoadModel :: "os_env \<Rightarrow> crypto \<Rightarrow> string \<Rightarrow> string \<Rightarrow> string \<Rightarrow> int list \<Rightarrow> int list \<Rightarrow>
    (string \<times> goval) list \<Rightarrow> model_manager \<Rightarrow> model res \<times> model_manager" where
  "LoadModel env cr mid version path inputShape outputShape metadata m =
     (let key = version_key mid version in
      if map_of (models m) key \<noteq> None then (Inl ErrModelAlreadyExists, count_load mid version ''error'' m)
      else case fs_open env path of Inl e \<Rightarrow> (Inl e, count_load mid version ''error'' m) | Inr _ \<Rightarrow>
        (case fs_read env path of Inl e \<Rightarrow> (Inl e, count_load mid version ''error'' m) | Inr file \<Rightarrow>
          (let checksum = hex_encode (sha256_sum cr file);
               md = aput ''sha256'' (GString checksum) metadata;
               mdl = \<lparr>ID = mid, Version = version, Path = path, InputShape = inputShape,
                      OutputShape = outputShape, Metadata = md\<rparr>;
               m1 = count_load mid version ''success'' (m\<lparr>models := aput key mdl (models m)\<rparr>)
           in case sig_check env cr md path of
                Some e \<Rightarrow> (Inl (Errorw ''signature verification failed: %w'' [] e), count_load mid version ''error'' m1)
              | None \<Rightarrow> (Inr mdl, m1))))"

definition GetModel :: "string \<Rightarrow> string \<Rightarrow> model_manager \<Rightarrow> model option" where
  "GetModel mid version m = map_of (models m) (version_key mid version)"

definition UnloadModel :: "string \<Rightarrow> string \<Rightarrow> model_manager \<Rightarrow> gerr option \<times> model_manager" where
  "UnloadModel mid version m =
     (let key = version_key mid version in
      if map_of (models m) key = None then (Some ErrModelNotFound, count_unload mid version ''error'' m)
      else (None, count_unload mid version ''success'' (m\<lparr>models := adel key (models m)\<rparr>)))"

text \<open>The order of a Go map iteration is unspecified: the model lists the entries in map order.\<close>

definition ListModels :: "model_manager \<Rightarrow> model list" where
  "ListModels m = map snd (models m)"

definition AddModel :: "model \<Rightarrow> model_manager \<Rightarrow> model_manager" where
  "AddModel mdl m = m\<lparr>models := aput (version_key (ID mdl) (Version mdl)) mdl (models m)\<rparr>"

section \<open>Remote models\<close>

text \<open>
  \<open>s3://bucket/key\<close>, or \<open>s3://key\<close> with the configured bucket. The object goes to a file of the
  temporary directory named after identifier and version; \<open>dl\<close> is the downloader (bucket, key and
  local path, beside the connection settings) with its effect on the files.
\<close>

definition s3_target :: "config \<Rightarrow> string \<Rightarrow> string \<times> string" where
  "s3_target cfg path =
     (let objectKey = trim_prefix path ''s3://'' in
      if contains objectKey ''/'' then
        (case split_once (CHR ''/'') objectKey of
           [b, k] \<Rightarrow> (b, k)
         | _ \<Rightarrow> (Bucket (S3 cfg), objectKey))
      else (Bucket (S3 cfg), objectKey))"

definition s3_local_path :: "string \<Rightarrow> string \<Rightarrow> string \<Rightarrow> string" where
  "s3_local_path tmp mid version = path_join tmp (mid @ ''_'' @ version @ ''.onnx'')"

definition LoadModelWithS3Support ::
    "(s3_config \<Rightarrow> string \<Rightarrow> string \<Rightarrow> string \<Rightarrow> os_env \<Rightarrow> gerr option \<times> os_env) \<Rightarrow> string \<Rightarrow> os_env \<Rightarrow> crypto \<Rightarrow>
     config \<Rightarrow> string \<Rightarrow> string \<Rightarrow> string \<Rightarrow> int list \<Rightarrow> int list \<Rightarrow> (string \<times> goval) list \<Rightarrow>
     model_manager \<Rightarrow> model res \<times> model_manager" where
  "LoadModelWithS3Support dl tmp env cr cfg mid version path inputShape outputShape metadata m =
     (if has_prefix path ''s3://'' then
        (let (bucket, objectKey) = s3_target cfg path; localPath = s3_local_path tmp mid version in
         case dl (S3 cfg) bucket objectKey localPath env of
           (Some e, env') \<Rightarrow> (Inl e, m)
         | (None, env') \<Rightarrow> LoadModel env' cr mid version localPath inputShape outputShape metadata m)
      else LoadModel env cr mid version path inputShape outputShape metadata m)"

text \<open>
  \<open>CleanupLocalModelCache\<close>: the entries of the directory (name, is a directory) are a parameter; the
  result is the list of paths that are removed.
\<close>

definition CleanupLocalModelCache ::
    "(string \<Rightarrow> (string \<times> bool) list res) \<Rightarrow> string \<Rightarrow> string set \<Rightarrow> string list res" where
  "CleanupLocalModelCache readdir cacheDir keep = (case readdir cacheDir of
       Inl e \<Rightarrow> Inl e
     | Inr entries \<Rightarrow>
         Inr (filter (\<lambda>p. p \<notin> keep) (map (\<lambda>en. path_join cacheDir (fst en)) (filter (\<lambda>en. \<not> snd en) entries))))"

lemmas manager_defs [go_simps] =
  LoadModel_def GetModel_def UnloadModel_def count_load_def count_unload_def

section \<open>Lookups after each operation\<close>

lemma GetModel_count [simp]:
  "GetModel i v (count_load a b c m) = GetModel i v m"
  "GetModel i v (count_unload a b c m) = GetModel i v m"
  by (simp_all add: GetModel_def count_load_def count_unload_def)

lemma GetModel_put: "GetModel i v (m\<lparr>models := aput k mdl (models m)\<rparr>) =
    (if version_key i v = k then Some mdl else GetModel i v m)"
  by (simp add: GetModel_def)

lemma GetModel_del: "GetModel i v (m\<lparr>models := adel k (models m)\<rparr>) =
    (if version_key i v = k then None else GetModel i v m)"
  by (simp add: GetModel_def)

lemma GetModel_NewModelManager [simp]: "GetModel i v NewModelManager = None"
  by (simp add: GetModel_def NewModelManager_def)

text \<open>The four ways in which \<open>LoadModel\<close> ends.\<close>

lemma LoadModel_cases:
  fixes m :: model_manager
  obtains (exists) "GetModel i v m \<noteq> None"
      "LoadModel env cr i v p ish osh md m = (Inl ErrModelAlreadyExists, count_load i v ''error'' m)"
  | (unreadable) e where "GetModel i v m = None"
      "fs_open env p = Inl e \<or> fs_read env p = Inl e"
      "LoadModel env cr i v p ish osh md m = (Inl e, count_load i v ''error'' m)"
  | (loaded) f mdl sig where "GetModel i v m = None" "fs_open env p = Inr ()" "fs_read env p = Inr f"
      "mdl = \<lparr>ID = i, Version = v, Path = p, InputShape = ish, OutputShape = osh,
              Metadata = aput ''sha256'' (GString (hex_encode (sha256_sum cr f))) md\<rparr>"
      "sig = sig_check env cr (Metadata mdl) p"
      "LoadModel env cr i v p ish osh md m =
        (let m1 = count_load i v ''success'' (m\<lparr>models := aput (version_key i v) mdl (models m)\<rparr>) in
         case sig of Some e \<Rightarrow> (Inl (Errorw ''signature verification failed: %w'' [] e), count_load i v ''error'' m1)
         | None \<Rightarrow> (Inr mdl, m1))"
proof (cases "GetModel i v m = None")
  case False
  then show ?thesis using exists by (simp add: LoadModel_def GetModel_def Let_def)
next
  case True
  show ?thesis
  proof (cases "fs_open env p")
    case (Inl e)
    then show ?thesis using True unreadable[of e] by (simp add: LoadModel_def GetModel_def Let_def)
  next
    case (Inr u)
    show ?thesis
    proof (cases "fs_read env p")
      case (Inl e)
      then show ?thesis using True Inr unreadable[of e] by (simp add: LoadModel_def GetModel_def Let_def)
    next
      case (Inr f)
      then show ?thesis using True \<open>fs_open env p = Inr u\<close> loaded[of f]
        by (simp add: LoadModel_def GetModel_def Let_def)
    qed
  qed
qed

section \<open>The registry contract\<close>

text \<open>The manager as the HTTP and gRPC layers use it: they pass no metadata.\<close>

definition mm_load :: "os_env \<times> crypto \<times> string \<times> int list \<times> int list \<Rightarrow> string \<Rightarrow> string \<Rightarrow>
    model_manager \<Rightarrow> gerr option \<times> model_manager" where
  "mm_load x i v m = (case x of (env, cr, p, ish, osh) \<Rightarrow>
     (case LoadModel env cr i v p ish osh [] m of
        (Inl e, m') \<Rightarrow> (Some e, m') | (Inr _, m') \<Rightarrow> (None, m')))"

definition mm_get :: "model_manager \<Rightarrow> string \<Rightarrow> string \<Rightarrow> model option" where
  "mm_get m i v = GetModel i v m"

lemma sig_check_no_config: "kv_get md ''config'' = None \<Longrightarrow> sig_check env cr md p = None"
  by (simp add: sig_check_def)

lemma mm_load_cases:
  fixes m :: model_manager
  obtains (exists) "GetModel i v m \<noteq> None" "mm_load x i v m = (Some ErrModelAlreadyExists, count_load i v ''error'' m)"
  | (unreadable) e where "GetModel i v m = None" "mm_load x i v m = (Some e, count_load i v ''error'' m)"
  | (loaded) mdl where "GetModel i v m = None"
      "mm_load x i v m = (None, count_load i v ''success'' (m\<lparr>models := aput (version_key i v) mdl (models m)\<rparr>))"
proof -
  obtain env cr p ish osh where x: "x = (env, cr, p, ish, osh)" by (cases x)
  have nc: "sig_check env cr (aput ''sha256'' c []) p = None" for c
    by (rule sig_check_no_config) simp
  show ?thesis
    by (cases rule: LoadModel_cases[of i v m env cr p ish osh "[]"])
      (use exists unreadable loaded in \<open>force simp: x mm_load_def nc Let_def\<close>)+
qed

interpretation mm: model_registry mm_get mm_load UnloadModel
proof unfold_locales
  fix i v i' v' s
  show "version_key i v = version_key i' v' \<Longrightarrow> mm_get s i v = mm_get s i' v'"
    by (simp add: mm_get_def GetModel_def)
next
  fix x i v s s'
  assume "mm_load x i v s = (None, s')"
  then show "mm_get s i v = None \<and> (\<exists>m. \<forall>i' v'. mm_get s' i' v' =
      (if version_key i' v' = version_key i v then Some m else mm_get s i' v'))"
    by (cases rule: mm_load_cases[of i v s x]) (auto simp: mm_get_def GetModel_put)
next
  fix x i v s e s'
  assume "mm_load x i v s = (Some e, s')"
  then show "mm_get s' = mm_get s"
    by (cases rule: mm_load_cases[of i v s x]) (auto simp: mm_get_def fun_eq_iff)
next
  fix s i v x
  show "mm_get s i v \<noteq> None \<Longrightarrow> fst (mm_load x i v s) = Some ErrModelAlreadyExists"
    by (cases rule: mm_load_cases[of i v s x]) (auto simp: mm_get_def)
next
  fix s i v
  assume "mm_get s i v \<noteq> None"
  then show "fst (UnloadModel i v s) = None \<and> (\<forall>i' v'. mm_get (snd (UnloadModel i v s)) i' v' =
      (if version_key i' v' = version_key i v then None else mm_get s i' v'))"
    by (simp add: mm_get_def UnloadModel_def Let_def GetModel_del) (simp add: GetModel_def)
next
  fix s i v
  assume "mm_get s i v = None"
  then show "fst (UnloadModel i v s) = Some ErrModelNotFound \<and> mm_get (snd (UnloadModel i v s)) = mm_get s"
    by (simp add: mm_get_def fun_eq_iff UnloadModel_def Let_def) (simp add: GetModel_def)
qed

section \<open>The invariant\<close>

text \<open>Every model is stored once, under the key made from its own identifier and version.\<close>

definition mm_inv :: "model_manager \<Rightarrow> bool" where
  "mm_inv m \<longleftrightarrow> distinct (map fst (models m)) \<and>
     (\<forall>(k, mdl) \<in> set (models m). k = version_key (ID mdl) (Version mdl))"

lemma mm_inv_New [inv_intros]: "mm_inv NewModelManager"
  by (simp add: mm_inv_def NewModelManager_def)

lemma mm_inv_count [simp]:
  "mm_inv (count_load a b c m) = mm_inv m" "mm_inv (count_unload a b c m) = mm_inv m"
  by (simp_all add: mm_inv_def count_load_def count_unload_def)

lemma mm_inv_AddModel [inv_intros]: "mm_inv m \<Longrightarrow> mm_inv (AddModel mdl m)"
  unfolding mm_inv_def AddModel_def by (auto simp: distinct_aput) (auto simp: aput_def)

lemma mm_inv_UnloadModel [inv_intros]: "mm_inv m \<Longrightarrow> mm_inv (snd (UnloadModel i v m))"
  by (auto simp: UnloadModel_def Let_def mm_inv_def count_unload_def distinct_adel) (auto simp: adel_def)

lemma AddModel_as_put:
  "ID mdl = i \<Longrightarrow> Version mdl = v \<Longrightarrow> m\<lparr>models := aput (version_key i v) mdl (models m)\<rparr> = AddModel mdl m"
  by (simp add: AddModel_def)

lemma mm_inv_LoadModel [inv_intros]: "mm_inv m \<Longrightarrow> mm_inv (snd (LoadModel env cr i v p ish osh md m))"
  by (cases rule: LoadModel_cases[of i v m env cr p ish osh md])
    (auto simp: Let_def AddModel_as_put mm_inv_AddModel split: option.split)

lemma mm_inv_LoadModelWithS3Support [inv_intros]:
  "mm_inv m \<Longrightarrow> mm_inv (snd (LoadModelWithS3Support dl tmp env cr cfg i v p ish osh md m))"
  by (auto simp: LoadModelWithS3Support_def Let_def mm_inv_LoadModel split: prod.split option.split)

text \<open>Calls on the manager, in the order in which the lock admits them.\<close>

datatype mm_call =
    MLoad os_env crypto string string string "int list" "int list" "(string \<times> goval) list"
  | MUnload string string
  | MAdd model

fun mm_step :: "mm_call \<Rightarrow> model_manager \<Rightarrow> model_manager" where
  "mm_step (MLoad env cr i v p ish osh md) m = snd (LoadModel env cr i v p ish osh md m)"
| "mm_step (MUnload i v) m = snd (UnloadModel i v m)"
| "mm_step (MAdd mdl) m = AddModel mdl m"

lemma mm_inv_step [inv_intros]: "mm_inv m \<Longrightarrow> mm_inv (mm_step c m)"
  by (cases c) (simp_all add: inv_intros)

lemma mm_inv_fold: "mm_inv m \<Longrightarrow> mm_inv (fold mm_step cs m)"
  by (induction cs arbitrary: m) (simp_all add: inv_intros)

lemma mm_inv_lookup: "mm_inv m \<Longrightarrow> GetModel i v m = Some mdl \<Longrightarrow> version_key (ID mdl) (Version mdl) = version_key i v"
  unfolding mm_inv_def GetModel_def by (fastforce dest: map_of_SomeD)

lemma mm_inv_list: "mm_inv m \<Longrightarrow>
    mdl \<in> set (ListModels m) \<longleftrightarrow> GetModel (ID mdl) (Version mdl) m = Some mdl"
  unfolding mm_inv_def ListModels_def GetModel_def by (force dest: map_of_SomeD)

section \<open>Properties\<close>

text \<open>C12: After any sequence of loads, unloads and insertions on a new manager, a model found under an
  identifier and a version without a colon in them is a model of that identifier and version (when it
  has no colon in its own), and the listing has, without repetition, exactly the models that can be
  looked up.\<close>

theorem manager_lookup_sound:
  assumes "m = fold mm_step cs NewModelManager"
  shows "(\<forall>i v mdl. GetModel i v m = Some mdl \<and> CHR '':'' \<notin> set i \<and> CHR '':'' \<notin> set v \<and>
           CHR '':'' \<notin> set (ID mdl) \<and> CHR '':'' \<notin> set (Version mdl) \<longrightarrow> ID mdl = i \<and> Version mdl = v) \<and>
         (\<forall>mdl. mdl \<in> set (ListModels m) \<longleftrightarrow> GetModel (ID mdl) (Version mdl) m = Some mdl) \<and>
         distinct (map (\<lambda>mdl. version_key (ID mdl) (Version mdl)) (ListModels m))"
proof -
  have inv: "mm_inv m" unfolding assms by (intro mm_inv_fold inv_intros)
  have keys: "map (\<lambda>mdl. version_key (ID mdl) (Version mdl)) (ListModels m) = map fst (models m)"
    using inv by (auto simp: mm_inv_def ListModels_def)
  show ?thesis
    using inv mm_inv_list[OF inv] keys
    by (auto dest!: mm_inv_lookup[OF inv] simp: version_key_inject) (simp add: mm_inv_def)
qed

text \<open>A file system with one readable file, and a digest that is the file itself.\<close>

definition sample_env :: "string \<Rightarrow> bytes \<Rightarrow> os_env" where
  "sample_env p f = \<lparr>fs_open = (\<lambda>q. if q = p then Inr () else Inl (ErrExt ''no such file'')),
     fs_read = (\<lambda>q. if q = p then Inr f else Inl (ErrExt ''no such file''))\<rparr>"

definition sample_crypto :: crypto where
  "sample_crypto = \<lparr>sha256_sum = (\<lambda>f. f), pem_decode = Some, parse_pkix = (\<lambda>b. Inr (EcdsaKey b)),
     ecdsa_verify = (\<lambda>k h r s. True)\<rparr>"

lemmas sample_defs = sample_env_def sample_crypto_def

lemma manager_lookup_sound_witness:
  "let m = fold mm_step [MLoad (sample_env ''a.onnx'' [1]) sample_crypto ''a'' ''1'' ''a.onnx'' [1] [1] []] NewModelManager
   in map ID (ListModels m) = [''a''] \<and> (\<forall>mdl. GetModel ''a'' ''1'' m = Some mdl \<and>
        CHR '':'' \<notin> set (ID mdl) \<and> CHR '':'' \<notin> set (Version mdl) \<longrightarrow> ID mdl = ''a'' \<and> Version mdl = ''1'')"
proof -
  have "map ID (ListModels (fold mm_step [MLoad (sample_env ''a.onnx'' [1]) sample_crypto ''a'' ''1'' ''a.onnx'' [1] [1] []]
      NewModelManager)) = [''a'']" by code_simp
  then show ?thesis using manager_lookup_sound[OF refl,
      of "[MLoad (sample_env ''a.onnx'' [1]) sample_crypto ''a'' ''1'' ''a.onnx'' [1] [1] []]",
      THEN conjunct1, THEN spec[of _ "''a''"], THEN spec[of _ "''1''"]]
    unfolding Let_def by simp
qed

text \<open>C23: Loading a version that is not loaded yet from a readable file, with no signature check or
  one that accepts, returns the model as described with the SHA-256 of the file in its metadata;
  it is found under its version afterwards, every other key keeps what it had, and unloading it
  gives back every lookup of the manager before the load.\<close>

theorem load_get_unload:
  assumes "GetModel i v m = None" "fs_open env p = Inr ()" "fs_read env p = Inr f"
    and "sig_check env cr (aput ''sha256'' (GString (hex_encode (sha256_sum cr f))) md) p = None"
  shows "\<exists>mdl m'. LoadModel env cr i v p ish osh md m = (Inr mdl, m') \<and>
     ID mdl = i \<and> Version mdl = v \<and> Path mdl = p \<and> InputShape mdl = ish \<and> OutputShape mdl = osh \<and>
     kv_get (Metadata mdl) ''sha256'' = Some (GString (hex_encode (sha256_sum cr f))) \<and>
     (\<forall>k. k \<noteq> ''sha256'' \<longrightarrow> kv_get (Metadata mdl) k = kv_get md k) \<and>
     GetModel i v m' = Some mdl \<and>
     (\<forall>i' v'. version_key i' v' \<noteq> version_key i v \<longrightarrow> GetModel i' v' m' = GetModel i' v' m) \<and>
     fst (UnloadModel i v m') = None \<and>
     (\<forall>i' v'. GetModel i' v' (snd (UnloadModel i v m')) = GetModel i' v' m)"
proof (cases rule: LoadModel_cases[of i v m env cr p ish osh md])
  case (loaded f' mdl sig)
  let ?m' = "count_load i v ''success'' (m\<lparr>models := aput (version_key i v) mdl (models m)\<rparr>)"
  have "LoadModel env cr i v p ish osh md m = (Inr mdl, ?m')" using loaded assms by (simp add: Let_def)
  moreover have g: "GetModel i' v' ?m' = (if version_key i' v' = version_key i v then Some mdl else GetModel i' v' m)"
    for i' v' by (simp add: GetModel_put)
  moreover have "fst (UnloadModel i v ?m') = None \<and> (\<forall>i' v'. GetModel i' v' (snd (UnloadModel i v ?m')) =
      (if version_key i' v' = version_key i v then None else GetModel i' v' ?m'))"
    using mm.unload_ok[of ?m' i v] g[of i v] by (simp add: mm_get_def)
  moreover have "GetModel i' v' m = None" if "version_key i' v' = version_key i v" for i' v'
    using assms(1) that by (simp add: GetModel_def)
  ultimately show ?thesis using loaded assms(3) by fastforce
qed (use assms in auto)

lemma load_get_unload_witness:
  "\<exists>mdl m'. LoadModel (sample_env ''a.onnx'' [171]) sample_crypto ''a'' ''1'' ''a.onnx'' [2] [3] [] NewModelManager = (Inr mdl, m') \<and>
     kv_get (Metadata mdl) ''sha256'' = Some (GString ''ab'') \<and> GetModel ''a'' ''1'' m' = Some mdl"
  using load_get_unload[of "''a''" "''1''" NewModelManager "sample_env ''a.onnx'' [171]" "''a.onnx''" "[171]" sample_crypto "[]" "[2]" "[3]"]
  by (force simp: sample_defs sig_check_def hex_encode_def hex_digit_def)

text \<open>C37: Every error except a failed signature check leaves all lookups as they were. A failed
  signature check does not: the call returns an error, but the model it rejected is registered, is
  counted as a successful load and as a failed one, and a second attempt to load it is refused
  because it \<open>already exists\<close>.\<close>

theorem rejected_signature_registers:
  assumes "GetModel i v m = None" "fs_open env p = Inr ()" "fs_read env p = Inr f"
    and "kv_get md ''config'' = Some (GConfig True pem)"
    and "verifySignature env cr p (p @ ''.sig'') pem = Some e"
  shows "\<exists>mdl m'. LoadModel env cr i v p ish osh md m =
      (Inl (Errorw ''signature verification failed: %w'' [] e), m') \<and>
     GetModel i v m' = Some mdl \<and> Path mdl = p \<and>
     load_counter m' = load_counter m @ [(i, v, ''success''), (i, v, ''error'')] \<and>
     fst (LoadModel env' cr' i v p' ish' osh' md' m') = Inl ErrModelAlreadyExists"
proof (cases rule: LoadModel_cases[of i v m env cr p ish osh md])
  case (loaded f' mdl sig)
  let ?m' = "count_load i v ''error'' (count_load i v ''success'' (m\<lparr>models := aput (version_key i v) mdl (models m)\<rparr>))"
  have "sig = Some e" using loaded assms by (simp add: sig_check_def)
  then have "LoadModel env cr i v p ish osh md m =
      (Inl (Errorw ''signature verification failed: %w'' [] e), ?m')" using loaded by (simp add: Let_def)
  moreover have g: "GetModel i v ?m' = Some mdl" by (simp add: GetModel_put)
  moreover have "fst (LoadModel env' cr' i v p' ish' osh' md' ?m') = Inl ErrModelAlreadyExists"
    using g by (cases rule: LoadModel_cases[of i v ?m' env' cr' p' ish' osh' md']) auto
  moreover have "load_counter ?m' = load_counter m @ [(i, v, ''success''), (i, v, ''error'')]"
    by (simp add: count_load_def)
  ultimately show ?thesis using loaded by auto
qed (use assms in auto)

lemma rejected_signature_registers_witness:
  "\<exists>mdl m'. LoadModel (sample_env ''a.onnx'' [171]) sample_crypto ''a'' ''1'' ''a.onnx'' [] []
       [(''config'', GConfig True ''key.pem'')] NewModelManager =
     (Inl (Errorw ''signature verification failed: %w'' [] (ErrExt ''no such file'')), m') \<and>
     GetModel ''a'' ''1'' m' = Some mdl"
  using rejected_signature_registers[of "''a''" "''1''" NewModelManager "sample_env ''a.onnx'' [171]" "''a.onnx''" "[171]"
      "[(''config'', GConfig True ''key.pem'')]" "''key.pem''" sample_crypto "ErrExt ''no such file''" "[]" "[]"]
  by (force simp: sample_defs verifySignature_def)

text \<open>The signature check accepts exactly when the three files can be read, the key file is a PEM
  block with an ECDSA public key, the signature has 64 bytes, and ECDSA verification of the SHA-256
  of the model file succeeds for the two big-endian 32-byte numbers in it, both below \<open>2\<^sup>2\<^sup>5\<^sup>6\<close>.\<close>

theorem verifySignature_accepts_iff:
  "verifySignature env cr filePath sigPath pubKeyPath = None \<longleftrightarrow>
     (\<exists>file sig pem block key r s. fs_read env filePath = Inr file \<and> fs_read env sigPath = Inr sig \<and>
        fs_read env pubKeyPath = Inr pem \<and> pem_decode cr pem = Some block \<and>
        parse_pkix cr block = Inr (EcdsaKey key) \<and> length sig = 64 \<and>
        be_val sig = r * 2 ^ 256 + s \<and> r < 2 ^ 256 \<and> s < 2 ^ 256 \<and>
        ecdsa_verify cr key (sha256_sum cr file) r s)"
proof -
  have split: "be_val sig = be_val (take 32 sig) * 2 ^ 256 + be_val (drop 32 sig)"
      "be_val (take 32 sig) < 2 ^ 256" "be_val (drop 32 sig) < 2 ^ 256" if "length sig = 64" for sig :: bytes
    using that be_fold[of "be_val (take 32 sig)" "drop 32 sig"] be_val_bound[of "take 32 sig"] be_val_bound[of "drop 32 sig"]
    by (simp_all add: be_val_def flip: foldl_append)
  have uniq: "r = be_val (take 32 sig) \<and> s = be_val (drop 32 sig)"
    if "length sig = 64" "be_val sig = r * 2 ^ 256 + s" "s < 2 ^ 256" for sig :: bytes and r s
  proof -
    have "(be_val (take 32 sig) * 2 ^ 256 + be_val (drop 32 sig)) div 2 ^ 256 = (r * 2 ^ 256 + s) div 2 ^ 256"
      "(be_val (take 32 sig) * 2 ^ 256 + be_val (drop 32 sig)) mod 2 ^ 256 = (r * 2 ^ 256 + s) mod 2 ^ 256"
      using that split[OF that(1)] by metis+
    then show ?thesis using that split[OF that(1)] by simp
  qed
  show ?thesis
  proof
    assume "verifySignature env cr filePath sigPath pubKeyPath = None"
    then obtain fl sig pem block key where "fs_read env filePath = Inr fl" "fs_read env sigPath = Inr sig"
        "fs_read env pubKeyPath = Inr pem" "pem_decode cr pem = Some block" "parse_pkix cr block = Inr (EcdsaKey key)"
        "length sig = 64" "ecdsa_verify cr key (sha256_sum cr fl) (be_val (take 32 sig)) (be_val (drop 32 sig))"
      by (auto simp: verifySignature_def Let_def split: sum.splits option.splits pubkey.splits if_splits)
    then show "\<exists>file sig pem block key r s. fs_read env filePath = Inr file \<and> fs_read env sigPath = Inr sig \<and>
        fs_read env pubKeyPath = Inr pem \<and> pem_decode cr pem = Some block \<and>
        parse_pkix cr block = Inr (EcdsaKey key) \<and> length sig = 64 \<and>
        be_val sig = r * 2 ^ 256 + s \<and> r < 2 ^ 256 \<and> s < 2 ^ 256 \<and>
        ecdsa_verify cr key (sha256_sum cr file) r s" using split by blast
  next
    assume "\<exists>file sig pem block key r s. fs_read env filePath = Inr file \<and> fs_read env sigPath = Inr sig \<and>
        fs_read env pubKeyPath = Inr pem \<and> pem_decode cr pem = Some block \<and>
        parse_pkix cr block = Inr (EcdsaKey key) \<and> length sig = 64 \<and>
        be_val sig = r * 2 ^ 256 + s \<and> r < 2 ^ 256 \<and> s < 2 ^ 256 \<and>
        ecdsa_verify cr key (sha256_sum cr file) r s"
    then show "verifySignature env cr filePath sigPath pubKeyPath = None"
      by (elim exE conjE) (frule (2) uniq, simp add: verifySignature_def Let_def)
  qed
qed

text \<open>An \<open>s3://\<close> path with a slash names a bucket and a key, and printing them back gives the
  path; a path without a slash names a key of the configured bucket. The model is then loaded from
  the file of the temporary directory, and a failed download changes nothing.\<close>

theorem s3_path_round_trip:
  "(CHR ''/'' \<notin> set b \<longrightarrow> s3_target cfg (''s3://'' @ b @ ''/'' @ k) = (b, k)) \<and>
   (CHR ''/'' \<notin> set k \<longrightarrow> s3_target cfg (''s3://'' @ k) = (Bucket (S3 cfg), k)) \<and>
   (let (b', k') = s3_target cfg (''s3://'' @ p) in p = (if CHR ''/'' \<in> set p then b' @ ''/'' @ k' else k'))"
proof -
  have t: "trim_prefix (''s3://'' @ x) ''s3://'' = x" for x by (rule trim_prefix_append)
  have 1: "s3_target cfg (''s3://'' @ b @ ''/'' @ k) = (b, k)" if "CHR ''/'' \<notin> set b" for b k
    using that unfolding s3_target_def t contains_char_iff by (simp add: split_once_append)
  have 2: "s3_target cfg (''s3://'' @ k) = (Bucket (S3 cfg), k)" if "CHR ''/'' \<notin> set k" for k
    using that unfolding s3_target_def t contains_char_iff by simp
  have "let (b', k') = s3_target cfg (''s3://'' @ p) in p = (if CHR ''/'' \<in> set p then b' @ ''/'' @ k' else k')"
  proof (cases rule: split_once_cases[of "CHR ''/''" p])
    case none
    then show ?thesis using 2[of p] by simp
  next
    case (found a b)
    then show ?thesis using 1[of a b] by simp
  qed
  with 1 2 show ?thesis by blast
qed

lemma s3_path_round_trip_witness:
  "s3_target default_config ''s3://models/vision/resnet.onnx'' = (''models'', ''vision/resnet.onnx'')"
  using s3_path_round_trip[of "''models''" default_config "''vision/resnet.onnx''" "[]", THEN conjunct1] by simp

lemma LoadModel_Inr:
  assumes "LoadModel env cr i v p ish osh md m = (Inr mdl, m')"
  shows "Path mdl = p \<and> (\<forall>i' v'. GetModel i' v' m' = (if version_key i' v' = version_key i v then Some mdl else GetModel i' v' m))"
  by (cases rule: LoadModel_cases[of i v m env cr p ish osh md])
    (use assms in \<open>auto simp: Let_def GetModel_put split: option.splits\<close>)

lemma LoadModelWithS3Support_Inr:
  assumes "LoadModelWithS3Support dl tmp env cr cfg i v (''s3://'' @ p) ish osh md m = (Inr mdl, m')"
  shows "Path mdl = s3_local_path tmp i v \<and>
    (\<forall>i' v'. GetModel i' v' m' = (if version_key i' v' = version_key i v then Some mdl else GetModel i' v' m))"
proof -
  have "has_prefix (''s3://'' @ p) ''s3://''" by (rule has_prefix_append)
  with assms obtain env' where
    "LoadModel env' cr i v (s3_local_path tmp i v) ish osh md m = (Inr mdl, m')"
    unfolding LoadModelWithS3Support_def Let_def
    by (auto split: prod.splits option.splits simp del: append_Cons)
  then show ?thesis by (rule LoadModel_Inr)
qed

text \<open>Two versions of two different models can share their local file: both stay registered, but
  the second remote load has written its object over the file that the first was loaded from.\<close>

theorem s3_versions_share_file:
  assumes "LoadModelWithS3Support dl tmp env cr cfg (a @ ''_'' @ b) c (''s3://'' @ p) ish osh md m = (Inr mdl, m1)"
    and "LoadModelWithS3Support dl tmp env' cr cfg a (b @ ''_'' @ c) (''s3://'' @ q) ish' osh' md' m1 = (Inr mdl', m2)"
    and "c \<noteq> []"
  shows "GetModel (a @ ''_'' @ b) c m2 = Some mdl \<and> GetModel a (b @ ''_'' @ c) m2 = Some mdl' \<and> Path mdl = Path mdl'"
proof -
  have "version_key (a @ ''_'' @ b) c \<noteq> version_key a (b @ ''_'' @ c)" using assms(3) by (simp add: version_key_def)
  then show ?thesis
    using LoadModelWithS3Support_Inr[OF assms(1)] LoadModelWithS3Support_Inr[OF assms(2)]
    by (simp add: s3_local_path_def)
qed

text \<open>A downloader that writes one byte to the local path.\<close>

definition sample_dl :: "s3_config \<Rightarrow> string \<Rightarrow> string \<Rightarrow> string \<Rightarrow> os_env \<Rightarrow> gerr option \<times> os_env" where
  "sample_dl c b k lp env = (None, sample_env lp [1])"

lemma s3_versions_share_file_witness:
  "let r1 = LoadModelWithS3Support sample_dl ''/tmp'' (sample_env [] []) sample_crypto default_config
       (''a'' @ ''_'' @ ''b'') ''c'' (''s3://'' @ ''k1'') [] [] [] NewModelManager;
       r2 = LoadModelWithS3Support sample_dl ''/tmp'' (sample_env [] []) sample_crypto default_config
       ''a'' (''b'' @ ''_'' @ ''c'') (''s3://'' @ ''k2'') [] [] [] (snd r1)
   in \<exists>mdl mdl'. fst r1 = Inr mdl \<and> fst r2 = Inr mdl' \<and> Path mdl = Path mdl' \<and> Version mdl \<noteq> Version mdl'"
proof -
  let ?r1 = "LoadModelWithS3Support sample_dl ''/tmp'' (sample_env [] []) sample_crypto default_config
       (''a'' @ ''_'' @ ''b'') ''c'' (''s3://'' @ ''k1'') [] [] [] NewModelManager"
  let ?r2 = "LoadModelWithS3Support sample_dl ''/tmp'' (sample_env [] []) sample_crypto default_config
       ''a'' (''b'' @ ''_'' @ ''c'') (''s3://'' @ ''k2'') [] [] [] (snd ?r1)"
  have 1: "map_sum id Version (fst ?r1) = Inr ''c''" by code_simp
  have 2: "map_sum id Version (fst ?r2) = Inr ''b_c''" by code_simp
  obtain mdl where m: "fst ?r1 = Inr mdl" "Version mdl = ''c''" using 1 by (cases "fst ?r1") auto
  obtain mdl' where m': "fst ?r2 = Inr mdl'" "Version mdl' = ''b_c''" using 2 by (cases "fst ?r2") auto
  have r: "?r1 = (Inr mdl, snd ?r1)" "?r2 = (Inr mdl', snd ?r2)" using m m' by (metis prod.collapse)+
  have "Path mdl = Path mdl'" using s3_versions_share_file[OF r] by simp
  then show ?thesis using m m' by (simp add: Let_def)
qed

text \<open>Cleaning the cache removes exactly the plain files of the directory whose joined path is not
  to be kept, and removes nothing when the directory cannot be listed.\<close>

theorem cleanup_removes_exactly:
  assumes "readdir d = Inr entries" "d \<noteq> []" "\<forall>en \<in> set entries. plain_name (fst en)"
  shows "\<exists>ps. CleanupLocalModelCache readdir d keep = Inr ps \<and>
     (\<forall>n. plain_name n \<longrightarrow> (path_join d n \<in> set ps \<longleftrightarrow> (n, False) \<in> set entries \<and> path_join d n \<notin> keep))"
proof -
  have "path_join d n \<in> (\<lambda>en. path_join d (fst en)) ` {en \<in> set entries. \<not> snd en} \<longleftrightarrow> (n, False) \<in> set entries"
    if "plain_name n" for n
    using assms(3) that path_join_inject[of n _ d] by force
  then show ?thesis using assms(1) by (auto simp: CleanupLocalModelCache_def)
qed

lemma cleanup_removes_exactly_witness:
  "\<exists>ps. CleanupLocalModelCache (\<lambda>_. Inr [(''a.onnx'', False), (''b.onnx'', False), (''sub'', True)]) ''/cache''
       {''/cache/a.onnx''} = Inr ps \<and> path_join ''/cache'' ''b.onnx'' \<in> set ps \<and> path_join ''/cache'' ''a.onnx'' \<notin> set ps"
proof -
  let ?es = "[(''a.onnx'', False), (''b.onnx'', False), (''sub'', True)]"
  have "\<forall>en \<in> set ?es. plain_name (fst en)" by code_simp
  then obtain ps where ps: "CleanupLocalModelCache (\<lambda>_. Inr ?es) ''/cache'' {''/cache/a.onnx''} = Inr ps"
    "\<And>n. plain_name n \<Longrightarrow> path_join ''/cache'' n \<in> set ps \<longleftrightarrow> (n, False) \<in> set ?es \<and> path_join ''/cache'' n \<notin> {''/cache/a.onnx''}"
    using cleanup_removes_exactly[of "\<lambda>_. Inr ?es" "''/cache''" ?es "{''/cache/a.onnx''}"] by blast
  have "plain_name ''b.onnx''" "path_join ''/cache'' ''b.onnx'' \<notin> {''/cache/a.onnx''}"
    "plain_name ''a.onnx''" "path_join ''/cache'' ''a.onnx'' \<in> {''/cache/a.onnx''}" by code_simp+
  then show ?thesis using ps(1) ps(2)[of "''b.onnx''"] ps(2)[of "''a.onnx''"] by simp
qed

text \<open>A path to keep is compared with the joined, cleaned path: a kept file given as
  \<open>./cache/a.onnx\<close> is removed.\<close>

lemma cleanup_removes_unclean_keep:
  "CleanupLocalModelCache (\<lambda>_. Inr [(''a.onnx'', False)]) ''./cache'' {''./cache/a.onnx''} = Inr [''cache/a.onnx'']"
  by code_simp

end
