(* ===== verification/S3_Registry.thy ===== *)
theory S3_Registry
  imports Model_Manager
begin

text \<open>
  The remote registry (\<open>src/internal/model/s3.go\<close>): download, listing, deletion and upload over the MinIO
  client, whose calls are the record \<open>minio\<close>; its state is that of the remote store. The cleanup of the local
  cache is in \<open>Model_Manager\<close>.
\<close>

section \<open>The client\<close>

text \<open>
  \<open>GetObject\<close> only prepares the object; reading it gives the bytes before an error, if one occurs. \<open>ListObjects\<close>
  is a sequence of keys and errors.
\<close>

record 'c minio =
  new_client :: "s3_config \<Rightarrow> 'c res"
  get_object :: "'c \<Rightarrow> string \<Rightarrow> string \<Rightarrow> unit res"
  read_object :: "'c \<Rightarrow> string \<Rightarrow> string \<Rightarrow> bytes \<times> gerr option"
  list_objects :: "'c \<Rightarrow> string \<Rightarrow> string res list"
  remove_object :: "'c \<Rightarrow> string \<Rightarrow> string \<Rightarrow> gerr option \<times> 'c"
  put_object :: "'c \<Rightarrow> string \<Rightarrow> string \<Rightarrow> bytes \<Rightarrow> gerr option \<times> 'c"

definition write_file :: "string \<Rightarrow> bytes \<Rightarrow> os_env \<Rightarrow> os_env" where
  "write_file p bs env = env\<lparr>fs_open := (fs_open env)(p := Inr ()), fs_read := (fs_read env)(p := Inr bs)\<rparr>"

section \<open>Operations\<close>

text \<open>\<open>create\<close> is the error of \<open>os.Create\<close>; what was copied before an error stays in the file.\<close>

definition DownloadModelFromS3 :: "'c minio \<Rightarrow> (string \<Rightarrow> gerr option) \<Rightarrow> s3_config \<Rightarrow> string \<Rightarrow> string \<Rightarrow> string \<Rightarrow> os_env \<Rightarrow>
    gerr option \<times> os_env" where
  "DownloadModelFromS3 mo create s3 bucket objectKey destPath env = (case new_client mo s3 of
       Inl e \<Rightarrow> (Some e, env)
     | Inr c \<Rightarrow> (case get_object mo c bucket objectKey of
         Inl e \<Rightarrow> (Some e, env)
       | Inr _ \<Rightarrow> (case create destPath of
           Some e \<Rightarrow> (Some e, env)
         | None \<Rightarrow> (case read_object mo c bucket objectKey of (bs, err) \<Rightarrow> (err, write_file destPath bs env)))))"

fun collect_keys :: "string res list \<Rightarrow> string list \<Rightarrow> string list res" where
  "collect_keys [] ms = Inr ms"
| "collect_keys (Inl e # objs) ms = Inl e"
| "collect_keys (Inr k # objs) ms = collect_keys objs (ms @ [k])"

definition ListRemoteModelsS3 :: "'c minio \<Rightarrow> s3_config \<Rightarrow> string list res" where
  "ListRemoteModelsS3 mo s3 = (case new_client mo s3 of
       Inl e \<Rightarrow> Inl e
     | Inr c \<Rightarrow> collect_keys (list_objects mo c (Bucket s3)) [])"

text \<open>The remote store after a change; \<open>None\<close> when no client could be made.\<close>

definition DeleteModelFromS3 :: "'c minio \<Rightarrow> s3_config \<Rightarrow> string \<Rightarrow> gerr option \<times> 'c option" where
  "DeleteModelFromS3 mo s3 objectKey = (case new_client mo s3 of
       Inl e \<Rightarrow> (Some e, None)
     | Inr c \<Rightarrow> (case remove_object mo c (Bucket s3) objectKey of (err, c') \<Rightarrow> (err, Some c')))"

definition UploadModelToS3 :: "'c minio \<Rightarrow> s3_config \<Rightarrow> os_env \<Rightarrow> string \<Rightarrow> string \<Rightarrow> gerr option \<times> 'c option" where
  "UploadModelToS3 mo s3 env localPath objectKey = (case new_client mo s3 of
       Inl e \<Rightarrow> (Some e, None)
     | Inr c \<Rightarrow> (case fs_open env localPath of
         Inl e \<Rightarrow> (Some e, Some c)
       | Inr _ \<Rightarrow> (case fs_read env localPath of
           Inl e \<Rightarrow> (Some e, Some c)
         | Inr bs \<Rightarrow> (case put_object mo c (Bucket s3) objectKey bs of (err, c') \<Rightarrow> (err, Some c')))))"

section \<open>Properties\<close>

lemma collect_keys_Inr: "collect_keys objs ms = Inr ks \<longleftrightarrow> (\<exists>ks'. ks = ms @ ks' \<and> objs = map Inr ks')"
proof (induction objs ms rule: collect_keys.induct)
  case (3 k objs ms)
  then show ?case by (auto simp: Cons_eq_map_conv)
qed auto

text \<open>The listing is complete or an error: it gives keys only when no entry of the store's listing failed.\<close>

theorem remote_listing_complete:
  "ListRemoteModelsS3 mo s3 = Inr ks \<longleftrightarrow> (\<exists>c. new_client mo s3 = Inr c \<and> list_objects mo c (Bucket s3) = map Inr ks)"
  by (auto simp: ListRemoteModelsS3_def collect_keys_Inr split: sum.splits)

text \<open>C29: Loading a remote model ends to end: when the object is read without an error the manager registers a
  model whose path is the local copy and whose checksum is that of the object's bytes; when the copy
  breaks off, the error is returned and nothing is registered, though the part that was read
  is left in the file.\<close>

theorem remote_load_checksum:
  assumes "has_prefix p ''s3://''" "s3_target cfg p = (bucket, objectKey)" "loc = s3_local_path tmp mid ver"
    and "new_client mo (S3 cfg) = Inr c" "get_object mo c bucket objectKey = Inr ()" "create loc = None"
    and "read_object mo c bucket objectKey = (bs, err)" "GetModel mid ver m = None"
    and "LoadModelWithS3Support (DownloadModelFromS3 mo create) tmp env cr cfg mid ver p ish osh [] m = (res, m')"
  shows "(err = None \<longrightarrow> (\<exists>mdl. res = Inr mdl \<and> GetModel mid ver m' = Some mdl \<and> Path mdl = loc \<and>
       kv_get (Metadata mdl) ''sha256'' = Some (GString (hex_encode (sha256_sum cr bs))))) \<and>
     (\<forall>e. err = Some e \<longrightarrow> res = Inl e \<and> m' = m \<and>
       fs_read (snd (DownloadModelFromS3 mo create (S3 cfg) bucket objectKey loc env)) loc = Inr bs)"
proof -
  have d: "DownloadModelFromS3 mo create (S3 cfg) bucket objectKey loc env = (err, write_file loc bs env)"
    using assms(4-7) by (simp add: DownloadModelFromS3_def)
  have nc: "sig_check env' cr (aput ''sha256'' x []) q = None" for env' x q by (rule sig_check_no_config) simp
  show ?thesis
  proof (cases err)
    case None
    then have l: "LoadModel (write_file loc bs env) cr mid ver loc ish osh [] m = (res, m')"
      using assms(9) d by (simp add: LoadModelWithS3Support_def assms(1-3) Let_def)
    have "map_of (models m) (version_key mid ver) = None" using assms(8) by (simp add: GetModel_def)
    then have "res = Inr \<lparr>ID = mid, Version = ver, Path = loc, InputShape = ish, OutputShape = osh,
         Metadata = aput ''sha256'' (GString (hex_encode (sha256_sum cr bs))) []\<rparr> \<and> GetModel mid ver m' =
       Some \<lparr>ID = mid, Version = ver, Path = loc, InputShape = ish, OutputShape = osh,
         Metadata = aput ''sha256'' (GString (hex_encode (sha256_sum cr bs))) []\<rparr>"
      using l by (auto simp: LoadModel_def write_file_def Let_def nc GetModel_def count_load_def)
    then show ?thesis using None by simp
  next
    case (Some e)
    then show ?thesis using assms(9) d by (simp add: LoadModelWithS3Support_def assms(1-3) write_file_def Let_def)
  qed
qed

lemma remote_load_checksum_witness:
  "\<exists>mdl m'. LoadModelWithS3Support (DownloadModelFromS3 \<lparr>new_client = (\<lambda>_. Inr ()), get_object = (\<lambda>_ _ _. Inr ()),
       read_object = (\<lambda>_ _ _. ([1, 2], None)), list_objects = (\<lambda>_ _. []), remove_object = (\<lambda>c _ _. (None, c)),
       put_object = (\<lambda>c _ _ _. (None, c))\<rparr> (\<lambda>_. None)) ''/tmp'' (sample_env ''x'' []) sample_crypto default_config ''a'' ''1''
       ''s3://models/a.onnx'' [] [] [] NewModelManager = (Inr mdl, m') \<and>
     kv_get (Metadata mdl) ''sha256'' = Some (GString (hex_encode (sha256_sum sample_crypto [1, 2])))"
proof -
  let ?mo = "\<lparr>new_client = (\<lambda>_. Inr ()), get_object = (\<lambda>_ _ _. Inr ()),
       read_object = (\<lambda>_ _ _. ([1, 2], None)), list_objects = (\<lambda>_ _. []), remove_object = (\<lambda>c _ _. (None, c)),
       put_object = (\<lambda>c _ _ _. (None, c))\<rparr> :: unit minio"
  let ?l = "LoadModelWithS3Support (DownloadModelFromS3 ?mo (\<lambda>_. None)) ''/tmp'' (sample_env ''x'' []) sample_crypto default_config ''a'' ''1''
       ''s3://models/a.onnx'' [] [] [] NewModelManager"
  have p: "has_prefix ''s3://models/a.onnx'' ''s3://''" "s3_target default_config ''s3://models/a.onnx'' = (''models'', ''a.onnx'')" by code_simp+
  have g: "GetModel ''a'' ''1'' NewModelManager = None" by (simp add: GetModel_def NewModelManager_def)
  have "?l = (fst ?l, snd ?l)" by (simp only: prod.collapse)
  from remote_load_checksum[OF p refl _ _ _ _ g this, of "()" "[1, 2]" None]
  show ?thesis by (metis prod.collapse minio.select_convs(1,2,3))
qed

end
