(* ===== verification/Engine.thy ===== *)
theory Engine
  imports Model_Manager
begin

text \<open>
  The engine interface's shared parts (\<open>src/internal/inference/engine.go\<close>): predictions, the base
  engine with its own map of models beside the model manager it owns, and the mock engine. The base
  engine interprets the registry contract, both engines the contract \<open>inference_engine\<close> of the interface.
\<close>

section \<open>Predictions\<close>

record prediction =
  ModelID :: string
  PVersion :: string
  Output :: goval
  PMetadata :: goval
  Latency :: int

section \<open>The base engine\<close>

record base_engine =
  be_models :: "(string \<times> model) list"
  modelManager :: model_manager

definition NewBaseEngine :: base_engine where
  "NewBaseEngine = \<lparr>be_models = [], modelManager = NewModelManager\<rparr>"

definition be_GetModel :: "base_engine \<Rightarrow> string \<Rightarrow> string \<Rightarrow> model res" where
  "be_GetModel e modelID version = (case map_of (be_models e) (version_key modelID version) of
       None \<Rightarrow> Inl ErrModelNotFound
     | Some m \<Rightarrow> Inr m)"

definition be_LoadModel :: "model \<Rightarrow> base_engine \<Rightarrow> gerr option \<times> base_engine" where
  "be_LoadModel m e = (let key = version_key (ID m) (Version m) in
     if map_of (be_models e) key \<noteq> None then (Some ErrModelAlreadyExists, e)
     else (None, e\<lparr>be_models := aput key m (be_models e)\<rparr>))"

definition be_UnloadModel :: "string \<Rightarrow> string \<Rightarrow> base_engine \<Rightarrow> gerr option \<times> base_engine" where
  "be_UnloadModel modelID version e = (let key = version_key modelID version in
     if map_of (be_models e) key = None then (Some ErrModelNotFound, e)
     else (None, e\<lparr>be_models := adel key (be_models e)\<rparr>))"

definition be_Predict :: "string \<Rightarrow> string \<Rightarrow> goval \<Rightarrow> prediction res" where
  "be_Predict modelID version input = Inl ErrNotImplemented"

definition be_BatchPredict :: "string \<Rightarrow> string \<Rightarrow> goval list \<Rightarrow> prediction list res" where
  "be_BatchPredict modelID version inputs = Inl ErrNotImplemented"

definition be_GetModelInfo :: "base_engine \<Rightarrow> string \<Rightarrow> string \<Rightarrow> model res" where
  "be_GetModelInfo e modelID version = (case map_of (be_models e) (version_key modelID version) of
       None \<Rightarrow> Inl ErrModelNotFound
     | Some m \<Rightarrow> Inr m)"

definition be_ListModels :: "base_engine \<Rightarrow> string list" where
  "be_ListModels e = map fst (be_models e)"

text \<open>With tracing, loads and unloads go to the model manager only.\<close>

definition be_LoadModelWithTracing :: "os_env \<Rightarrow> crypto \<Rightarrow> model \<Rightarrow> base_engine \<Rightarrow> gerr option \<times> base_engine" where
  "be_LoadModelWithTracing env cr m e =
     (case LoadModel env cr (ID m) (Version m) (Path m) (InputShape m) (OutputShape m) (Metadata m) (modelManager e) of
        (Inl err, mm) \<Rightarrow> (Some err, e\<lparr>modelManager := mm\<rparr>)
      | (Inr _, mm) \<Rightarrow> (None, e\<lparr>modelManager := mm\<rparr>))"

definition be_UnloadModelWithTracing :: "string \<Rightarrow> string \<Rightarrow> base_engine \<Rightarrow> gerr option \<times> base_engine" where
  "be_UnloadModelWithTracing modelID version e =
     (case UnloadModel modelID version (modelManager e) of (err, mm) \<Rightarrow> (err, e\<lparr>modelManager := mm\<rparr>))"

section \<open>The mock engine\<close>

text \<open>It keeps no state; a pointer result of \<open>nil\<close> is \<open>None\<close>.\<close>

definition mock_LoadModel :: "model \<Rightarrow> gerr option" where
  "mock_LoadModel m = None"

definition mock_GetModel :: "string \<Rightarrow> string \<Rightarrow> model option res" where
  "mock_GetModel modelID version = Inr None"

definition mock_UnloadModel :: "string \<Rightarrow> string \<Rightarrow> gerr option" where
  "mock_UnloadModel modelID version = None"

definition mock_Predict :: "string \<Rightarrow> string \<Rightarrow> goval \<Rightarrow> prediction res" where
  "mock_Predict modelID version input =
     Inr \<lparr>ModelID = modelID, PVersion = [], Output = input, PMetadata = GNil, Latency = 1\<rparr>"

definition mock_BatchPredict :: "string \<Rightarrow> string \<Rightarrow> goval list \<Rightarrow> prediction list res" where
  "mock_BatchPredict modelID version inputs = Inr []"

definition mock_ListModels :: "string list" where
  "mock_ListModels = [''test_model'']"

section \<open>The contract of an engine\<close>

text \<open>
  What the callers of the interface \<open>Engine\<close> rely on when they predict: in a \<open>ready\<close> state every call returns a
  prediction or an error (it neither panics nor blocks), and a prediction names the model that was asked for.
\<close>

locale inference_engine =
  fixes predict :: "'e \<Rightarrow> string \<Rightarrow> string \<Rightarrow> goval \<Rightarrow> prediction res outcome"
    and ready :: "'e \<Rightarrow> bool"
  assumes returns: "ready e \<Longrightarrow> \<exists>r. predict e m v x = Done r"
    and names_model: "predict e m v x = Done (Inr p) \<Longrightarrow> ModelID p = m"
begin

lemma answer_cases:
  assumes "ready e"
  obtains (error) err where "predict e m v x = Done (Inl err)"
  | (result) p where "predict e m v x = Done (Inr p)" "ModelID p = m"
proof -
  obtain r where r: "predict e m v x = Done r" using returns[OF assms] by blast
  show ?thesis using that r names_model by (cases r) blast+
qed

end

interpretation base: inference_engine "\<lambda>e :: base_engine. \<lambda>m v x. Done (be_Predict m v x)" "\<lambda>_. True"
  by unfold_locales (simp_all add: be_Predict_def)

interpretation mock: inference_engine "\<lambda>e :: unit. \<lambda>m v x. Done (mock_Predict m v x)" "\<lambda>_. True"
  by unfold_locales (auto simp: mock_Predict_def)

section \<open>The registry contract\<close>

definition be_get :: "base_engine \<Rightarrow> string \<Rightarrow> string \<Rightarrow> model option" where
  "be_get e i v = (case be_GetModel e i v of Inl _ \<Rightarrow> None | Inr m \<Rightarrow> Some m)"

definition be_load :: "model \<Rightarrow> string \<Rightarrow> string \<Rightarrow> base_engine \<Rightarrow> gerr option \<times> base_engine" where
  "be_load x i v e = be_LoadModel (x\<lparr>ID := i, Version := v\<rparr>) e"

lemma be_get_key: "be_get e i v = map_of (be_models e) (version_key i v)"
  by (simp add: be_get_def be_GetModel_def split: option.split)

lemma be_GetModel_Inr: "be_GetModel e i v = Inr m \<longleftrightarrow> be_get e i v = Some m"
  by (simp add: be_get_def be_GetModel_def split: option.split)

interpretation be: model_registry be_get be_load be_UnloadModel
  by unfold_locales
    (auto simp: be_get_key be_load_def be_LoadModel_def be_UnloadModel_def Let_def fun_eq_iff split: if_splits)

section \<open>Properties\<close>

text \<open>A model that the base engine loads is found under its version until it is unloaded, loading it
  a second time fails and changes nothing, and after the unload every lookup is as it was before the
  load.\<close>

theorem base_engine_load_unload:
  assumes "be_LoadModel m e = (None, e')"
  shows "be_GetModel e' (ID m) (Version m) = Inr m \<and>
         (version_key (ID m') (Version m') = version_key (ID m) (Version m) \<longrightarrow>
            be_LoadModel m' e' = (Some ErrModelAlreadyExists, e')) \<and>
         fst (be_UnloadModel (ID m) (Version m) e') = None \<and>
         be_GetModel (snd (be_UnloadModel (ID m) (Version m) e')) i v = be_GetModel e i v"
proof -
  have l: "be_load m (ID m) (Version m) e = (None, e')" using assms by (simp add: be_load_def)
  have "be_get (snd (be_UnloadModel (ID m) (Version m) e')) = be_get e" "fst (be_UnloadModel (ID m) (Version m) e') = None"
    using be.load_unload[OF l] by auto
  then have "be_GetModel (snd (be_UnloadModel (ID m) (Version m) e')) i v = be_GetModel e i v"
    by (simp add: fun_eq_iff be_get_key be_GetModel_def)
  moreover have "be_GetModel e' (ID m) (Version m) = Inr m"
    using assms by (auto simp: be_LoadModel_def be_GetModel_def Let_def split: if_splits)
  ultimately show ?thesis
    using \<open>fst (be_UnloadModel (ID m) (Version m) e') = None\<close>
    by (auto simp: be_LoadModel_def be_GetModel_def Let_def split: option.splits)
qed

lemma base_engine_load_unload_witness:
  "let m = \<lparr>ID = ''a'', Version = ''1'', Path = ''p'', InputShape = [], OutputShape = [], Metadata = []\<rparr>;
       e' = snd (be_LoadModel m NewBaseEngine)
   in be_GetModel e' ''a'' ''1'' = Inr m \<and>
      be_GetModel (snd (be_UnloadModel ''a'' ''1'' e')) ''a'' ''1'' = Inl ErrModelNotFound"
proof -
  let ?m = "\<lparr>ID = ''a'', Version = ''1'', Path = ''p'', InputShape = [], OutputShape = [], Metadata = []\<rparr>"
  have "be_LoadModel ?m NewBaseEngine = (None, snd (be_LoadModel ?m NewBaseEngine))"
    by (simp add: be_LoadModel_def NewBaseEngine_def)
  from base_engine_load_unload[OF this, of ?m "''a''" "''1''"] show ?thesis
    by (simp add: Let_def) (simp add: be_GetModel_def NewBaseEngine_def)
qed

text \<open>The tracing variants do not touch the engine's own map: a model loaded with tracing is not found
  by the base engine.\<close>

lemma be_tracing_not_visible: "be_get (snd (be_LoadModelWithTracing env cr m e)) = be_get e"
  by (auto simp: be_LoadModelWithTracing_def be_get_key fun_eq_iff split: prod.splits sum.splits)

end
