(* ===== verification/Tensors.thy ===== *)
theory Tensors
  imports Go_Values
begin

text \<open>
  Tensors and their conversions (\<open>src/internal/inference/onnx_runtime.go\<close>): allocating the input and
  output tensors of a session, flattening a request to a \<open>[]float64\<close>, writing it into a typed
  tensor, reading a typed tensor back, and matching a request with the inputs of a model. A tensor is
  its typed buffer and its shape. Of the ONNX Runtime binding, \<open>Shape.FlattenedSize\<close> and
  \<open>NewTensor\<close> are parameters; the value of a conversion from a float outside the range of the
  integer type, which the language leaves to the implementation, is the parameter \<open>oor\<close>.
\<close>

section \<open>Data\<close>

datatype dtype = Float | Double | Int8 | Uint8 | Int16 | Uint16 | Int32 | Uint32 | Int64 | Uint64 | Bool
  | OtherType nat

datatype tdata =
    TF32 "fp list"
  | TF64 "fp list"
  | TI8 "8 word list"
  | TU8 "8 word list"
  | TI16 "16 word list"
  | TU16 "16 word list"
  | TI32 "32 word list"
  | TU32 "32 word list"
  | TI64 "64 word list"
  | TU64 "64 word list"
  | TBool "bool list"
  | TOther

datatype tensor = Tensor (tdat: tdata) (tshape: "64 word list")

fun tdtype :: "tdata \<Rightarrow> dtype" where
  "tdtype (TF32 _) = Float"
| "tdtype (TF64 _) = Double"
| "tdtype (TI8 _) = Int8"
| "tdtype (TU8 _) = Uint8"
| "tdtype (TI16 _) = Int16"
| "tdtype (TU16 _) = Uint16"
| "tdtype (TI32 _) = Int32"
| "tdtype (TU32 _) = Uint32"
| "tdtype (TI64 _) = Int64"
| "tdtype (TU64 _) = Uint64"
| "tdtype (TBool _) = Bool"
| "tdtype TOther = OtherType 0"

fun tlen :: "tdata \<Rightarrow> nat" where
  "tlen (TF32 d) = length d"
| "tlen (TF64 d) = length d"
| "tlen (TI8 d) = length d"
| "tlen (TU8 d) = length d"
| "tlen (TI16 d) = length d"
| "tlen (TU16 d) = length d"
| "tlen (TI32 d) = length d"
| "tlen (TU32 d) = length d"
| "tlen (TI64 d) = length d"
| "tlen (TU64 d) = length d"
| "tlen (TBool d) = length d"
| "tlen TOther = 0"

section \<open>Allocation\<close>

text \<open>
  What the binding and the runtime decide: the element count of a shape, the longest slice that
  \<open>make\<close> can allocate, and \<open>NewTensor\<close> on a buffer.
\<close>

record tensor_env =
  flattened_size :: "64 word list \<Rightarrow> 64 word"
  max_len :: nat
  new_tensor :: "64 word list \<Rightarrow> tdata \<Rightarrow> tensor res"

fun zero_data :: "dtype \<Rightarrow> nat \<Rightarrow> tdata option" where
  "zero_data Float n = Some (TF32 (replicate n (FFin 0)))"
| "zero_data Double n = Some (TF64 (replicate n (FFin 0)))"
| "zero_data Int8 n = Some (TI8 (replicate n 0))"
| "zero_data Uint8 n = Some (TU8 (replicate n 0))"
| "zero_data Int16 n = Some (TI16 (replicate n 0))"
| "zero_data Uint16 n = Some (TU16 (replicate n 0))"
| "zero_data Int32 n = Some (TI32 (replicate n 0))"
| "zero_data Uint32 n = Some (TU32 (replicate n 0))"
| "zero_data Int64 n = Some (TI64 (replicate n 0))"
| "zero_data Uint64 n = Some (TU64 (replicate n 0))"
| "zero_data Bool n = Some (TBool (replicate n False))"
| "zero_data (OtherType _) n = None"

fun dtype_code :: "dtype \<Rightarrow> int" where
  "dtype_code (OtherType k) = int k"
| "dtype_code _ = 0"

text \<open>\<open>make\<close> with a negative or too large length panics; the error names the side of the model.\<close>

definition new_zero_tensor :: "tensor_env \<Rightarrow> string \<Rightarrow> dtype \<Rightarrow> 64 word list \<Rightarrow> tensor res outcome" where
  "new_zero_tensor te err dt dims =
     (let n = sint (flattened_size te dims) in
      case zero_data dt (nat n) of
        None \<Rightarrow> Done (Inl (Errorf err [GInt (dtype_code dt)]))
      | Some d \<Rightarrow> if n < 0 \<or> int (max_len te) < n then Panic else Done (new_tensor te dims d))"

definition newInputTensor :: "tensor_env \<Rightarrow> dtype \<Rightarrow> 64 word list \<Rightarrow> tensor res outcome" where
  "newInputTensor te dt dims = new_zero_tensor te ''unsupported input tensor dtype: %v'' dt dims"

definition newOutputTensor :: "tensor_env \<Rightarrow> dtype \<Rightarrow> 64 word list \<Rightarrow> tensor res outcome" where
  "newOutputTensor te dt dims = new_zero_tensor te ''unsupported output tensor dtype: %v'' dt dims"

section \<open>Reading a request\<close>

definition bool_f64 :: "bool \<Rightarrow> fp" where
  "bool_f64 b = (if b then FFin 1 else FFin 0)"

fun flattenInput :: "goval \<Rightarrow> fp list res" where
  "flattenInput (GF32s v) = Inr (map (fcvt F64) v)"
| "flattenInput (GF32ss v) = Inr (map (fcvt F64) (concat v))"
| "flattenInput (GF64s v) = Inr v"
| "flattenInput (GF64ss v) = Inr (concat v)"
| "flattenInput (GI8s v) = Inr (map (\<lambda>x. fof_int F64 (sint x)) v)"
| "flattenInput (GU8s v) = Inr (map (\<lambda>x. fof_int F64 (uint x)) v)"
| "flattenInput (GI32s v) = Inr (map (\<lambda>x. fof_int F64 (sint x)) v)"
| "flattenInput (GI64s v) = Inr (map (\<lambda>x. fof_int F64 (sint x)) v)"
| "flattenInput (GBools v) = Inr (map bool_f64 v)"
| "flattenInput v =
     Inl (Errorf ''unsupported input type: %T, expected a numeric slice or map[string]interface{}'' [v])"

lemma flattenInput_untyped: "\<not> is_typed_slice v \<Longrightarrow>
    flattenInput v = Inl (Errorf ''unsupported input type: %T, expected a numeric slice or map[string]interface{}'' [v])"
  by (cases v) simp_all

section \<open>Writing and reading a tensor\<close>

text \<open>The conversion of a \<open>float64\<close> to an integer type with the given range.\<close>

definition f2i :: "(fp \<Rightarrow> int) \<Rightarrow> int \<Rightarrow> int \<Rightarrow> fp \<Rightarrow> int" where
  "f2i oor lo hi x = (if is_fin x \<and> lo \<le> ftrunc (fval x) \<and> ftrunc (fval x) \<le> hi then ftrunc (fval x) else oor x)"

fun convert_to :: "(dtype \<Rightarrow> fp \<Rightarrow> int) \<Rightarrow> tdata \<Rightarrow> fp list \<Rightarrow> tdata" where
  "convert_to oor (TF32 _) flat = TF32 (map (fcvt F32) flat)"
| "convert_to oor (TF64 _) flat = TF64 flat"
| "convert_to oor (TI8 _) flat = TI8 (map (\<lambda>x. word_of_int (f2i (oor Int8) (- (2 ^ 7)) (2 ^ 7 - 1) x)) flat)"
| "convert_to oor (TU8 _) flat = TU8 (map (\<lambda>x. word_of_int (f2i (oor Uint8) 0 (2 ^ 8 - 1) x)) flat)"
| "convert_to oor (TI16 _) flat = TI16 (map (\<lambda>x. word_of_int (f2i (oor Int16) (- (2 ^ 15)) (2 ^ 15 - 1) x)) flat)"
| "convert_to oor (TU16 _) flat = TU16 (map (\<lambda>x. word_of_int (f2i (oor Uint16) 0 (2 ^ 16 - 1) x)) flat)"
| "convert_to oor (TI32 _) flat = TI32 (map (\<lambda>x. word_of_int (f2i (oor Int32) (- (2 ^ 31)) (2 ^ 31 - 1) x)) flat)"
| "convert_to oor (TU32 _) flat = TU32 (map (\<lambda>x. word_of_int (f2i (oor Uint32) 0 (2 ^ 32 - 1) x)) flat)"
| "convert_to oor (TI64 _) flat = TI64 (map (\<lambda>x. word_of_int (f2i (oor Int64) (- (2 ^ 63)) (2 ^ 63 - 1) x)) flat)"
| "convert_to oor (TU64 _) flat = TU64 (map (\<lambda>x. word_of_int (f2i (oor Uint64) 0 (2 ^ 64 - 1) x)) flat)"
| "convert_to oor (TBool _) flat = TBool (map (\<lambda>x. \<not> feq x (FFin 0)) flat)"
| "convert_to oor TOther flat = TOther"

text \<open>The size is compared before anything is written.\<close>

definition fillTensor :: "(dtype \<Rightarrow> fp \<Rightarrow> int) \<Rightarrow> tensor \<Rightarrow> fp list \<Rightarrow> tensor res" where
  "fillTensor oor t flat =
     (if tdat t = TOther then Inl (Errorf ''unsupported tensor type %T'' [GString ''tensor''])
      else if tlen (tdat t) \<noteq> length flat then
        Inl (Errorf ''input size %d does not match tensor size %d'' [GInt (int (length flat)), GInt (int (tlen (tdat t)))])
      else Inr (Tensor (convert_to oor (tdat t) flat) (tshape t)))"

fun tdata_val :: "tdata \<Rightarrow> goval option" where
  "tdata_val (TF32 d) = Some (GF32s d)"
| "tdata_val (TF64 d) = Some (GF64s d)"
| "tdata_val (TI8 d) = Some (GI8s d)"
| "tdata_val (TU8 d) = Some (GU8s d)"
| "tdata_val (TI16 d) = Some (GI16s d)"
| "tdata_val (TU16 d) = Some (GU16s d)"
| "tdata_val (TI32 d) = Some (GI32s d)"
| "tdata_val (TU32 d) = Some (GU32s d)"
| "tdata_val (TI64 d) = Some (GI64s d)"
| "tdata_val (TU64 d) = Some (GU64s d)"
| "tdata_val (TBool d) = Some (GBools d)"
| "tdata_val TOther = None"

definition readTensor :: "tensor \<Rightarrow> (goval \<times> 64 word list) res" where
  "readTensor t = (case tdata_val (tdat t) of
       Some v \<Rightarrow> Inr (v, tshape t)
     | None \<Rightarrow> Inl (Errorf ''unsupported tensor type %T'' [GString ''tensor'']))"

section \<open>Requests and model inputs\<close>

fun resolve_named :: "(string \<times> goval) list \<Rightarrow> string list \<Rightarrow> fp list list res" where
  "resolve_named named [] = Inr []"
| "resolve_named named (name # names) = (case kv_get named name of
       None \<Rightarrow> Inl (Errorf ''missing input %q'' [GString name])
     | Some raw \<Rightarrow> (case flattenInput raw of
           Inl e \<Rightarrow> Inl (Errorw ''input %q: %w'' [GString name] e)
         | Inr flat \<Rightarrow> (case resolve_named named names of Inl e \<Rightarrow> Inl e | Inr r \<Rightarrow> Inr (flat # r))))"

fun as_named :: "goval \<Rightarrow> (string \<times> goval) list option" where
  "as_named (GMap named) = Some named"
| "as_named _ = None"

definition resolveInputs :: "string \<Rightarrow> string list \<Rightarrow> goval \<Rightarrow> fp list list res" where
  "resolveInputs modelID inputNames input = (case as_named input of
       Some named \<Rightarrow> resolve_named named inputNames
     | None \<Rightarrow>
         if length inputNames \<noteq> 1 then
           Inl (Errorf ''model %s has %d inputs; pass map[string]interface{} keyed by input name''
             [GString modelID, GInt (int (length inputNames))])
         else (case flattenInput input of Inl e \<Rightarrow> Inl e | Inr flat \<Rightarrow> Inr [flat]))"

section \<open>Lemmas\<close>

lemma convert_to_shape [simp]: "tlen (tdat t) = length flat \<Longrightarrow> tlen (convert_to oor (tdat t) flat) = tlen (tdat t)"
  "tdtype (convert_to oor d flat) = tdtype d"
  by (cases "tdat t"; simp) (cases d; simp)

text \<open>Filling keeps type, shape and size of a tensor.\<close>

lemma fillTensor_keeps: "fillTensor oor t flat = Inr t' \<Longrightarrow>
    tdtype (tdat t') = tdtype (tdat t) \<and> tshape t' = tshape t \<and> tlen (tdat t') = tlen (tdat t)"
  by (auto simp: fillTensor_def split: if_splits)

lemma fillTensor_Inr_iff: "(\<exists>t'. fillTensor oor t flat = Inr t') \<longleftrightarrow> tdat t \<noteq> TOther \<and> tlen (tdat t) = length flat"
  by (auto simp: fillTensor_def)

lemma fof_int_f2i: "\<bar>n\<bar> \<le> 2 ^ 53 \<Longrightarrow> lo \<le> n \<Longrightarrow> n \<le> hi \<Longrightarrow> f2i oor lo hi (fof_int F64 n) = n"
  using fof_int_exact[of n F64] by (simp add: f2i_def)

lemma resolve_named_length: "resolve_named named names = Inr r \<Longrightarrow> length r = length names"
  by (induction names arbitrary: r) (auto split: option.splits sum.splits)

lemma resolveInputs_length: "resolveInputs mid names v = Inr r \<Longrightarrow> length r = length names"
  by (auto simp: resolveInputs_def resolve_named_length split: option.splits sum.splits if_splits)

text \<open>
  The request types that a tensor type represents: \<open>float32\<close>, \<open>float64\<close>, \<open>int8\<close>, \<open>uint8\<close>,
  \<open>int32\<close> and \<open>bool\<close> slices always, \<open>int64\<close> slices while every element fits in 53 bits.
\<close>

fun exact_data :: "tdata \<Rightarrow> bool" where
  "exact_data (TF32 v) = list_all (fwf F32) v"
| "exact_data (TF64 v) = True"
| "exact_data (TI8 v) = True"
| "exact_data (TU8 v) = True"
| "exact_data (TI32 v) = True"
| "exact_data (TI64 v) = list_all (\<lambda>x. \<bar>sint x\<bar> \<le> 2 ^ 53) v"
| "exact_data (TBool v) = True"
| "exact_data _ = False"

definition lossless :: "goval \<Rightarrow> tdata \<Rightarrow> bool" where
  "lossless v d \<longleftrightarrow> (\<exists>c. tdata_val c = Some v \<and> exact_data c \<and> tdtype c = tdtype d \<and> tlen c = tlen d)"

lemma sint_round: "\<bar>sint (x :: 'a::len word)\<bar> \<le> 2 ^ 53 \<Longrightarrow> lo = - (2 ^ (LENGTH('a) - 1)) \<Longrightarrow>
    hi = 2 ^ (LENGTH('a) - 1) - 1 \<Longrightarrow> word_of_int (f2i oor lo hi (fof_int F64 (sint x))) = x"
  using sint_greater_eq[of x] sint_less[of x] by (subst fof_int_f2i) simp_all

lemma uint_round:
  assumes "(2::int) ^ LENGTH('a) \<le> 2 ^ 53"
  shows "word_of_int (f2i oor 0 (2 ^ LENGTH('a) - 1) (fof_int F64 (uint x))) = (x :: 'a::len word)"
proof -
  have "0 \<le> uint x" "uint x < 2 ^ LENGTH('a)" by (simp_all add: unsigned_less)
  then have "\<bar>uint x\<bar> \<le> 2 ^ 53" "0 \<le> uint x" "uint x \<le> 2 ^ LENGTH('a) - 1" using assms by linarith+
  then show ?thesis by (simp only: fof_int_f2i) simp
qed

lemma sint_small: "LENGTH('a) \<le> 54 \<Longrightarrow> \<bar>sint (x :: 'a::len word)\<bar> \<le> 2 ^ 53"
proof -
  assume h: "LENGTH('a) \<le> 54"
  have "\<bar>sint x\<bar> \<le> 2 ^ (LENGTH('a) - 1)" using sint_greater_eq[of x] sint_less[of x] by simp
  also have "\<dots> \<le> (2::int) ^ 53" using h by (intro power_increasing) auto
  finally show ?thesis .
qed

lemma map_id_on: "(\<And>x. x \<in> set v \<Longrightarrow> f x = x) \<Longrightarrow> map f v = v"
  by (induction v) auto

lemma bool_f64_ne: "(\<not> feq (bool_f64 b) (FFin 0)) = b"
  by (cases b) (simp_all add: bool_f64_def)

lemma convert_to_dtype: "tdtype c = tdtype d \<Longrightarrow> convert_to oor d flat = convert_to oor c flat"
  by (cases c; cases d) simp_all

lemma exact_convert:
  assumes "tdata_val c = Some v" "exact_data c"
  shows "\<exists>flat. flattenInput v = Inr flat \<and> length flat = tlen c \<and> convert_to oor c flat = c"
proof (cases c)
  case (TF32 xs)
  then show ?thesis using assms by (auto simp: list_all_iff fcvt_narrow_widen intro!: map_id_on)
next
  case (TI8 xs)
  have "word_of_int (f2i (oor Int8) (- (2 ^ 7)) (2 ^ 7 - 1) (fof_int F64 (sint x))) = x" for x :: "8 word"
    by (rule sint_round) (simp_all add: sint_small[of x, simplified])
  then show ?thesis using TI8 assms by (auto intro!: map_id_on)
next
  case (TU8 xs)
  have "word_of_int (f2i (oor Uint8) 0 (2 ^ 8 - 1) (fof_int F64 (uint x))) = x" for x :: "8 word"
    using uint_round[of "oor Uint8" x] by simp
  then show ?thesis using TU8 assms by (auto intro!: map_id_on)
next
  case (TI32 xs)
  have "word_of_int (f2i (oor Int32) (- (2 ^ 31)) (2 ^ 31 - 1) (fof_int F64 (sint x))) = x" for x :: "32 word"
    by (rule sint_round) (simp_all add: sint_small[of x, simplified])
  then show ?thesis using TI32 assms by (auto intro!: map_id_on)
next
  case (TI64 xs)
  have "word_of_int (f2i (oor Int64) (- (2 ^ 63)) (2 ^ 63 - 1) (fof_int F64 (sint x))) = x"
    if "\<bar>sint x\<bar> \<le> 2 ^ 53" for x :: "64 word"
    by (rule sint_round) (use that in simp_all)
  then show ?thesis using TI64 assms by (auto simp: list_all_iff intro!: map_id_on)
next
  case (TBool xs)
  then show ?thesis using assms by (auto simp: bool_f64_ne intro!: map_id_on)
qed (use assms in auto)

lemma lossless_convert:
  assumes "lossless v d"
  shows "\<exists>flat. flattenInput v = Inr flat \<and> length flat = tlen d \<and> d \<noteq> TOther \<and>
    tdata_val (convert_to oor d flat) = Some v"
proof -
  obtain c where c: "tdata_val c = Some v" "exact_data c" "tdtype c = tdtype d" "tlen c = tlen d"
    using assms by (auto simp: lossless_def)
  have "d \<noteq> TOther" using c by (cases c) auto
  with exact_convert[OF c(1,2), of oor] c convert_to_dtype[OF c(3)] show ?thesis by fastforce
qed

section \<open>Properties\<close>

text \<open>C13: A request in a slice type that the tensor represents survives the way through \<open>float64\<close>:
  flattening it, writing it into a tensor of its size and reading the tensor back gives the same
  slice, element for element, and the shape of the tensor.\<close>

theorem tensor_round_trip:
  assumes "lossless v (tdat t)"
  shows "\<exists>flat t'. flattenInput v = Inr flat \<and> fillTensor oor t flat = Inr t' \<and> readTensor t' = Inr (v, tshape t)"
  using lossless_convert[OF assms, of oor] by (fastforce simp: fillTensor_def readTensor_def)

lemma tensor_round_trip_witness:
  "\<exists>flat t'. flattenInput (GI8s [127, 128, 255]) = Inr flat \<and>
     fillTensor (\<lambda>_ _. 0) (Tensor (TI8 [0, 0, 0]) [1, 3]) flat = Inr t' \<and>
     readTensor t' = Inr (GI8s [127, 128, 255], [1, 3])"
proof -
  have "lossless (GI8s [127, 128, 255]) (tdat (Tensor (TI8 [0, 0, 0]) [1, 3]))"
    unfolding lossless_def by (rule exI[of _ "TI8 [127, 128, 255]"]) simp
  then show ?thesis using tensor_round_trip[of _ "Tensor (TI8 [0, 0, 0]) [1, 3]"] by fastforce
qed

text \<open>An \<open>int64\<close> input does not survive it: \<open>2\<^sup>5\<^sup>3 + 1\<close>, a legal value of an \<open>int64\<close> tensor, reaches
  the model as \<open>2\<^sup>5\<^sup>3\<close>, without an error.\<close>

theorem int64_input_rounded:
  "\<exists>flat. flattenInput (GI64s [2 ^ 53 + 1]) = Inr flat \<and>
     fillTensor oor (Tensor (TI64 [0]) [1]) flat = Inr (Tensor (TI64 [2 ^ 53]) [1])"
proof -
  have f: "flattenInput (GI64s [2 ^ 53 + 1]) = Inr [FFin (2 ^ 53)]" by code_simp
  have "ftrunc (2 ^ 53) = 2 ^ 53" using ftrunc_of_int[of "2 ^ 53"] by simp
  then have "f2i (oor Int64) (- (2 ^ 63)) (2 ^ 63 - 1) (FFin (2 ^ 53)) = 2 ^ 53" by (simp add: f2i_def)
  then show ?thesis using f by (simp add: fillTensor_def)
qed

text \<open>A model with a dynamic dimension cannot be loaded: with the usual \<open>-1\<close> for the batch
  dimension the element count is negative, and allocating the input tensor panics instead of
  returning an error.\<close>

theorem dynamic_dimension_panics:
  assumes "sint (flattened_size te dims) < 0" and "zero_data dt 0 \<noteq> None"
  shows "newInputTensor te dt dims = Panic \<and> newOutputTensor te dt dims = Panic"
  using assms by (cases dt) (simp_all add: newInputTensor_def newOutputTensor_def new_zero_tensor_def)

lemma dynamic_dimension_panics_witness:
  "newInputTensor \<lparr>flattened_size = (\<lambda>ds. prod_list ds), max_len = 1000, new_tensor = (\<lambda>s d. Inr (Tensor d s))\<rparr>
     Float [-1, 10] = Panic"
  using dynamic_dimension_panics[of "\<lparr>flattened_size = (\<lambda>ds. prod_list ds), max_len = 1000, new_tensor = (\<lambda>s d. Inr (Tensor d s))\<rparr>"
      "[-1, 10]" Float] by simp

text \<open>A request resolves to one flat slice per model input, in the order of the model's inputs: a
  map must have every input name, and a bare slice stands for the only input of the model.\<close>

theorem resolveInputs_spec:
  "resolveInputs mid names v = Inr r \<longleftrightarrow>
     (case as_named v of
        Some named \<Rightarrow> list_all2 (\<lambda>name flat. \<exists>raw. kv_get named name = Some raw \<and> flattenInput raw = Inr flat) names r
      | None \<Rightarrow> length names = 1 \<and> (\<exists>flat. flattenInput v = Inr flat \<and> r = [flat]))"
proof (cases "as_named v")
  case None
  then show ?thesis by (auto simp: resolveInputs_def split: sum.splits)
next
  case (Some named)
  have "resolve_named named names = Inr r \<longleftrightarrow>
      list_all2 (\<lambda>name flat. \<exists>raw. kv_get named name = Some raw \<and> flattenInput raw = Inr flat) names r" for r
  proof (induction names arbitrary: r)
    case (Cons n ns)
    show ?case unfolding list_all2_Cons1 Cons.IH[symmetric] by (auto split: option.splits sum.splits)
  qed auto
  then show ?thesis using Some by (simp add: resolveInputs_def)
qed

end
