(* ===== verification/ONNX_Engine.thy ===== *)
theory ONNX_Engine
  imports Engine Tensors
begin

text \<open>
  The ONNX Runtime engine (\<open>src/internal/inference/onnx_runtime.go\<close>): finding the shared library, the
  keys of the registry, session options, creating the pool of session slots of a model, loading and
  unloading, prediction on a slot of the pool, sequential batches, and the model listings. The
  binding \<open>onnxruntime_go\<close> is the parameter \<open>ort\<close>; a channel of slots is the list of slots in it.
  The interleaving of requests on one pool is in \<open>Session_Pool\<close>.
\<close>

section \<open>The shared library\<close>

text \<open>The home directory is a parameter; \<open>stat\<close> says which files \<open>os.Stat\<close> finds.\<close>

definition wellKnownONNXRuntimePaths :: "string \<Rightarrow> string list" where
  "wellKnownONNXRuntimePaths home =
     [''/opt/onnxruntime/lib/libonnxruntime.so'', ''/usr/local/lib/libonnxruntime.so'',
      ''/usr/lib/libonnxruntime.so'', ''/usr/lib/x86_64-linux-gnu/libonnxruntime.so'',
      path_join home ''onnxruntime/onnxruntime-linux-x64-1.22.0/lib/libonnxruntime.so'']"

fun first_found :: "(string \<Rightarrow> bool) \<Rightarrow> string list \<Rightarrow> string list \<Rightarrow> string \<times> string list" where
  "first_found stat tried [] = ([], tried)"
| "first_found stat tried (p # ps) = (if stat p then (p, tried @ [p]) else first_found stat (tried @ [p]) ps)"

definition resolveONNXRuntimeLibPath ::
    "(string \<Rightarrow> bool) \<Rightarrow> string \<Rightarrow> string \<Rightarrow> config option \<Rightarrow> string \<times> string list" where
  "resolveONNXRuntimeLibPath stat home ORT_LIB_PATH appConfig =
     (let env = ORT_LIB_PATH;
          tried = (if env \<noteq> [] then [env] else []) in
      if env \<noteq> [] \<and> stat env then (env, tried)
      else
        (let lib = (case appConfig of Some c \<Rightarrow> LibPath c | None \<Rightarrow> []);
             tried = (if lib \<noteq> [] then tried @ [lib] else tried) in
         if lib \<noteq> [] \<and> stat lib then (lib, tried)
         else first_found stat tried (wellKnownONNXRuntimePaths home)))"

definition sessionPoolSize :: "config option \<Rightarrow> int" where
  "sessionPoolSize appConfig = (case appConfig of
       Some c \<Rightarrow> if SessionPoolSize c > 0 then SessionPoolSize c
                else if WorkerPoolSize c > 0 then WorkerPoolSize c else 4
     | None \<Rightarrow> 4)"

section \<open>Keys\<close>

definition modelKey :: "string \<Rightarrow> string \<Rightarrow> string res" where
  "modelKey mid version =
     (if mid = [] then Inl (Errorf ''model ID must not be empty'' [])
      else if contains mid '':'' then Inl (Errorf (''model ID %q must not contain '' @ [CHR 0x27] @ '':'' @ [CHR 0x27]) [GString mid])
      else if contains version '':'' then
        Inl (Errorf (''model version %q must not contain '' @ [CHR 0x27] @ '':'' @ [CHR 0x27]) [GString version])
      else if version = [] then Inr mid
      else Inr (mid @ '':'' @ version))"

section \<open>The binding\<close>

record io_info =
  Name :: string
  Dimensions :: "64 word list"
  DataType :: dtype

text \<open>
  \<open>new_session\<close> gets the number of the session in its pool beside its arguments, so that any of the
  sessions of one model may fail to be created; \<open>session_run\<close> maps the input tensors of a session to
  what it writes into the output tensors.
\<close>

record ort_env = tensor_env +
  get_io_info :: "string \<Rightarrow> (io_info list \<times> io_info list) res"
  new_session :: "nat \<Rightarrow> string \<Rightarrow> string list \<Rightarrow> string list \<Rightarrow> tensor list \<Rightarrow> tensor list \<Rightarrow> int option \<Rightarrow> nat res"
  session_run :: "nat \<Rightarrow> tensor list \<Rightarrow> tensor list \<Rightarrow> tensor list res"

text \<open>The four calls that set up the CUDA provider; an error of any of them falls back to the CPU.\<close>

record cuda_env =
  new_session_options :: "gerr option"
  new_cuda_options :: "gerr option"
  update_cuda_options :: "int \<Rightarrow> gerr option"
  append_cuda :: "gerr option"

datatype handle = SessionOptionsH | CudaOptionsH

text \<open>The options (the CUDA device), and the native handles that are still allocated afterwards.\<close>

definition buildSessionOpts :: "cuda_env \<Rightarrow> config option \<Rightarrow> int option res \<times> handle set" where
  "buildSessionOpts cu appConfig = (case appConfig of
       None \<Rightarrow> (Inr None, {})
     | Some c \<Rightarrow>
        if EPType c \<noteq> ''cuda'' then (Inr None, {})
        else if new_session_options cu \<noteq> None then (Inr None, {})
        else (let live = {SessionOptionsH} in
          if new_cuda_options cu \<noteq> None then (Inr None, live - {SessionOptionsH})
          else (let live = live \<union> {CudaOptionsH} in
            if update_cuda_options cu (EPDeviceID c) \<noteq> None then (Inr None, live - {CudaOptionsH} - {SessionOptionsH})
            else if append_cuda cu \<noteq> None then (Inr None, live - {CudaOptionsH} - {SessionOptionsH})
            else (Inr (Some (EPDeviceID c)), live - {CudaOptionsH}))))"

section \<open>Slots, models, the engine\<close>

record session_slot =
  session :: nat
  inputs :: "tensor list"
  outputs :: "tensor list"

record onnx_model =
  modelID :: string
  modelPath :: string
  inputNames :: "string list"
  outputNames :: "string list"
  inputDims :: "64 word list list"
  outputDims :: "64 word list list"
  inputTypes :: "dtype list"
  outputTypes :: "dtype list"
  metadata :: "(string \<times> goval) list"
  pool :: "session_slot list"

record onnx_engine =
  BaseEngine :: base_engine
  oe_models :: "(string \<times> onnx_model) list"

definition NewONNXRuntimeEngine ::
    "(string \<Rightarrow> bool) \<Rightarrow> string \<Rightarrow> string \<Rightarrow> config option \<Rightarrow> bool \<Rightarrow> (string \<Rightarrow> gerr option) \<Rightarrow> onnx_engine res" where
  "NewONNXRuntimeEngine stat home envPath appConfig isInitialized initializeEnvironment =
     (let (libPath, tried) = resolveONNXRuntimeLibPath stat home envPath appConfig in
      if libPath = [] then
        Inl (Errorf ''ONNX Runtime shared library not found; set ORT_LIB_PATH or onnxruntime.lib_path (tried: %s)'' [GStrings tried])
      else case (if isInitialized then None else initializeEnvironment libPath) of
        Some err \<Rightarrow> Inl (Errorw ''failed to initialize ONNX environment (lib %s): %w'' [GString libPath] err)
      | None \<Rightarrow> Inr \<lparr>BaseEngine = NewBaseEngine, oe_models = []\<rparr>)"

section \<open>Creating a slot\<close>

text \<open>The tensors are created in order; the first failure names its tensor.\<close>

fun create_tensors :: "(dtype \<Rightarrow> 64 word list \<Rightarrow> tensor res outcome) \<Rightarrow> string \<Rightarrow>
    (string \<times> dtype \<times> 64 word list) list \<Rightarrow> tensor list res outcome" where
  "create_tensors mk err [] = Done (Inr [])"
| "create_tensors mk err ((name, dt, dims) # r) = bind_outcome (mk dt dims) (\<lambda>t. case t of
       Inl e \<Rightarrow> Done (Inl (Errorw err [GString name] e))
     | Inr t \<Rightarrow> bind_outcome (create_tensors mk err r) (\<lambda>ts. case ts of
         Inl e \<Rightarrow> Done (Inl e) | Inr ts \<Rightarrow> Done (Inr (t # ts))))"

definition createSessionSlot :: "ort_env \<Rightarrow> nat \<Rightarrow> string \<Rightarrow> string list \<Rightarrow> string list \<Rightarrow> dtype list \<Rightarrow> dtype list \<Rightarrow>
    64 word list list \<Rightarrow> 64 word list list \<Rightarrow> int option \<Rightarrow> session_slot res outcome" where
  "createSessionSlot ort i path iNames oNames iTypes oTypes iDims oDims opts =
     bind_outcome (create_tensors (newInputTensor (tensor_env.truncate ort)) ''failed to create input tensor %q: %w''
        (zip iNames (zip iTypes iDims))) (\<lambda>r. case r of Inl e \<Rightarrow> Done (Inl e) | Inr ins \<Rightarrow>
     bind_outcome (create_tensors (newOutputTensor (tensor_env.truncate ort)) ''failed to create output tensor %q: %w''
        (zip oNames (zip oTypes oDims))) (\<lambda>r. case r of Inl e \<Rightarrow> Done (Inl e) | Inr outs \<Rightarrow>
     (case new_session ort i path iNames oNames ins outs opts of
        Inl e \<Rightarrow> Done (Inl (Errorw ''failed to create ONNX AdvancedSession: %w'' [] e))
      | Inr s \<Rightarrow> Done (Inr \<lparr>session = s, inputs = ins, outputs = outs\<rparr>))))"

text \<open>
  The pool is filled slot by slot. When one cannot be created, the code ranges over the channel to
  destroy the slots already in it; nobody closes that channel, so after the last slot the range
  waits forever.
\<close>

fun fill_pool :: "(nat \<Rightarrow> session_slot res outcome) \<Rightarrow> nat \<Rightarrow> nat \<Rightarrow> session_slot list \<Rightarrow> session_slot list outcome" where
  "fill_pool mk i 0 ps = Done ps"
| "fill_pool mk i (Suc k) ps = bind_outcome (mk i) (\<lambda>r. case r of
       Inl e \<Rightarrow> Blocked
     | Inr slot \<Rightarrow> fill_pool mk (Suc i) k (ps @ [slot]))"

section \<open>Loading and unloading\<close>

definition oe_LoadModel :: "(string \<Rightarrow> bool) \<Rightarrow> ort_env \<Rightarrow> cuda_env \<Rightarrow> config option \<Rightarrow> model \<Rightarrow> onnx_engine \<Rightarrow>
    (gerr option \<times> onnx_engine) outcome" where
  "oe_LoadModel notExist ort cu appConfig m e = (case modelKey (ID m) (Version m) of
       Inl err \<Rightarrow> Done (Some err, e)
     | Inr key \<Rightarrow>
        if map_of (oe_models e) key \<noteq> None then Done (Some (Errorf ''model with ID %s is already loaded'' [GString key]), e)
        else if notExist (Path m) then Done (Some (Errorf ''model file not found: %s'' [GString (Path m)]), e)
        else (case get_io_info ort (Path m) of
          Inl err \<Rightarrow> Done (Some (Errorw ''failed to get input/output info: %w'' [] err), e)
        | Inr (inputInfos, outputInfos) \<Rightarrow>
           if inputInfos = [] then Done (Some (Errorf ''model %s has no inputs'' [GString key]), e)
           else (case fst (buildSessionOpts cu appConfig) of
             Inl err \<Rightarrow> Done (Some err, e)
           | Inr opts \<Rightarrow>
              (let iNames = map Name inputInfos; iDims = map Dimensions inputInfos; iTypes = map DataType inputInfos;
                   oNames = map Name outputInfos; oDims = map Dimensions outputInfos; oTypes = map DataType outputInfos;
                   n = sessionPoolSize appConfig in
               bind_outcome (fill_pool (\<lambda>i. createSessionSlot ort i (Path m) iNames oNames iTypes oTypes iDims oDims opts)
                   0 (nat n) [])
                 (\<lambda>slots. Done (None, e\<lparr>oe_models := aput key
                    \<lparr>modelID = ID m, modelPath = Path m, inputNames = iNames, outputNames = oNames,
                     inputDims = iDims, outputDims = oDims, inputTypes = iTypes, outputTypes = oTypes,
                     metadata = [], pool = slots\<rparr> (oe_models e)\<rparr>))))))"

text \<open>\<open>unloadModel\<close> closes the pool, destroys the slots in it and forgets the model.\<close>

definition unloadModel :: "string \<Rightarrow> onnx_engine \<Rightarrow> gerr option \<times> onnx_engine" where
  "unloadModel key e = (if map_of (oe_models e) key \<noteq> None
     then (None, e\<lparr>oe_models := adel key (oe_models e)\<rparr>) else (None, e))"

definition oe_UnloadModel :: "string \<Rightarrow> string \<Rightarrow> onnx_engine \<Rightarrow> gerr option \<times> onnx_engine" where
  "oe_UnloadModel mid version e = (case modelKey mid version of
       Inl err \<Rightarrow> (Some err, e)
     | Inr key \<Rightarrow> if map_of (oe_models e) key = None then (Some ErrModelNotFound, e) else unloadModel key e)"

definition oe_Close :: "onnx_engine \<Rightarrow> onnx_engine" where
  "oe_Close e = e\<lparr>oe_models := []\<rparr>"

text \<open>The tracing variants go through the model manager of the embedded base engine first.\<close>

definition oe_LoadModelWithTracing :: "os_env \<Rightarrow> crypto \<Rightarrow> (string \<Rightarrow> bool) \<Rightarrow> ort_env \<Rightarrow> cuda_env \<Rightarrow>
    config option \<Rightarrow> model \<Rightarrow> onnx_engine \<Rightarrow> (gerr option \<times> onnx_engine) outcome" where
  "oe_LoadModelWithTracing env cr notExist ort cu appConfig m e =
     (case be_LoadModelWithTracing env cr m (BaseEngine e) of
        (Some err, b) \<Rightarrow> Done (Some err, e\<lparr>BaseEngine := b\<rparr>)
      | (None, b) \<Rightarrow> oe_LoadModel notExist ort cu appConfig m (e\<lparr>BaseEngine := b\<rparr>))"

definition oe_UnloadModelWithTracing :: "string \<Rightarrow> string \<Rightarrow> onnx_engine \<Rightarrow> gerr option \<times> onnx_engine" where
  "oe_UnloadModelWithTracing mid version e =
     (case be_UnloadModelWithTracing mid version (BaseEngine e) of
        (Some err, b) \<Rightarrow> (Some err, e\<lparr>BaseEngine := b\<rparr>)
      | (None, b) \<Rightarrow> oe_UnloadModel mid version (e\<lparr>BaseEngine := b\<rparr>))"

definition oe_GetModelInfo :: "string \<Rightarrow> string \<Rightarrow> onnx_engine \<Rightarrow> model res" where
  "oe_GetModelInfo mid version e = (case modelKey mid version of
       Inl err \<Rightarrow> Inl err
     | Inr key \<Rightarrow> (case map_of (oe_models e) key of
         None \<Rightarrow> Inl (Errorf ''model not found: %s'' [GString key])
       | Some m \<Rightarrow> Inr \<lparr>ID = modelID m, Version = version, Path = modelPath m, InputShape = [], OutputShape = [],
                        Metadata = metadata m\<rparr>))"

definition oe_GetModel :: "string \<Rightarrow> string \<Rightarrow> onnx_engine \<Rightarrow> model res" where
  "oe_GetModel mid version e = oe_GetModelInfo mid version e"

definition oe_ListModels :: "onnx_engine \<Rightarrow> string list" where
  "oe_ListModels e = map fst (oe_models e)"

section \<open>Prediction\<close>

text \<open>
  Filling the input tensors of a slot in order; an error leaves the tensors before it filled. An
  index beyond the tensors of the slot panics.
\<close>

fun fill_inputs :: "(dtype \<Rightarrow> fp \<Rightarrow> int) \<Rightarrow> string list \<Rightarrow> tensor list \<Rightarrow> fp list list \<Rightarrow> (gerr option \<times> tensor list) outcome" where
  "fill_inputs oor names ts [] = Done (None, ts)"
| "fill_inputs oor names [] (flat # r) = Panic"
| "fill_inputs oor names (t # ts) (flat # r) = (case fillTensor oor t flat of
       Inl e \<Rightarrow> (case names of [] \<Rightarrow> Panic
         | name # _ \<Rightarrow> Done (Some (Errorw ''failed to fill input %q: %w'' [GString name] e), t # ts))
     | Inr t' \<Rightarrow> bind_outcome (fill_inputs oor (tl names) ts r) (\<lambda>(e, ts'). Done (e, t' # ts')))"

fun read_outputs :: "string list \<Rightarrow> tensor list \<Rightarrow> (goval \<times> 64 word list) list res outcome" where
  "read_outputs names [] = Done (Inr [])"
| "read_outputs names (t # ts) = (case readTensor t of
       Inl e \<Rightarrow> (case names of [] \<Rightarrow> Panic
         | name # _ \<Rightarrow> Done (Inl (Errorw ''failed to read output %q: %w'' [GString name] e)))
     | Inr d \<Rightarrow> bind_outcome (read_outputs (tl names) ts) (\<lambda>r. case r of
         Inl e \<Rightarrow> Done (Inl e) | Inr ds \<Rightarrow> Done (Inr (d # ds))))"

definition output_entry :: "goval \<times> 64 word list \<Rightarrow> goval" where
  "output_entry d = GMap [(''data'', fst d), (''shape'', GI64s (snd d))]"

text \<open>The output map: the first output under \<open>data\<close> and \<open>shape\<close>, all of them by name when there are several.\<close>

definition output_map :: "string \<Rightarrow> string list \<Rightarrow> (goval \<times> 64 word list) list \<Rightarrow> goval" where
  "output_map mid names ds = GMap
     ([(''data'', fst (hd ds)), (''shape'', GI64s (snd (hd ds))), (''model_id'', GString mid)] @
      (if 1 < length ds
       then [(''outputs'', GMap (fold (\<lambda>(n, d) acc. aput n (output_entry d) acc) (zip names ds) []))] else []))"

text \<open>The result, and the slot as the deferred send puts it back into the pool.\<close>

definition runSlot :: "ort_env \<Rightarrow> (dtype \<Rightarrow> fp \<Rightarrow> int) \<Rightarrow> int \<Rightarrow> onnx_model \<Rightarrow> session_slot \<Rightarrow> fp list list \<Rightarrow> string \<Rightarrow>
    prediction res outcome \<times> session_slot" where
  "runSlot ort oor latency m slot ins mid = (case fill_inputs oor (inputNames m) (inputs slot) ins of
       Panic \<Rightarrow> (Panic, slot)
     | Blocked \<Rightarrow> (Blocked, slot)
     | Done (Some e, ts) \<Rightarrow> (Done (Inl e), slot\<lparr>inputs := ts\<rparr>)
     | Done (None, ts) \<Rightarrow> (case session_run ort (session slot) ts (outputs slot) of
         Inl e \<Rightarrow> (Done (Inl (Errorw ''inference failed: %w'' [] e)), slot\<lparr>inputs := ts\<rparr>)
       | Inr outs \<Rightarrow>
          (bind_outcome (read_outputs (outputNames m) outs) (\<lambda>r. case r of
             Inl e \<Rightarrow> Done (Inl e)
           | Inr ds \<Rightarrow> if ds = [] then Panic else
               Done (Inr \<lparr>ModelID = mid, PVersion = [], Output = output_map mid (outputNames m) ds,
                 PMetadata = GMap [(''engine'', GString ''onnxruntime''), (''latency_ms'', GInt64 (word_of_int latency)),
                   (''input_dims'', GI64ss (inputDims m)), (''output_dims'', GI64ss (outputDims m))],
                 Latency = latency\<rparr>)),
           slot\<lparr>inputs := ts, outputs := outs\<rparr>)))"

text \<open>
  One call: \<open>ctx\<close> is the error of the context when it is done, \<open>pick\<close> the choice that \<open>select\<close> makes
  when a slot is available and the context is done. With no slot and a context that is not done the
  call waits; as a call on its own it waits forever.
\<close>

record call_env =
  ctx_err :: "gerr option"
  pick :: bool
  latency_ms :: int

definition oe_Predict :: "ort_env \<Rightarrow> (dtype \<Rightarrow> fp \<Rightarrow> int) \<Rightarrow> call_env \<Rightarrow> string \<Rightarrow> string \<Rightarrow> goval \<Rightarrow> onnx_engine \<Rightarrow>
    prediction res outcome \<times> onnx_engine" where
  "oe_Predict ort oor ce mid version input e = (case modelKey mid version of
       Inl err \<Rightarrow> (Done (Inl err), e)
     | Inr key \<Rightarrow> (case map_of (oe_models e) key of
         None \<Rightarrow> (Done (Inl (Errorf ''model not found or not properly loaded: %s'' [GString key])), e)
       | Some m \<Rightarrow> (case resolveInputs (modelID m) (inputNames m) input of
           Inl err \<Rightarrow> (Done (Inl err), e)
         | Inr ins \<Rightarrow> (case (pool m, ctx_err ce) of
             (slot # rest, None) \<Rightarrow>
               (case runSlot ort oor (latency_ms ce) m slot ins mid of
                  (r, slot') \<Rightarrow> (r, e\<lparr>oe_models := aput key (m\<lparr>pool := rest @ [slot']\<rparr>) (oe_models e)\<rparr>))
           | (slot # rest, Some err) \<Rightarrow>
               if pick ce then
                 (case runSlot ort oor (latency_ms ce) m slot ins mid of
                    (r, slot') \<Rightarrow> (r, e\<lparr>oe_models := aput key (m\<lparr>pool := rest @ [slot']\<rparr>) (oe_models e)\<rparr>))
               else (Done (Inl err), e)
           | ([], Some err) \<Rightarrow> (Done (Inl err), e)
           | ([], None) \<Rightarrow> (Blocked, e)))))"

text \<open>The loop of \<open>PredictSequential\<close>: the context is looked at before each call.\<close>

fun predict_loop :: "ort_env \<Rightarrow> (dtype \<Rightarrow> fp \<Rightarrow> int) \<Rightarrow> (nat \<Rightarrow> gerr option) \<Rightarrow> (nat \<Rightarrow> call_env) \<Rightarrow> string \<Rightarrow> string \<Rightarrow>
    nat \<Rightarrow> goval list \<Rightarrow> prediction list \<Rightarrow> onnx_engine \<Rightarrow> prediction list res outcome \<times> onnx_engine" where
  "predict_loop ort oor ctx ces mid version i [] acc e = (Done (Inr acc), e)"
| "predict_loop ort oor ctx ces mid version i (x # xs) acc e = (case ctx i of
       Some err \<Rightarrow> (Done (Inl err), e)
     | None \<Rightarrow> (case oe_Predict ort oor (ces i) mid version x e of
         (Done (Inl err), e') \<Rightarrow> (Done (Inl (Errorw ''sequential prediction failed at index %d: %w'' [GInt (int i)] err)), e')
       | (Done (Inr p), e') \<Rightarrow> predict_loop ort oor ctx ces mid version (Suc i) xs (acc @ [p]) e'
       | (Panic, e') \<Rightarrow> (Panic, e')
       | (Blocked, e') \<Rightarrow> (Blocked, e')))"

definition PredictSequential :: "ort_env \<Rightarrow> (dtype \<Rightarrow> fp \<Rightarrow> int) \<Rightarrow> (nat \<Rightarrow> gerr option) \<Rightarrow> (nat \<Rightarrow> call_env) \<Rightarrow> string \<Rightarrow> string \<Rightarrow>
    goval list \<Rightarrow> onnx_engine \<Rightarrow> prediction list res outcome \<times> onnx_engine" where
  "PredictSequential ort oor ctx ces mid version ins e = predict_loop ort oor ctx ces mid version 0 ins [] e"

definition oe_BatchPredict :: "ort_env \<Rightarrow> (dtype \<Rightarrow> fp \<Rightarrow> int) \<Rightarrow> (nat \<Rightarrow> gerr option) \<Rightarrow> (nat \<Rightarrow> call_env) \<Rightarrow> string \<Rightarrow> string \<Rightarrow>
    goval list \<Rightarrow> onnx_engine \<Rightarrow> prediction list res outcome \<times> onnx_engine" where
  "oe_BatchPredict ort oor ctx ces mid version ins e = PredictSequential ort oor ctx ces mid version ins e"

section \<open>Keys: lemmas\<close>

lemma modelKey_Inr: "modelKey i v = Inr k \<longleftrightarrow>
    i \<noteq> [] \<and> CHR '':'' \<notin> set i \<and> CHR '':'' \<notin> set v \<and> k = version_key i v"
proof -
  have if_res: "(if b then Inl x else r) = Inr k \<longleftrightarrow> \<not> b \<and> r = Inr k" for b and x :: gerr and r and k :: string
    by simp
  have key: "(if v = [] then Inr i else Inr (i @ '':'' @ v)) = (Inr k :: string res) \<longleftrightarrow> k = version_key i v"
    by (cases "v = []") (auto simp: version_key_def)
  show ?thesis unfolding modelKey_def contains_char_iff if_res key ..
qed

lemma modelKey_inject: "modelKey i v = Inr k \<Longrightarrow> modelKey i' v' = Inr k \<Longrightarrow> i = i' \<and> v = v'"
  unfolding modelKey_Inr using version_key_inject[of i i' v v'] by simp

section \<open>Invariant\<close>

text \<open>
  Every model of the engine is stored under the key of a legal identifier and version, has at least
  one input and at least one slot, and every slot has one input tensor per input of the declared type
  and one output tensor per output. What the binding does is assumed: \<open>NewTensor\<close> keeps the buffer, and a run writes
  tensors of the same types and sizes.
\<close>

definition same_kind :: "tensor \<Rightarrow> tensor \<Rightarrow> bool" where
  "same_kind t t' \<longleftrightarrow> tdtype (tdat t') = tdtype (tdat t) \<and> tlen (tdat t') = tlen (tdat t) \<and> tshape t' = tshape t"

definition ort_ok :: "ort_env \<Rightarrow> bool" where
  "ort_ok ort \<longleftrightarrow> (\<forall>dims d t. new_tensor ort dims d = Inr t \<longrightarrow> t = Tensor d dims) \<and>
     (\<forall>s ins outs outs'. session_run ort s ins outs = Inr outs' \<longrightarrow> list_all2 same_kind outs outs')"

definition typed_as :: "dtype \<Rightarrow> 64 word list \<Rightarrow> tensor \<Rightarrow> bool" where
  "typed_as dt dims t \<longleftrightarrow> tdtype (tdat t) = dt \<and> tdat t \<noteq> TOther \<and> tshape t = dims"

definition slot_ok :: "onnx_model \<Rightarrow> session_slot \<Rightarrow> bool" where
  "slot_ok m s \<longleftrightarrow> list_all2 (\<lambda>(dt, dims) t. typed_as dt dims t) (zip (inputTypes m) (inputDims m)) (inputs s) \<and>
     list_all2 (\<lambda>(dt, dims) t. typed_as dt dims t) (zip (outputTypes m) (outputDims m)) (outputs s)"

definition omodel_ok :: "onnx_model \<Rightarrow> bool" where
  "omodel_ok m \<longleftrightarrow> inputNames m \<noteq> [] \<and> length (inputTypes m) = length (inputNames m) \<and>
     length (inputDims m) = length (inputNames m) \<and> length (outputTypes m) = length (outputNames m) \<and>
     length (outputDims m) = length (outputNames m) \<and> list_all (slot_ok m) (pool m)"

definition oe_inv :: "onnx_engine \<Rightarrow> bool" where
  "oe_inv e \<longleftrightarrow> distinct (map fst (oe_models e)) \<and>
     (\<forall>(k, m) \<in> set (oe_models e). omodel_ok m \<and> (\<exists>v. modelKey (modelID m) v = Inr k))"

section \<open>Slots of a new model\<close>

lemma case_res_Done_iff:
  "(case r of Inl e \<Rightarrow> Done (Inl (g e)) | Inr x \<Rightarrow> f x) = Done (Inr y) \<longleftrightarrow> (\<exists>x. r = Inr x \<and> f x = Done (Inr y))"
  by (cases r) auto

lemma zero_data_kind: "zero_data dt n = Some d \<Longrightarrow> tdtype d = dt \<and> d \<noteq> TOther \<and> tlen d = n"
  by (cases dt) auto

lemma new_zero_tensor_typed:
  assumes "ort_ok ort" "new_zero_tensor (tensor_env.truncate ort) err dt dims = Done (Inr t)"
  shows "typed_as dt dims t"
proof -
  obtain d where d: "zero_data dt (nat (sint (flattened_size ort dims))) = Some d" "new_tensor ort dims d = Inr t"
    using assms(2) by (auto simp: new_zero_tensor_def Let_def tensor_env.truncate_def split: option.splits if_splits)
  moreover have "t = Tensor d dims" using assms(1) d(2) unfolding ort_ok_def by blast
  ultimately show ?thesis using zero_data_kind[OF d(1)] by (simp add: typed_as_def)
qed

lemma create_tensors_typed:
  assumes "\<And>dt dims t. mk dt dims = Done (Inr t) \<Longrightarrow> typed_as dt dims t"
  shows "create_tensors mk err xs = Done (Inr ts) \<Longrightarrow> list_all2 (\<lambda>(dt, dims) t. typed_as dt dims t) (map snd xs) ts"
proof (induction xs arbitrary: ts)
  case (Cons x xs)
  then obtain n dt dims t ts' where x: "x = (n, dt, dims)" and t: "mk dt dims = Done (Inr t)"
      and ts: "create_tensors mk err xs = Done (Inr ts')" "ts = t # ts'"
    by (cases x) (auto simp: bind_res_Done_iff)
  then show ?case using Cons.IH[OF ts(1)] assms[OF t] by simp
qed simp

lemma createSessionSlot_ok:
  assumes "ort_ok ort" and lens: "length iTypes = length iNames" "length iDims = length iNames"
      "length oTypes = length oNames" "length oDims = length oNames"
    and "createSessionSlot ort i p iNames oNames iTypes oTypes iDims oDims opts = Done (Inr s)"
  shows "list_all2 (\<lambda>(dt, dims) t. typed_as dt dims t) (zip iTypes iDims) (inputs s) \<and>
    list_all2 (\<lambda>(dt, dims) t. typed_as dt dims t) (zip oTypes oDims) (outputs s)"
proof -
  obtain ins outs where
      i: "create_tensors (newInputTensor (tensor_env.truncate ort)) ''failed to create input tensor %q: %w'' (zip iNames (zip iTypes iDims)) = Done (Inr ins)"
    and o: "create_tensors (newOutputTensor (tensor_env.truncate ort)) ''failed to create output tensor %q: %w'' (zip oNames (zip oTypes oDims)) = Done (Inr outs)"
    and s: "inputs s = ins" "outputs s = outs"
    using assms(6) by (auto simp: createSessionSlot_def bind_res_Done_iff case_res_Done_iff)
  have "map snd (zip iNames (zip iTypes iDims)) = zip iTypes iDims" "map snd (zip oNames (zip oTypes oDims)) = zip oTypes oDims"
    using lens by simp_all
  then show ?thesis
    using create_tensors_typed[OF _ i] create_tensors_typed[OF _ o] new_zero_tensor_typed[OF assms(1)] s
    by (simp add: newInputTensor_def newOutputTensor_def)
qed

lemma fill_pool_Done:
  "fill_pool mk i k ps = Done qs \<Longrightarrow>
     \<exists>rs. qs = ps @ rs \<and> length rs = k \<and> (\<forall>j < k. mk (i + j) = Done (Inr (rs ! j)))"
proof (induction k arbitrary: i ps)
  case (Suc k)
  then obtain s where s: "mk i = Done (Inr s)" "fill_pool mk (Suc i) k (ps @ [s]) = Done qs"
    by (auto simp: bind_block_Done_iff)
  from Suc.IH[OF s(2)] obtain rs where rs: "qs = (ps @ [s]) @ rs" "length rs = k" "\<forall>j < k. mk (Suc i + j) = Done (Inr (rs ! j))"
    by auto
  have "\<forall>j < Suc k. mk (i + j) = Done (Inr ((s # rs) ! j))" using rs(3) s(1) by (auto simp: nth_Cons split: nat.split)
  then show ?case using rs by (intro exI[of _ "s # rs"]) simp
qed simp

lemma fill_pool_blocks:
  "j < k \<Longrightarrow> \<forall>j' < j. \<exists>s. mk (i + j') = Done (Inr s) \<Longrightarrow> mk (i + j) = Done (Inl err) \<Longrightarrow> fill_pool mk i k ps = Blocked"
proof (induction k arbitrary: i j ps)
  case (Suc k)
  show ?case
  proof (cases j)
    case 0
    then show ?thesis using Suc.prems by simp
  next
    case (Suc j0)
    obtain s where s: "mk i = Done (Inr s)" using Suc.prems(2) Suc by force
    have "\<forall>j' < j0. \<exists>s. mk (Suc i + j') = Done (Inr s)" using Suc.prems(2) Suc by force
    moreover have "mk (Suc i + j0) = Done (Inl err)" using Suc.prems(3) Suc by simp
    ultimately show ?thesis using Suc.IH[of j0 "Suc i" "ps @ [s]"] Suc.prems(1) Suc s by simp
  qed
qed simp

lemma sessionPoolSize_pos: "0 < sessionPoolSize c"
  by (simp add: sessionPoolSize_def split: option.split)

section \<open>Loading keeps the invariant\<close>

lemma buildSessionOpts_Inr: "\<exists>opts. fst (buildSessionOpts cu c) = Inr opts"
  by (simp add: buildSessionOpts_def Let_def split: option.split)

text \<open>A load that returns without an error: the key is legal and new, and the model has a full pool.\<close>

lemma oe_LoadModel_None:
  assumes "oe_LoadModel notExist ort cu c m e = Done (None, e')"
  obtains key om where "modelKey (ID m) (Version m) = Inr key" "map_of (oe_models e) key = None"
    "e' = e\<lparr>oe_models := aput key om (oe_models e)\<rparr>" "modelID om = ID m" "modelPath om = Path m"
    "length (pool om) = nat (sessionPoolSize c)" "metadata om = []" "\<not> notExist (Path m)"
    "ort_ok ort \<Longrightarrow> omodel_ok om"
    "\<exists>infs outfs. get_io_info ort (Path m) = Inr (infs, outfs) \<and> infs \<noteq> [] \<and>
       inputNames om = map Name infs \<and> inputDims om = map Dimensions infs \<and> inputTypes om = map DataType infs \<and>
       outputNames om = map Name outfs \<and> outputDims om = map Dimensions outfs \<and> outputTypes om = map DataType outfs"
proof -
  obtain key where k: "modelKey (ID m) (Version m) = Inr key" "map_of (oe_models e) key = None" "\<not> notExist (Path m)"
    using assms by (auto simp: oe_LoadModel_def split: sum.splits if_splits)
  obtain infs outfs where io: "get_io_info ort (Path m) = Inr (infs, outfs)" "infs \<noteq> []"
    using assms k by (auto simp: oe_LoadModel_def split: sum.splits if_splits)
  obtain opts where opts: "fst (buildSessionOpts cu c) = Inr opts" using buildSessionOpts_Inr by blast
  let ?mk = "\<lambda>i. createSessionSlot ort i (Path m) (map Name infs) (map Name outfs) (map DataType infs) (map DataType outfs)
      (map Dimensions infs) (map Dimensions outfs) opts"
  obtain slots where fp: "fill_pool ?mk 0 (nat (sessionPoolSize c)) [] = Done slots"
    and e': "e' = e\<lparr>oe_models := aput key
       \<lparr>modelID = ID m, modelPath = Path m, inputNames = map Name infs, outputNames = map Name outfs,
        inputDims = map Dimensions infs, outputDims = map Dimensions outfs, inputTypes = map DataType infs,
        outputTypes = map DataType outfs, metadata = [], pool = slots\<rparr> (oe_models e)\<rparr>"
    using assms k io opts by (auto simp: oe_LoadModel_def Let_def bind_outcome_Done_iff)
  let ?om = "\<lparr>modelID = ID m, modelPath = Path m, inputNames = map Name infs, outputNames = map Name outfs,
        inputDims = map Dimensions infs, outputDims = map Dimensions outfs, inputTypes = map DataType infs,
        outputTypes = map DataType outfs, metadata = [], pool = slots\<rparr>"
  obtain rs where rs: "slots = rs" "length rs = nat (sessionPoolSize c)" "\<forall>j < length rs. ?mk j = Done (Inr (rs ! j))"
    using fill_pool_Done[OF fp] by auto
  have "omodel_ok ?om" if "ort_ok ort"
  proof -
    have "slot_ok ?om (slots ! j)" if "j < length slots" for j
      using createSessionSlot_ok[OF \<open>ort_ok ort\<close>, of "map DataType infs" "map Name infs" "map Dimensions infs" "map DataType outfs"
          "map Name outfs" "map Dimensions outfs" j "Path m" opts "slots ! j"] rs that by (simp add: slot_ok_def)
    then show ?thesis using io(2) by (simp add: omodel_ok_def list_all_length)
  qed
  then show ?thesis using that[of key ?om] k e' rs io by simp
qed

lemma map_of_set: "distinct (map fst xs) \<Longrightarrow> map_of xs k = Some v \<longleftrightarrow> (k, v) \<in> set xs"
  by (rule map_of_eq_Some_iff)

text \<open>Replacing or adding one good model keeps the invariant.\<close>

lemma oe_inv_put [inv_intros]:
  assumes "oe_inv e" "omodel_ok om" "modelKey (modelID om) v = Inr key"
  shows "oe_inv (e\<lparr>oe_models := aput key om (oe_models e)\<rparr>)"
  using assms unfolding oe_inv_def by (auto simp: distinct_aput) (auto simp: aput_def)

lemma oe_inv_LoadModel [inv_intros]:
  assumes "oe_inv e" "ort_ok ort" "oe_LoadModel notExist ort cu c m e = Done (r, e')"
  shows "oe_inv e'"
proof (cases r)
  case None
  show ?thesis
  proof (rule oe_LoadModel_None[OF assms(3)[unfolded None]])
    fix key om
    assume "modelKey (ID m) (Version m) = Inr key" "e' = e\<lparr>oe_models := aput key om (oe_models e)\<rparr>"
      "modelID om = ID m" "ort_ok ort \<Longrightarrow> omodel_ok om"
    then show "oe_inv e'" using oe_inv_put[OF assms(1), of om "Version m" key] assms(2) by simp
  qed
next
  case (Some err)
  then have "e' = e" using assms(3)
    by (auto simp: oe_LoadModel_def Let_def bind_outcome_Done_iff split: sum.splits if_splits)
  then show ?thesis using assms(1) by simp
qed

lemma oe_inv_UnloadModel [inv_intros]: "oe_inv e \<Longrightarrow> oe_inv (snd (oe_UnloadModel i v e))"
  by (auto simp: oe_UnloadModel_def unloadModel_def oe_inv_def distinct_adel split: sum.split) (auto simp: adel_def)

lemma oe_inv_lookup: "oe_inv e \<Longrightarrow> map_of (oe_models e) k = Some m \<Longrightarrow> omodel_ok m \<and> (\<exists>v. modelKey (modelID m) v = Inr k)"
  unfolding oe_inv_def by (fastforce dest: map_of_SomeD)

section \<open>Prediction keeps the invariant\<close>

lemma tdtype_TOther: "tdtype d = tdtype TOther \<longleftrightarrow> d = TOther"
  by (cases d) auto

lemma same_kind_refl [simp]: "same_kind t t"
  by (simp add: same_kind_def)

lemma typed_as_same_kind: "typed_as dt dims t \<Longrightarrow> same_kind t t' \<Longrightarrow> typed_as dt dims t'"
  unfolding typed_as_def same_kind_def by (metis tdtype_TOther)

lemma typed_list_same_kind:
  assumes "list_all2 (\<lambda>(dt, dims) t. typed_as dt dims t) spec ts" "list_all2 same_kind ts ts'"
  shows "list_all2 (\<lambda>(dt, dims) t. typed_as dt dims t) spec ts'"
  by (rule list_all2_trans[OF _ assms]) (auto intro: typed_as_same_kind)

lemma fillTensor_same_kind: "fillTensor oor t flat = Inr t' \<Longrightarrow> same_kind t t'"
  using fillTensor_keeps by (fastforce simp: same_kind_def)

lemma fill_inputs_total:
  "length flats \<le> length ts \<Longrightarrow> length flats \<le> length names \<Longrightarrow>
     \<exists>e ts'. fill_inputs oor names ts flats = Done (e, ts') \<and> list_all2 same_kind ts ts'"
proof (induction oor names ts flats rule: fill_inputs.induct)
  case (1 oor names ts)
  then show ?case by (simp add: list_all2_refl)
next
  case (3 oor names t ts flat r)
  from "3.prems" obtain n ns where names: "names = n # ns" by (cases names) auto
  show ?case
  proof (cases "fillTensor oor t flat")
    case (Inl e)
    then show ?thesis using names by (simp add: list_all2_refl)
  next
    case (Inr t')
    with 3 names obtain e ts' where "fill_inputs oor ns ts r = Done (e, ts')" "list_all2 same_kind ts ts'" by auto
    then show ?thesis using Inr names fillTensor_same_kind[OF Inr] by auto
  qed
qed simp

lemma readTensor_total: "tdat t \<noteq> TOther \<Longrightarrow> \<exists>d. readTensor t = Inr d"
  by (cases "tdat t") (simp_all add: readTensor_def)

lemma read_outputs_total:
  "list_all (\<lambda>t. tdat t \<noteq> TOther) ts \<Longrightarrow> \<exists>ds. read_outputs names ts = Done (Inr ds) \<and> length ds = length ts"
proof (induction ts arbitrary: names)
  case (Cons t ts)
  then obtain d where "readTensor t = Inr d" using readTensor_total by force
  moreover obtain ds where "read_outputs (tl names) ts = Done (Inr ds)" "length ds = length ts" using Cons by fastforce
  ultimately show ?case by simp
qed simp

lemma typed_list_data: "list_all2 (\<lambda>(dt, dims) t. typed_as dt dims t) spec ts \<Longrightarrow> list_all (\<lambda>t. tdat t \<noteq> TOther) ts"
  by (auto simp: list_all2_conv_all_nth list_all_length typed_as_def split: prod.splits) (metis surj_pair)

text \<open>A request on a good slot gives a result, unless the model has no outputs, and leaves a good slot.\<close>

lemma runSlot_total:
  assumes "ort_ok ort" "omodel_ok m" "slot_ok m slot" "length ins = length (inputNames m)"
  shows "slot_ok m (snd (runSlot ort oor lat m slot ins mid)) \<and>
    (outputNames m \<noteq> [] \<longrightarrow> (\<exists>r. fst (runSlot ort oor lat m slot ins mid) = Done r))"
proof -
  have lens: "length (inputs slot) = length (inputNames m)" "length (outputs slot) = length (outputNames m)"
    using assms(2,3) by (auto simp: slot_ok_def omodel_ok_def dest!: list_all2_lengthD)
  obtain e ts where ts: "fill_inputs oor (inputNames m) (inputs slot) ins = Done (e, ts)" "list_all2 same_kind (inputs slot) ts"
    using fill_inputs_total[of ins "inputs slot" "inputNames m" oor] assms(4) lens by auto
  have ok: "slot_ok m (slot\<lparr>inputs := ts, outputs := os\<rparr>)" if "list_all2 same_kind (outputs slot) os" for os
    using assms(3) ts(2) that by (auto simp: slot_ok_def intro: typed_list_same_kind)
  have ok1: "slot_ok m (slot\<lparr>inputs := ts\<rparr>)" using ok[of "outputs slot"] by (simp add: list_all2_refl)
  show ?thesis
  proof (cases e)
    case (Some err)
    then show ?thesis using ts ok1 by (simp add: runSlot_def)
  next
    case None
    show ?thesis
    proof (cases "session_run ort (session slot) ts (outputs slot)")
      case (Inl err)
      then show ?thesis using None ts ok1 by (simp add: runSlot_def)
    next
      case (Inr outs)
      have k: "list_all2 same_kind (outputs slot) outs" using assms(1) Inr unfolding ort_ok_def by blast
      then have "list_all (\<lambda>t. tdat t \<noteq> TOther) outs" using ok[OF k] by (auto simp: slot_ok_def intro: typed_list_data)
      then obtain ds where ds: "read_outputs (outputNames m) outs = Done (Inr ds)" "length ds = length outs"
        using read_outputs_total by blast
      moreover have "length outs = length (outputNames m)" using k lens by (auto dest: list_all2_lengthD)
      ultimately show ?thesis using None Inr ts ok[OF k] by (auto simp: runSlot_def)
    qed
  qed
qed

text \<open>What one call does to the engine: the same models, with pools of the same sizes.\<close>

definition same_pools :: "onnx_engine \<Rightarrow> onnx_engine \<Rightarrow> bool" where
  "same_pools e e' \<longleftrightarrow> (\<forall>k. map_option (\<lambda>m. (m\<lparr>pool := []\<rparr>, length (pool m))) (map_of (oe_models e') k) =
     map_option (\<lambda>m. (m\<lparr>pool := []\<rparr>, length (pool m))) (map_of (oe_models e) k))"

lemma same_pools_refl [simp]: "same_pools e e"
  by (simp add: same_pools_def)

lemma same_pools_trans: "same_pools e e' \<Longrightarrow> same_pools e' e'' \<Longrightarrow> same_pools e e''"
  by (simp add: same_pools_def)

lemma same_pools_put:
  "map_of (oe_models e) k = Some m \<Longrightarrow> length ps = length (pool m) \<Longrightarrow>
     same_pools e (e\<lparr>oe_models := aput k (m\<lparr>pool := ps\<rparr>) (oe_models e)\<rparr>)"
  by (simp add: same_pools_def)

lemma slot_ok_pool [simp]: "slot_ok (m\<lparr>pool := ps\<rparr>) = slot_ok m"
  by (simp add: slot_ok_def fun_eq_iff)

lemma omodel_ok_pool: "omodel_ok m \<Longrightarrow> list_all (slot_ok m) ps \<Longrightarrow> omodel_ok (m\<lparr>pool := ps\<rparr>)"
  by (simp add: omodel_ok_def)

lemma oe_Predict_run:
  assumes "oe_inv e" "ort_ok ort" "modelKey mid v = Inr key" "map_of (oe_models e) key = Some m"
    "resolveInputs (modelID m) (inputNames m) x = Inr ins" "pool m = slot # rest"
  shows "oe_inv (e\<lparr>oe_models := aput key (m\<lparr>pool := rest @ [snd (runSlot ort oor lat m slot ins mid)]\<rparr>) (oe_models e)\<rparr>) \<and>
    same_pools e (e\<lparr>oe_models := aput key (m\<lparr>pool := rest @ [snd (runSlot ort oor lat m slot ins mid)]\<rparr>) (oe_models e)\<rparr>) \<and>
    (outputNames m \<noteq> [] \<longrightarrow> (\<exists>r. fst (runSlot ort oor lat m slot ins mid) = Done r))"
proof -
  have m: "omodel_ok m" "\<exists>v. modelKey (modelID m) v = Inr key" using oe_inv_lookup[OF assms(1,4)] by auto
  then obtain v' where v': "modelKey (modelID m) v' = Inr key" by blast
  have s: "slot_ok m slot" "list_all (slot_ok m) rest" using m(1) assms(6) by (auto simp: omodel_ok_def)
  have "length ins = length (inputNames m)" using resolveInputs_length[OF assms(5)] .
  note run = runSlot_total[OF assms(2) m(1) s(1) this, of oor lat mid]
  let ?m = "m\<lparr>pool := rest @ [snd (runSlot ort oor lat m slot ins mid)]\<rparr>"
  have "omodel_ok ?m" using m(1) s(2) run by (intro omodel_ok_pool) auto
  then show ?thesis
    using oe_inv_put[OF assms(1), of ?m v' key] v' run same_pools_put[OF assms(4)] assms(6) by simp
qed

lemma oe_Predict_keeps:
  assumes "oe_inv e" "ort_ok ort" "oe_Predict ort oor ce mid v x e = (r, e')"
  shows "oe_inv e' \<and> same_pools e e'"
proof (cases "modelKey mid v")
  case (Inr key)
  show ?thesis
  proof (cases "map_of (oe_models e) key")
    case (Some m)
    show ?thesis
    proof (cases "resolveInputs (modelID m) (inputNames m) x")
      case Inr': (Inr ins)
      show ?thesis using assms Inr Some Inr' oe_Predict_run[OF assms(1,2) Inr Some Inr', of _ _ oor "latency_ms ce"]
        by (auto simp: oe_Predict_def split: list.splits option.splits prod.splits if_splits)
    qed (use assms Inr Some in \<open>auto simp: oe_Predict_def\<close>)
  qed (use assms Inr in \<open>auto simp: oe_Predict_def\<close>)
qed (use assms in \<open>auto simp: oe_Predict_def\<close>)

lemma predict_loop_keeps:
  "oe_inv e \<Longrightarrow> ort_ok ort \<Longrightarrow> predict_loop ort oor ctx ces mid v i xs acc e = (r, e') \<Longrightarrow> oe_inv e' \<and> same_pools e e'"
proof (induction xs arbitrary: i acc e)
  case (Cons x xs)
  obtain r1 e1 where p: "oe_Predict ort oor (ces i) mid v x e = (r1, e1)" by (cases "oe_Predict ort oor (ces i) mid v x e")
  note k = oe_Predict_keeps[OF Cons.prems(1,2) p]
  show ?case
  proof (cases "ctx i")
    case None
    show ?thesis
    proof (cases r1)
      case (Done q)
      then show ?thesis
      proof (cases q)
        case (Inr pr)
        with Cons.prems None p Done have "predict_loop ort oor ctx ces mid v (Suc i) xs (acc @ [pr]) e1 = (r, e')" by simp
        then show ?thesis using Cons.IH[of e1 "Suc i" "acc @ [pr]"] Cons.prems(2) k by (blast intro: same_pools_trans)
      qed (use Cons.prems None p k in auto)
    qed (use Cons.prems None p k in auto)
  qed (use Cons.prems in auto)
qed simp

lemma predict_loop_Inr:
  "predict_loop ort oor ctx ces mid v i xs acc e = (Done (Inr ps), e') \<Longrightarrow> \<exists>qs. ps = acc @ qs \<and> length qs = length xs"
proof (induction xs arbitrary: i acc e)
  case (Cons x xs)
  obtain pr e1 where "predict_loop ort oor ctx ces mid v (Suc i) xs (acc @ [pr]) e1 = (Done (Inr ps), e')"
    using Cons.prems by (auto split: option.splits prod.splits outcome.splits sum.splits)
  from Cons.IH[OF this] show ?case by auto
qed simp

section \<open>Reachable engines\<close>

text \<open>
  An engine as the server uses it, one call after the other: loads that return, unloads, predictions
  and batches, in any order and with any contexts. The configuration and the binding are fixed.
\<close>

inductive oe_reach :: "ort_env \<Rightarrow> config option \<Rightarrow> onnx_engine \<Rightarrow> bool" for ort c where
  new: "oe_reach ort c \<lparr>BaseEngine = NewBaseEngine, oe_models = []\<rparr>"
| load: "oe_reach ort c e \<Longrightarrow> oe_LoadModel notExist ort cu c m e = Done (r, e') \<Longrightarrow> oe_reach ort c e'"
| unload: "oe_reach ort c e \<Longrightarrow> oe_reach ort c (snd (oe_UnloadModel i v e))"
| predict: "oe_reach ort c e \<Longrightarrow> oe_Predict ort oor ce mid v x e = (r', e') \<Longrightarrow> oe_reach ort c e'"
| batch: "oe_reach ort c e \<Longrightarrow> oe_BatchPredict ort oor ctx ces mid v xs e = (r'', e') \<Longrightarrow> oe_reach ort c e'"

definition full_pools :: "config option \<Rightarrow> onnx_engine \<Rightarrow> bool" where
  "full_pools c e \<longleftrightarrow> (\<forall>k m. map_of (oe_models e) k = Some m \<longrightarrow> length (pool m) = nat (sessionPoolSize c))"

lemma full_pools_same: "full_pools c e \<Longrightarrow> same_pools e e' \<Longrightarrow> full_pools c e'"
proof -
  assume f: "full_pools c e" and s: "same_pools e e'"
  have "length (pool m) = nat (sessionPoolSize c)" if "map_of (oe_models e') k = Some m" for k m
  proof -
    have "map_option (\<lambda>m. (m\<lparr>pool := []\<rparr>, length (pool m))) (map_of (oe_models e) k) = Some (m\<lparr>pool := []\<rparr>, length (pool m))"
      using s[unfolded same_pools_def, THEN spec[of _ k]] that by simp
    then obtain m0 where "map_of (oe_models e) k = Some m0" "length (pool m0) = length (pool m)" by auto
    then show ?thesis using f by (auto simp: full_pools_def)
  qed
  then show ?thesis by (simp add: full_pools_def)
qed

lemma oe_reach_inv: "oe_reach ort c e \<Longrightarrow> ort_ok ort \<Longrightarrow> oe_inv e \<and> full_pools c e"
proof (induction rule: oe_reach.induct)
  case new
  then show ?case by (simp add: oe_inv_def full_pools_def)
next
  case (load e notExist cu m r e')
  have "full_pools c e'"
  proof (cases r)
    case None
    show ?thesis
      by (rule oe_LoadModel_None[OF load.hyps(2)[unfolded None]]) (use load in \<open>auto simp: full_pools_def\<close>)
  next
    case (Some err)
    then have "e' = e" using load.hyps(2)
      by (auto simp: oe_LoadModel_def Let_def bind_outcome_Done_iff split: sum.splits if_splits)
    then show ?thesis using load by simp
  qed
  then show ?case using oe_inv_LoadModel load by blast
next
  case (unload e i v)
  then have "full_pools c (snd (oe_UnloadModel i v e))"
    by (auto simp: oe_UnloadModel_def unloadModel_def full_pools_def split: sum.split)
  then show ?case using oe_inv_UnloadModel unload by blast
next
  case (predict e oor ce mid v x r' e')
  then show ?case using oe_Predict_keeps full_pools_same by blast
next
  case (batch e oor ctx ces mid v xs r'' e')
  then show ?case using predict_loop_keeps full_pools_same unfolding oe_BatchPredict_def PredictSequential_def by blast
qed

section \<open>Properties\<close>

lemma oe_Predict_loaded:
  assumes "oe_reach ort c e" "ort_ok ort" "modelKey mid v = Inr key" "map_of (oe_models e) key = Some m" "outputNames m \<noteq> []"
  shows "length (pool m) = nat (sessionPoolSize c) \<and> 0 < length (pool m) \<and>
    (\<exists>r e'. oe_Predict ort oor ce mid v x e = (Done r, e') \<and>
       (\<exists>m'. map_of (oe_models e') key = Some m' \<and> length (pool m') = length (pool m)))"
proof -
  have inv: "oe_inv e" "full_pools c e" using oe_reach_inv[OF assms(1,2)] by auto
  have len: "length (pool m) = nat (sessionPoolSize c)" "0 < nat (sessionPoolSize c)"
    using inv(2) assms(4) sessionPoolSize_pos[of c] by (auto simp: full_pools_def)
  then obtain slot rest where ps: "pool m = slot # rest" by (cases "pool m") auto
  have "\<exists>r e'. oe_Predict ort oor ce mid v x e = (Done r, e')"
  proof (cases "resolveInputs (modelID m) (inputNames m) x")
    case (Inr ins)
    from oe_Predict_run[OF inv(1) assms(2-4) Inr ps, of oor "latency_ms ce"] assms(5)
    obtain r where "fst (runSlot ort oor (latency_ms ce) m slot ins mid) = Done r" by auto
    then show ?thesis using assms(3,4) Inr ps
      by (cases "runSlot ort oor (latency_ms ce) m slot ins mid") (auto simp: oe_Predict_def split: option.split)
  qed (use assms(3,4) in \<open>simp add: oe_Predict_def\<close>)
  then obtain r e' where r: "oe_Predict ort oor ce mid v x e = (Done r, e')" by blast
  have "same_pools e e'" using oe_Predict_keeps[OF inv(1) assms(2) r] by simp
  then have "map_option (\<lambda>m. (m\<lparr>pool := []\<rparr>, length (pool m))) (map_of (oe_models e') key) =
      Some (m\<lparr>pool := []\<rparr>, length (pool m))" using assms(4) by (simp add: same_pools_def)
  then show ?thesis using r len by auto
qed

text \<open>C8: In every engine reached by calls one after the other, every loaded model has all its sessions
  back in its pool, as many as configured and at least one; so a prediction on a loaded model with an
  output always returns a result or an error, it never panics and never waits, whatever the input.\<close>

theorem onnx_predict_total:
  assumes "oe_reach ort c e" "ort_ok ort" "modelKey mid v = Inr key" "map_of (oe_models e) key = Some m" "outputNames m \<noteq> []"
  shows "length (pool m) = nat (sessionPoolSize c) \<and> 0 < length (pool m) \<and>
    (\<exists>r e'. oe_Predict ort oor ce mid v x e = (Done r, e') \<and>
       (\<exists>m'. map_of (oe_models e') key = Some m' \<and> length (pool m') = length (pool m)))"
  using assms by (rule oe_Predict_loaded)

text \<open>A binding with one float input and one float output that copies nothing; session \<open>bad\<close> cannot be created.\<close>

definition sample_ort :: "nat \<Rightarrow> ort_env" where
  "sample_ort bad = \<lparr>flattened_size = prod_list, max_len = 1000, new_tensor = (\<lambda>s d. Inr (Tensor d s)),
     get_io_info = (\<lambda>p. Inr ([\<lparr>Name = ''x'', Dimensions = [1, 2], DataType = Float\<rparr>],
                              [\<lparr>Name = ''y'', Dimensions = [1, 2], DataType = Float\<rparr>])),
     new_session = (\<lambda>i p iN oN ins outs opts. if i = bad then Inl (ErrExt ''out of memory'') else Inr i),
     session_run = (\<lambda>s ins outs. Inr outs)\<rparr>"

definition sample_cuda :: cuda_env where
  "sample_cuda = \<lparr>new_session_options = None, new_cuda_options = None, update_cuda_options = (\<lambda>_. None), append_cuda = None\<rparr>"

definition sample_model :: "string \<Rightarrow> string \<Rightarrow> model" where
  "sample_model i v = \<lparr>ID = i, Version = v, Path = ''m.onnx'', InputShape = [], OutputShape = [], Metadata = []\<rparr>"

abbreviation new_onnx :: onnx_engine where
  "new_onnx \<equiv> \<lparr>BaseEngine = NewBaseEngine, oe_models = []\<rparr>"

lemma sample_ort_ok: "ort_ok (sample_ort bad)"
  by (simp add: ort_ok_def sample_ort_def list_all2_refl)

lemma sample_load:
  obtains e m where "oe_LoadModel (\<lambda>_. False) (sample_ort 9) sample_cuda None (sample_model ''a'' ''1'') new_onnx = Done (None, e)"
    "map_of (oe_models e) ''a:1'' = Some m" "outputNames m = [''y'']"
proof -
  have "case oe_LoadModel (\<lambda>_. False) (sample_ort 9) sample_cuda None (sample_model ''a'' ''1'') new_onnx of
     Done (None, e) \<Rightarrow> (case map_of (oe_models e) ''a:1'' of Some m \<Rightarrow> outputNames m = [''y''] | None \<Rightarrow> False)
   | _ \<Rightarrow> False" by code_simp
  then show ?thesis using that by (auto split: outcome.splits prod.splits option.splits)
qed

lemma onnx_predict_total_witness:
  "\<exists>e r e'. oe_LoadModel (\<lambda>_. False) (sample_ort 9) sample_cuda None (sample_model ''a'' ''1'') new_onnx = Done (None, e) \<and>
     oe_Predict (sample_ort 9) (\<lambda>_ _. 0) \<lparr>ctx_err = None, pick = True, latency_ms = 1\<rparr> ''a'' ''1'' (GF32s [FFin 1, FFin 2]) e = (Done r, e')"
proof (rule sample_load)
  fix e m
  assume l: "oe_LoadModel (\<lambda>_. False) (sample_ort 9) sample_cuda None (sample_model ''a'' ''1'') new_onnx = Done (None, e)"
    and m: "map_of (oe_models e) ''a:1'' = Some m" "outputNames m = [''y'']"
  have "oe_reach (sample_ort 9) None e" using oe_reach.load[OF oe_reach.new l] .
  moreover have "modelKey ''a'' ''1'' = Inr ''a:1''" by code_simp
  ultimately show ?thesis using onnx_predict_total[OF _ sample_ort_ok, of 9 None e "''a''" "''1''" "''a:1''" m "\<lambda>_ _. 0"
      "\<lparr>ctx_err = None, pick = True, latency_ms = 1\<rparr>" "GF32s [FFin 1, FFin 2]"] m l by auto
qed



text \<open>C24: A successful load makes the model, and no other, visible: its information is found under its
  identifier and version, and its key is listed; every other key has the model it had before.\<close>

theorem onnx_load_visible:
  assumes "oe_LoadModel notExist ort cu c m e = Done (None, e')"
  shows "oe_GetModelInfo (ID m) (Version m) e' = Inr \<lparr>ID = ID m, Version = Version m, Path = Path m, InputShape = [],
           OutputShape = [], Metadata = []\<rparr> \<and>
         version_key (ID m) (Version m) \<in> set (oe_ListModels e') \<and>
         (\<forall>i v. (i, v) \<noteq> (ID m, Version m) \<longrightarrow> oe_GetModelInfo i v e' = oe_GetModelInfo i v e)"
proof (rule oe_LoadModel_None[OF assms])
  fix key om
  assume h: "modelKey (ID m) (Version m) = Inr key" "e' = e\<lparr>oe_models := aput key om (oe_models e)\<rparr>"
    "modelID om = ID m" "modelPath om = Path m" "metadata om = []"
  have k: "key = version_key (ID m) (Version m)" using h(1) by (simp add: modelKey_Inr)
  have "oe_GetModelInfo i v e' = oe_GetModelInfo i v e" if "(i, v) \<noteq> (ID m, Version m)" for i v
  proof (cases "modelKey i v")
    case (Inr k')
    then have "k' \<noteq> key" using modelKey_inject h(1) that by blast
    then show ?thesis using Inr h(2) by (simp add: oe_GetModelInfo_def)
  qed (simp add: oe_GetModelInfo_def)
  moreover have "oe_GetModelInfo (ID m) (Version m) e' = Inr \<lparr>ID = ID m, Version = Version m, Path = Path m,
      InputShape = [], OutputShape = [], Metadata = []\<rparr>" using h by (simp add: oe_GetModelInfo_def)
  moreover have "version_key (ID m) (Version m) \<in> set (oe_ListModels e')"
    using h(2) k by (simp add: oe_ListModels_def aput_def)
  ultimately show ?thesis by blast
qed

lemma onnx_load_visible_witness:
  "\<exists>e. oe_LoadModel (\<lambda>_. False) (sample_ort 9) sample_cuda None (sample_model ''a'' ''1'') new_onnx = Done (None, e) \<and>
     ''a:1'' \<in> set (oe_ListModels e)"
proof (rule sample_load)
  fix e
  assume l: "oe_LoadModel (\<lambda>_. False) (sample_ort 9) sample_cuda None (sample_model ''a'' ''1'') new_onnx = Done (None, e)"
  then show ?thesis using onnx_load_visible[OF l] by (simp add: sample_model_def version_key_def)
qed

text \<open>The engine's keys separate models: two identifiers and versions that it accepts have the same
  key only when they are the same. The keys of the model manager do not: \<open>a:b\<close> without a version and
  version \<open>b\<close> of \<open>a\<close> are one entry there.\<close>

theorem model_keys_separate:
  "(modelKey i v = Inr k \<and> modelKey i' v' = Inr k \<longrightarrow> i = i' \<and> v = v') \<and>
   (b \<noteq> [] \<longrightarrow> GetModel (a @ '':'' @ b) [] mm = GetModel a b mm \<and>
      (\<exists>err. modelKey (a @ '':'' @ b) [] = Inl err))"
proof -
  have "\<exists>err. modelKey (a @ '':'' @ b) [] = Inl err"
  proof (cases "modelKey (a @ '':'' @ b) []")
    case (Inr k)
    then show ?thesis by (simp add: modelKey_Inr)
  qed simp
  then show ?thesis using modelKey_inject by (auto simp: GetModel_def version_key_def)
qed

lemma model_keys_separate_witness:
  "modelKey ''a'' ''b'' = Inr ''a:b'' \<and> GetModel (''a'' @ '':'' @ ''b'') [] NewModelManager = GetModel ''a'' ''b'' NewModelManager"
proof -
  have "modelKey ''a'' ''b'' = Inr ''a:b''" by code_simp
  then show ?thesis using model_keys_separate[of "''a''" "''b''" "''a:b''" "''a''" "''b''" "''b''" "''a''" NewModelManager] by blast
qed

text \<open>A load with tracing that passes the model manager and then fails in the engine leaves the two
  registries different: the model is not loaded in the engine, yet loading it again is refused as
  already existing, whatever has been repaired in between.\<close>

theorem onnx_tracing_desync:
  assumes "be_LoadModelWithTracing env cr m (BaseEngine e) = (None, b)"
    and "oe_LoadModel notExist ort cu c m (e\<lparr>BaseEngine := b\<rparr>) = Done (Some err, e')"
    and "version_key (ID m) (Version m) \<notin> set (oe_ListModels e)"
  shows "oe_LoadModelWithTracing env cr notExist ort cu c m e = Done (Some err, e') \<and>
    (\<exists>err'. oe_GetModelInfo (ID m) (Version m) e' = Inl err') \<and>
    (\<exists>e''. oe_LoadModelWithTracing env' cr' notExist' ort' cu' c' m e' = Done (Some ErrModelAlreadyExists, e''))"
proof -
  have e': "e' = e\<lparr>BaseEngine := b\<rparr>" using assms(2)
    by (auto simp: oe_LoadModel_def Let_def bind_outcome_Done_iff split: sum.splits if_splits)
  obtain mdl where l: "LoadModel env cr (ID m) (Version m) (Path m) (InputShape m) (OutputShape m) (Metadata m)
      (modelManager (BaseEngine e)) = (Inr mdl, modelManager b)"
    using assms(1) by (auto simp: be_LoadModelWithTracing_def split: prod.splits sum.splits)
  have g: "GetModel (ID m) (Version m) (modelManager b) = Some mdl" using LoadModel_Inr[OF l] by simp
  have "LoadModel env' cr' (ID m) (Version m) (Path m) (InputShape m) (OutputShape m) (Metadata m) (modelManager b) =
      (Inl ErrModelAlreadyExists, count_load (ID m) (Version m) ''error'' (modelManager b))"
    by (cases rule: LoadModel_cases[of "ID m" "Version m" "modelManager b" env' cr' "Path m" "InputShape m" "OutputShape m" "Metadata m"])
      (use g in auto)
  then have "\<exists>e''. oe_LoadModelWithTracing env' cr' notExist' ort' cu' c' m e' = Done (Some ErrModelAlreadyExists, e'')"
    by (simp add: oe_LoadModelWithTracing_def be_LoadModelWithTracing_def e')
  moreover have "\<exists>err'. oe_GetModelInfo (ID m) (Version m) e' = Inl err'"
  proof (cases "modelKey (ID m) (Version m)")
    case (Inr k)
    then have "map_of (oe_models e) k = None"
      using assms(3) by (auto simp: modelKey_Inr oe_ListModels_def map_of_eq_None_iff)
    then show ?thesis using Inr e' by (simp add: oe_GetModelInfo_def)
  qed (simp add: oe_GetModelInfo_def)
  moreover have "oe_LoadModelWithTracing env cr notExist ort cu c m e = Done (Some err, e')"
    using assms(1,2) by (simp add: oe_LoadModelWithTracing_def)
  ultimately show ?thesis by blast
qed

lemma onnx_tracing_desync_witness:
  "\<exists>err e' e''. oe_LoadModelWithTracing (sample_env ''m.onnx'' [1]) sample_crypto (\<lambda>_. False) (sample_ort 9) sample_cuda None
       (sample_model ''a:b'' []) new_onnx = Done (Some err, e') \<and>
     oe_LoadModelWithTracing (sample_env ''m.onnx'' [1]) sample_crypto (\<lambda>_. False) (sample_ort 9) sample_cuda None
       (sample_model ''a:b'' []) e' = Done (Some ErrModelAlreadyExists, e'')"
proof -
  let ?m = "sample_model ''a:b'' []"
  let ?b = "snd (be_LoadModelWithTracing (sample_env ''m.onnx'' [1]) sample_crypto ?m NewBaseEngine)"
  have "fst (be_LoadModelWithTracing (sample_env ''m.onnx'' [1]) sample_crypto ?m NewBaseEngine) = None" by code_simp
  then have b: "be_LoadModelWithTracing (sample_env ''m.onnx'' [1]) sample_crypto ?m (BaseEngine new_onnx) = (None, ?b)"
    by (simp add: prod_eq_iff)
  have "\<exists>err. modelKey ''a:b'' [] = Inl err" by (simp add: modelKey_def contains_char_iff)
  then obtain err where l: "oe_LoadModel (\<lambda>_. False) (sample_ort 9) sample_cuda None ?m (new_onnx\<lparr>BaseEngine := ?b\<rparr>) =
      Done (Some err, new_onnx\<lparr>BaseEngine := ?b\<rparr>)" by (auto simp: oe_LoadModel_def sample_model_def)
  from onnx_tracing_desync[OF b l] show ?thesis by (simp add: oe_ListModels_def)
qed

lemma first_found_find: "first_found stat tried ps = (case find stat ps of
    Some p \<Rightarrow> (p, tried @ takeWhile (\<lambda>p. \<not> stat p) ps @ [p]) | None \<Rightarrow> ([], tried @ ps))"
  by (induction ps arbitrary: tried) (simp_all split: option.split)

text \<open>C25: The shared library that the engine uses is the first existing one of the environment
  variable, the configured path (each unless empty) and the well-known paths, and the paths reported
  as tried are those up to it, all of them when none exists.\<close>

theorem lib_path_first_existing:
  "resolveONNXRuntimeLibPath stat home envPath c =
     (let cands = filter (\<lambda>p. p \<noteq> []) [envPath, case c of Some c \<Rightarrow> LibPath c | None \<Rightarrow> []] @ wellKnownONNXRuntimePaths home
      in case find stat cands of
           Some p \<Rightarrow> (p, takeWhile (\<lambda>p. \<not> stat p) cands @ [p])
         | None \<Rightarrow> ([], cands))"
proof -
  define l where "l = (case c of Some c \<Rightarrow> LibPath c | None \<Rightarrow> [])"
  define w where "w = wellKnownONNXRuntimePaths home"
  show ?thesis
    unfolding resolveONNXRuntimeLibPath_def Let_def first_found_find l_def[symmetric] w_def[symmetric]
    by (cases "envPath = []"; cases "l = []"; cases "stat envPath"; cases "stat l") (simp_all split: option.split)
qed

text \<open>A sequential batch that succeeds has one prediction per input, and whatever happens in it,
  every session is back in its pool.\<close>

theorem sequential_batch_conserves:
  assumes "oe_reach ort c e" "ort_ok ort" "oe_BatchPredict ort oor ctx ces mid v xs e = (r, e')"
  shows "(\<forall>ps. r = Done (Inr ps) \<longrightarrow> length ps = length xs) \<and>
    (\<forall>k m. map_of (oe_models e') k = Some m \<longrightarrow> length (pool m) = nat (sessionPoolSize c))"
proof -
  have "full_pools c e'" using oe_reach_inv[OF oe_reach.batch[OF assms(1,3)] assms(2)] by simp
  then show ?thesis using assms(3) predict_loop_Inr[of ort oor ctx ces mid v 0 xs "[]" e]
    by (auto simp: oe_BatchPredict_def PredictSequential_def full_pools_def)
qed

lemma sequential_batch_conserves_witness:
  "\<exists>e. oe_LoadModel (\<lambda>_. False) (sample_ort 9) sample_cuda None (sample_model ''a'' ''1'') new_onnx = Done (None, e) \<and>
     (\<forall>r e'. oe_BatchPredict (sample_ort 9) (\<lambda>_ _. 0) (\<lambda>_. None) (\<lambda>_. \<lparr>ctx_err = None, pick = True, latency_ms = 1\<rparr>)
        ''a'' ''1'' [GF32s [FFin 1, FFin 2], GBools [True]] e = (r, e') \<longrightarrow>
        (\<forall>k m. map_of (oe_models e') k = Some m \<longrightarrow> length (pool m) = nat (sessionPoolSize None)))"
proof (rule sample_load)
  fix e
  assume l: "oe_LoadModel (\<lambda>_. False) (sample_ort 9) sample_cuda None (sample_model ''a'' ''1'') new_onnx = Done (None, e)"
  show ?thesis using l sequential_batch_conserves[OF oe_reach.load[OF oe_reach.new l] sample_ort_ok] by blast
qed

text \<open>The CUDA set-up never fails the load, and leaves a handle allocated only for the options it returns.\<close>

lemma buildSessionOpts_no_leak:
  "buildSessionOpts cu c = (r, live) \<Longrightarrow>
     \<exists>opts. r = Inr opts \<and> live = (if opts = None then {} else {SessionOptionsH})"
  by (auto simp: buildSessionOpts_def Let_def split: option.splits if_splits)

section \<open>The contract of an engine\<close>

text \<open>
  The engine as the workers call it, one call between loads and unloads: ready when it is reachable and its
  models have outputs.
\<close>

definition onnx_predict :: "ort_env \<Rightarrow> (dtype \<Rightarrow> fp \<Rightarrow> int) \<Rightarrow> call_env \<Rightarrow> onnx_engine \<Rightarrow>
    string \<Rightarrow> string \<Rightarrow> goval \<Rightarrow> prediction res outcome" where
  "onnx_predict ort oor ce e m v x = fst (oe_Predict ort oor ce m v x e)"

definition onnx_ready :: "ort_env \<Rightarrow> config option \<Rightarrow> onnx_engine \<Rightarrow> bool" where
  "onnx_ready ort c e \<longleftrightarrow> oe_reach ort c e \<and> ort_ok ort \<and> (\<forall>k m. map_of (oe_models e) k = Some m \<longrightarrow> outputNames m \<noteq> [])"

lemma runSlot_Inr:
  assumes "fst (runSlot ort oor lat m slot ins mid) = Done (Inr p)"
  shows "ModelID p = mid \<and> PVersion p = [] \<and> (\<exists>ds. Output p = output_map mid (outputNames m) ds)"
proof -
  obtain e ts where f: "fill_inputs oor (inputNames m) (inputs slot) ins = Done (e, ts)"
    using assms by (cases "fill_inputs oor (inputNames m) (inputs slot) ins") (auto simp: runSlot_def)
  have e: "e = None" using assms f by (cases e) (auto simp: runSlot_def)
  obtain outs where o: "session_run ort (session slot) ts (outputs slot) = Inr outs"
    using assms f e by (cases "session_run ort (session slot) ts (outputs slot)") (auto simp: runSlot_def)
  obtain ds where ds: "read_outputs (outputNames m) outs = Done (Inr ds)"
    using assms f e o by (cases "read_outputs (outputNames m) outs") (auto simp: runSlot_def split: sum.splits)
  show ?thesis using assms f e o ds by (auto simp: runSlot_def split: if_splits)
qed

text \<open>A prediction of the engine: the model is loaded, the request resolves to its inputs, and a slot ran it.\<close>

lemma onnx_predict_Inr:
  assumes "onnx_predict ort oor ce e mid v x = Done (Inr p)"
  obtains key m slot ins where "modelKey mid v = Inr key" "map_of (oe_models e) key = Some m"
    "resolveInputs (modelID m) (inputNames m) x = Inr ins" "fst (runSlot ort oor (latency_ms ce) m slot ins mid) = Done (Inr p)"
    "slot \<in> set (pool m)"
proof -
  obtain key where k: "modelKey mid v = Inr key" using assms by (auto simp: onnx_predict_def oe_Predict_def split: sum.splits)
  obtain m where m: "map_of (oe_models e) key = Some m" using assms k by (auto simp: onnx_predict_def oe_Predict_def split: option.splits)
  obtain ins where i: "resolveInputs (modelID m) (inputNames m) x = Inr ins"
    using assms k m by (cases "resolveInputs (modelID m) (inputNames m) x") (auto simp: onnx_predict_def oe_Predict_def)
  obtain slot rest where s: "pool m = slot # rest"
    using assms k m i by (cases "pool m"; cases "ctx_err ce") (auto simp: onnx_predict_def oe_Predict_def)
  have "fst (runSlot ort oor (latency_ms ce) m slot ins mid) = Done (Inr p)"
    using assms k m i s by (cases "ctx_err ce"; cases "pick ce") (auto simp: onnx_predict_def oe_Predict_def split: prod.splits)
  then show ?thesis using that k m i s by simp
qed

lemma onnx_output:
  assumes "onnx_predict ort oor ce e mid v x = Done (Inr p)"
  shows "ModelID p = mid \<and> PVersion p = [] \<and> (\<exists>fs. Output p = GMap fs)"
proof (rule onnx_predict_Inr[OF assms])
  fix m slot ins
  assume "fst (runSlot ort oor (latency_ms ce) m slot ins mid) = Done (Inr p)"
  from runSlot_Inr[OF this] show ?thesis by (auto simp: output_map_def)
qed

lemma onnx_predict_done:
  assumes "oe_reach ort c e" "ort_ok ort" "\<And>k m. map_of (oe_models e) k = Some m \<Longrightarrow> outputNames m \<noteq> []"
  shows "\<forall>mid v x. \<exists>r. onnx_predict ort oor ce e mid v x = Done r"
proof (intro allI)
  fix mid v x
  show "\<exists>r. onnx_predict ort oor ce e mid v x = Done r"
  proof (cases "modelKey mid v")
    case (Inr key)
    show ?thesis
    proof (cases "map_of (oe_models e) key")
      case (Some m)
      obtain r e' where "oe_Predict ort oor ce mid v x e = (Done r, e')"
        using oe_Predict_loaded[OF assms(1,2) Inr Some assms(3)[OF Some]] by blast
      then show ?thesis by (simp add: onnx_predict_def)
    qed (simp add: Inr onnx_predict_def oe_Predict_def)
  qed (simp add: onnx_predict_def oe_Predict_def)
qed

lemma new_onnx_predict: "\<forall>m v x. \<exists>r. onnx_predict ort oor ce new_onnx m v x = Done r"
  by (auto simp: onnx_predict_def oe_Predict_def split: sum.splits)

interpretation onnx: inference_engine "onnx_predict ort oor ce" "onnx_ready ort c" for ort oor ce c
proof
  show "\<exists>r. onnx_predict ort oor ce e m v x = Done r" if "onnx_ready ort c e" for e m v x
    using onnx_predict_done that unfolding onnx_ready_def by blast
  show "ModelID p = m" if "onnx_predict ort oor ce e m v x = Done (Inr p)" for e m v x p
    using onnx_output[OF that] by simp
qed

end
