(* ===== verification/Session_Pool.thy ===== *)
theory Session_Pool
  imports ONNX_Engine "HOL-Library.Multiset"
begin

text \<open>
  Concurrent predictions on one ONNX model (\<open>Predict\<close>, \<open>runSlot\<close> and \<open>unloadModel\<close> of
  \<open>src/internal/inference/onnx_runtime.go\<close>), as a step relation. A request looks the model up under the
  read lock, takes a session slot from the channel, runs on it and sends it back by a deferred send;
  unloading closes the channel under the write lock, drains it and destroys the slots in it. A
  panic in a request is not recovered anywhere, so it ends the process.
\<close>

section \<open>State and steps\<close>

text \<open>
  The requests are those that wait in \<open>select\<close>, those that hold a slot and those that have
  returned, each with its number and resolved inputs.
\<close>

record pool_state =
  chan :: "session_slot list"
  is_closed :: bool
  waiting :: "(nat \<times> fp list list) list"
  holding :: "(nat \<times> fp list list \<times> session_slot) list"
  finished :: "(nat \<times> prediction res) list"
  destroyed :: "session_slot list"
  crashed :: bool

text \<open>The channel that \<open>LoadModel\<close> has filled.\<close>

definition pool_init :: "onnx_model \<Rightarrow> pool_state" where
  "pool_init m = \<lparr>chan = pool m, is_closed = False, waiting = [], holding = [], finished = [], destroyed = [], crashed = False\<rparr>"

datatype label = Arrive | Take | Give | Cancel | Unload | Drain | Crash

inductive pstep :: "ort_env \<Rightarrow> (dtype \<Rightarrow> fp \<Rightarrow> int) \<Rightarrow> onnx_model \<Rightarrow> label \<Rightarrow> pool_state \<Rightarrow> pool_state \<Rightarrow> bool"
  for ort oor m where
  arrive: "\<not> crashed st \<Longrightarrow> \<not> is_closed st \<Longrightarrow> resolveInputs (modelID m) (inputNames m) x = Inr ins \<Longrightarrow>
     pstep ort oor m Arrive st (st\<lparr>waiting := waiting st @ [(r, ins)]\<rparr>)"
| take_slot: "\<not> crashed st \<Longrightarrow> chan st = s # rest \<Longrightarrow> (r, ins) \<in> set (waiting st) \<Longrightarrow>
     pstep ort oor m Take st (st\<lparr>chan := rest, waiting := remove1 (r, ins) (waiting st), holding := (r, ins, s) # holding st\<rparr>)"
| give: "\<not> crashed st \<Longrightarrow> \<not> is_closed st \<Longrightarrow> (r, ins, s) \<in> set (holding st) \<Longrightarrow> length (chan st) < length (pool m) \<Longrightarrow>
     runSlot ort oor lat m s ins (modelID m) = (Done res, s') \<Longrightarrow>
     pstep ort oor m Give st (st\<lparr>chan := chan st @ [s'], holding := remove1 (r, ins, s) (holding st),
       finished := finished st @ [(r, res)]\<rparr>)"
| give_panic: "\<not> crashed st \<Longrightarrow> (r, ins, s) \<in> set (holding st) \<Longrightarrow>
     runSlot ort oor lat m s ins (modelID m) = (Panic, s') \<Longrightarrow> pstep ort oor m Crash st (st\<lparr>crashed := True\<rparr>)"
| give_closed: "\<not> crashed st \<Longrightarrow> is_closed st \<Longrightarrow> (r, ins, s) \<in> set (holding st) \<Longrightarrow>
     pstep ort oor m Crash st (st\<lparr>crashed := True\<rparr>)"
| take_nil: "\<not> crashed st \<Longrightarrow> is_closed st \<Longrightarrow> chan st = [] \<Longrightarrow> (r, ins) \<in> set (waiting st) \<Longrightarrow>
     pstep ort oor m Crash st (st\<lparr>crashed := True\<rparr>)"
| cancel: "\<not> crashed st \<Longrightarrow> (r, ins) \<in> set (waiting st) \<Longrightarrow>
     pstep ort oor m Cancel st (st\<lparr>waiting := remove1 (r, ins) (waiting st), finished := finished st @ [(r, Inl err)]\<rparr>)"
| unload: "\<not> crashed st \<Longrightarrow> \<not> is_closed st \<Longrightarrow> pstep ort oor m Unload st (st\<lparr>is_closed := True\<rparr>)"
| drain: "\<not> crashed st \<Longrightarrow> is_closed st \<Longrightarrow> chan st = s # rest \<Longrightarrow>
     pstep ort oor m Drain st (st\<lparr>chan := rest, destroyed := destroyed st @ [s]\<rparr>)"

text \<open>
  A send on a closed channel panics (\<open>give_closed\<close>); a receive from a closed and empty channel gives
  a \<open>nil\<close> slot, which \<open>runSlot\<close> dereferences for the first input (\<open>take_nil\<close>); a slot still in the
  closed channel can be taken before it is drained.
\<close>

inductive preach :: "ort_env \<Rightarrow> (dtype \<Rightarrow> fp \<Rightarrow> int) \<Rightarrow> onnx_model \<Rightarrow> pool_state \<Rightarrow> bool" for ort oor m where
  init: "preach ort oor m (pool_init m)"
| step: "preach ort oor m st \<Longrightarrow> pstep ort oor m l st st' \<Longrightarrow> preach ort oor m st'"

inductive_cases pstepE: "pstep ort oor m l st st'"
inductive_cases crashE: "pstep ort oor m Crash st st'"

section \<open>Invariant\<close>

definition held :: "pool_state \<Rightarrow> session_slot list" where
  "held st = map (\<lambda>h. snd (snd h)) (holding st)"

text \<open>
  No slot is lost or duplicated: the sessions in the channel, in the hands of requests and
  destroyed are those of the model. Every request has as many inputs as the model.
\<close>

definition pool_inv :: "onnx_model \<Rightarrow> pool_state \<Rightarrow> bool" where
  "pool_inv m st \<longleftrightarrow>
     mset (map session (chan st @ held st @ destroyed st)) = mset (map session (pool m)) \<and>
     list_all (slot_ok m) (chan st @ held st) \<and>
     (\<not> is_closed st \<longrightarrow> destroyed st = []) \<and>
     (\<forall>(r, ins) \<in> set (waiting st). length ins = length (inputNames m)) \<and>
     (\<forall>(r, ins, s) \<in> set (holding st). length ins = length (inputNames m))"

lemma runSlot_session [simp]: "session (snd (runSlot ort oor lat m s ins mid)) = session s"
  by (simp add: runSlot_def split: outcome.split prod.split option.split sum.split)

lemma mset_held_remove: "h \<in> set (holding st) \<Longrightarrow>
    mset (map (\<lambda>h. f (snd (snd h))) (holding st)) =
      add_mset (f (snd (snd h))) (mset (map (\<lambda>h. f (snd (snd h))) (remove1 h (holding st))))"
proof -
  assume "h \<in> set (holding st)"
  then have "mset (holding st) = add_mset h (mset (remove1 h (holding st)))" by simp
  then have "image_mset (\<lambda>h. f (snd (snd h))) (mset (holding st)) =
      image_mset (\<lambda>h. f (snd (snd h))) (add_mset h (mset (remove1 h (holding st))))" by (rule arg_cong)
  then show ?thesis by simp
qed

lemma set_remove1_D: "x \<in> set (remove1 y xs) \<Longrightarrow> x \<in> set xs"
  using set_remove1_subset[of y xs] by blast

lemma list_all_held_remove: "list_all P (held st) \<Longrightarrow>
    list_all P (map (\<lambda>h. snd (snd h)) (remove1 h (holding st)))"
  by (auto simp: held_def list_all_iff dest: set_remove1_D)

lemma pool_inv_init [inv_intros]: "omodel_ok m \<Longrightarrow> pool_inv m (pool_init m)"
  by (simp add: pool_inv_def pool_init_def held_def omodel_ok_def)

lemma pool_inv_give:
  assumes inv: "pool_inv m st" and h: "(r, ins, s) \<in> set (holding st)" and s': "session s' = session s" "slot_ok m s'"
  shows "pool_inv m (st\<lparr>chan := chan st @ [s'], holding := remove1 (r, ins, s) (holding st), finished := fs\<rparr>)"
  using inv s' mset_held_remove[OF h, of session] list_all_held_remove[of "slot_ok m" st "(r, ins, s)"]
  unfolding pool_inv_def held_def by (auto simp: o_def dest: set_remove1_D)

lemma pool_inv_step [inv_intros]:
  assumes inv: "pool_inv m st" and ok: "ort_ok ort" "omodel_ok m" and st: "pstep ort oor m l st st'"
  shows "pool_inv m st'"
  using st
proof (cases rule: pstep.cases)
  case (arrive x ins r)
  then show ?thesis using inv resolveInputs_length[OF arrive(5)] by (auto simp: pool_inv_def held_def)
next
  case (take_slot s rest r ins)
  then show ?thesis using inv by (auto simp: pool_inv_def held_def dest: set_remove1_D)
next
  case (give r ins s lat res s')
  have "slot_ok m s" "length ins = length (inputNames m)"
    using inv give(5) unfolding pool_inv_def held_def by (force simp: list_all_iff)+
  then have "slot_ok m s'" using runSlot_total[OF ok, of s ins oor lat "modelID m"] give(7) by simp
  moreover have "session s' = session s" using runSlot_session[of ort oor lat m s ins "modelID m"] give(7) by simp
  ultimately show ?thesis using pool_inv_give[OF inv give(5)] give(2) by simp
next
  case (cancel r ins err)
  then show ?thesis using inv by (auto simp: pool_inv_def held_def dest: set_remove1_D)
qed (use inv in \<open>auto simp: pool_inv_def held_def\<close>)

lemma preach_inv: "preach ort oor m st \<Longrightarrow> ort_ok ort \<Longrightarrow> omodel_ok m \<Longrightarrow> pool_inv m st"
  by (induction rule: preach.induct) (auto intro: inv_intros)

text \<open>While the model is loaded, slots are in the channel or in use, so there is room for a slot in use.\<close>

lemma pool_inv_room:
  assumes "pool_inv m st" "\<not> is_closed st"
  shows "length (chan st) + length (holding st) = length (pool m)"
proof -
  have "mset (map session (chan st @ held st @ destroyed st)) = mset (map session (pool m))" "destroyed st = []"
    using assms by (auto simp: pool_inv_def)
  from mset_eq_length[OF this(1)] this(2) show ?thesis by (simp add: held_def)
qed

section \<open>No crash while the model stays loaded\<close>

lemma closed_mono:
  assumes "pstep ort oor m l st st'" "is_closed st"
  shows "is_closed st'"
  using assms by (cases rule: pstep.cases) auto

lemma crash_cause:
  assumes "pool_inv m st" "ort_ok ort" "omodel_ok m" "outputNames m \<noteq> []" "pstep ort oor m l st st'" "\<not> crashed st" "crashed st'"
  shows "is_closed st"
  using assms(5)
proof (cases rule: pstep.cases)
  case (give_panic r ins s lat s')
  have "slot_ok m s" "length ins = length (inputNames m)"
    using assms(1) give_panic(4) unfolding pool_inv_def held_def by (force simp: list_all_iff)+
  then show ?thesis using runSlot_total[OF assms(2,3), of s ins oor lat "modelID m"] assms(4) give_panic(5) by auto
qed (use assms(6,7) in auto)

lemma preach_no_crash:
  assumes "preach ort oor m st" "ort_ok ort" "omodel_ok m" "outputNames m \<noteq> []"
  shows "\<not> is_closed st \<Longrightarrow> \<not> crashed st"
  using assms(1)
proof (induction rule: preach.induct)
  case (step st l st')
  then have "\<not> is_closed st" using closed_mono by blast
  then show ?case using crash_cause[OF preach_inv[OF step.hyps(1) assms(2,3)] assms(2-4) step.hyps(2)] step.IH by blast
qed (simp add: pool_init_def)

section \<open>Progress\<close>

text \<open>A measure that every step but an arrival decreases.\<close>

definition pool_measure :: "pool_state \<Rightarrow> nat" where
  "pool_measure st = 4 * length (waiting st) + 3 * length (holding st) + length (chan st) +
     (if is_closed st then 0 else 1) + (if crashed st then 0 else 1)"

lemma length_remove1_in: "x \<in> set xs \<Longrightarrow> length xs = Suc (length (remove1 x xs))"
  by (induction xs) auto

lemma pool_measure_decreases:
  assumes st: "pstep ort oor m l st st'" and l: "l \<noteq> Arrive"
  shows "pool_measure st' < pool_measure st"
  using st
proof (cases rule: pstep.cases)
  case (take_slot s rest r ins)
  then show ?thesis using length_remove1_in[OF take_slot(5)] by (simp add: pool_measure_def)
next
  case (give r ins s lat res s')
  then show ?thesis using length_remove1_in[OF give(5)] by (simp add: pool_measure_def)
next
  case (cancel r ins err)
  then show ?thesis using length_remove1_in[OF cancel(4)] by (simp add: pool_measure_def)
qed (use l in \<open>auto simp: pool_measure_def\<close>)

section \<open>Properties\<close>

text \<open>C2: In every interleaving of requests, cancellations and an unload, the slots in the channel, in
  the hands of requests and destroyed are exactly the slots of the model, each once: when its
  sessions are distinct, no two requests hold the same session, no request holds one that is in the
  channel or destroyed, and never more requests run than there are sessions.\<close>

theorem slots_exclusive:
  assumes "preach ort oor m st" "ort_ok ort" "omodel_ok m" "distinct (map session (pool m))"
  shows "distinct (map session (chan st @ held st @ destroyed st)) \<and>
    set (map session (chan st @ held st @ destroyed st)) = set (map session (pool m)) \<and>
    length (holding st) \<le> length (pool m)"
proof -
  have "mset (map session (chan st @ held st @ destroyed st)) = mset (map session (pool m))"
    using preach_inv[OF assms(1-3)] by (simp add: pool_inv_def)
  from mset_eq_imp_distinct_iff[OF this] mset_eq_setD[OF this] mset_eq_length[OF this] assms(4)
  show ?thesis by (simp add: held_def)
qed

text \<open>C3: As long as the model is not unloaded no request crashes the process, and no request is stuck:
  a request that holds a slot can always send it back without waiting for anyone, and when a request
  waits there is a slot to take or another request that holds one. Every sequence of steps without new arrivals ends, after at
  most four steps per waiting and three per running request, the size of the channel and one.\<close>

theorem pool_progress:
  assumes "preach ort oor m st" "ort_ok ort" "omodel_ok m" "outputNames m \<noteq> []" "pool m \<noteq> []" "\<not> is_closed st"
  shows "\<not> crashed st \<and>
    (\<forall>r ins s. (r, ins, s) \<in> set (holding st) \<longrightarrow>
       (\<exists>st' res. pstep ort oor m Give st st' \<and> finished st' = finished st @ [(r, res)])) \<and>
    (waiting st \<noteq> [] \<longrightarrow> (\<exists>st'. pstep ort oor m Take st st') \<or> holding st \<noteq> []) \<and>
    (\<forall>l st'. pstep ort oor m l st st' \<and> l \<noteq> Arrive \<longrightarrow> pool_measure st' < pool_measure st)"
proof -
  have inv: "pool_inv m st" using preach_inv[OF assms(1-3)] .
  have nc: "\<not> crashed st" using preach_no_crash[OF assms(1-4,6)] .
  note room = pool_inv_room[OF inv assms(6)]
  have "\<exists>st' res. pstep ort oor m Give st st' \<and> finished st' = finished st @ [(r, res)]"
    if h: "(r, ins, s) \<in> set (holding st)" for r ins s
  proof -
    have s: "slot_ok m s" "length ins = length (inputNames m)"
      using inv h unfolding pool_inv_def held_def by (force simp: list_all_iff)+
    obtain res s' where run: "runSlot ort oor 0 m s ins (modelID m) = (Done res, s')"
      using runSlot_total[OF assms(2,3) s, of oor 0 "modelID m"] assms(4)
      by (cases "runSlot ort oor 0 m s ins (modelID m)") auto
    have "length (chan st) < length (pool m)" using room h by (cases "holding st") auto
    from pstep.give[OF nc assms(6) h this run] show ?thesis by fastforce
  qed
  moreover have "(\<exists>st'. pstep ort oor m Take st st') \<or> holding st \<noteq> []" if w: "waiting st \<noteq> []"
  proof (cases "chan st")
    case Nil
    then show ?thesis using room assms(5) by auto
  next
    case (Cons s rest)
    obtain r ins where "(r, ins) \<in> set (waiting st)" using w by (cases "waiting st") auto
    from pstep.take_slot[OF nc Cons this] show ?thesis by blast
  qed
  ultimately show ?thesis using nc pool_measure_decreases by blast
qed

text \<open>C38: Unloading a model with a request in flight crashes the process: when a request holds a slot at
  the unload, it cannot return any more (every step that would end it is a crash), and the crash is
  always possible.\<close>

theorem unload_in_flight_crashes:
  assumes "preach ort oor m st" "\<not> crashed st" "\<not> is_closed st" "(r, ins, s) \<in> set (holding st)"
  shows "\<exists>st1. pstep ort oor m Unload st st1 \<and> (\<exists>st2. pstep ort oor m Crash st1 st2 \<and> crashed st2) \<and>
    (\<forall>l st2. pstep ort oor m l st1 st2 \<longrightarrow> (r, ins, s) \<in> set (holding st2) \<and> is_closed st2)"
proof -
  let ?st1 = "st\<lparr>is_closed := True\<rparr>"
  have u: "pstep ort oor m Unload st ?st1" using pstep.unload[OF assms(2,3)] .
  have "pstep ort oor m Crash ?st1 (?st1\<lparr>crashed := True\<rparr>)"
    by (rule pstep.give_closed[of ?st1 r ins s]) (use assms in auto)
  moreover have "(r, ins, s) \<in> set (holding st2) \<and> is_closed st2" if "pstep ort oor m l ?st1 st2" for l st2
    using that assms(4) by (cases rule: pstep.cases) auto
  ultimately show ?thesis using u by fastforce
qed

text \<open>A loaded model and one request that has taken a slot.\<close>

lemma sample_pool:
  obtains e :: onnx_engine and m st s where "map_of (oe_models e) ''a:1'' = Some m" "outputNames m = [''y'']" "pool m \<noteq> []" "omodel_ok m"
    "distinct (map session (pool m))"
    "preach (sample_ort 9) (\<lambda>_ _. 0) m st" "(1, [[FFin 1, FFin 2]], s) \<in> set (holding st)" "\<not> crashed st" "\<not> is_closed st"
proof (rule sample_load)
  fix e m
  assume l: "oe_LoadModel (\<lambda>_. False) (sample_ort 9) sample_cuda None (sample_model ''a'' ''1'') new_onnx = Done (None, e)"
    and m: "map_of (oe_models e) ''a:1'' = Some m" "outputNames m = [''y'']"
  have inv: "oe_inv e" "full_pools None e" using oe_reach_inv[OF oe_reach.load[OF oe_reach.new l] sample_ort_ok] by auto
  have ok: "omodel_ok m" using oe_inv_lookup[OF inv(1) m(1)] by simp
  have "case oe_LoadModel (\<lambda>_. False) (sample_ort 9) sample_cuda None (sample_model ''a'' ''1'') new_onnx of
     Done (None, e) \<Rightarrow> (case map_of (oe_models e) ''a:1'' of Some m \<Rightarrow> map session (pool m) = [0, 1, 2, 3] \<and> inputNames m = [''x''] | None \<Rightarrow> False)
   | _ \<Rightarrow> False" by code_simp
  then have d: "map session (pool m) = [0, 1, 2, 3]" "inputNames m = [''x'']" using l m by auto
  then obtain s rest where p: "pool m = s # rest" by (cases "pool m") auto
  have "resolveInputs (modelID m) (inputNames m) (GF64s [FFin 1, FFin 2]) = Inr [[FFin 1, FFin 2]]"
    by (simp add: resolveInputs_def d(2))
  then have 1: "preach (sample_ort 9) (\<lambda>_ _. 0) m ((pool_init m)\<lparr>waiting := [(1, [[FFin 1, FFin 2]])]\<rparr>)"
    using preach.step[OF preach.init pstep.arrive, of m "GF64s [FFin 1, FFin 2]" "[[FFin 1, FFin 2]]" "sample_ort 9" "\<lambda>_ _. 0" 1]
    by (simp add: pool_init_def)
  have 2: "preach (sample_ort 9) (\<lambda>_ _. 0) m
      ((pool_init m)\<lparr>waiting := [], chan := rest, holding := [(1, [[FFin 1, FFin 2]], s)]\<rparr>)"
    using preach.step[OF 1 pstep.take_slot, of s rest 1 "[[FFin 1, FFin 2]]"] p by (simp add: pool_init_def)
  have "pool m \<noteq> []" "distinct (map session (pool m))" unfolding d(1) using p by simp_all
  then show ?thesis by (intro that[OF m _ ok _ 2, of s]) (simp_all add: pool_init_def)
qed

lemma slots_exclusive_witness:
  "\<exists>m st. preach (sample_ort 9) (\<lambda>_ _. 0) m st \<and> holding st \<noteq> [] \<and> distinct (map session (chan st @ held st @ destroyed st))"
proof (rule sample_pool)
  fix e m st s
  assume "omodel_ok m" "distinct (map session (pool m))" "preach (sample_ort 9) (\<lambda>_ _. 0) m st"
    "(1, [[FFin 1, FFin 2]], s) \<in> set (holding st)"
  then show ?thesis using slots_exclusive[OF _ sample_ort_ok, of 9 "\<lambda>_ _. 0" m st]
    by (intro exI[of _ m] exI[of _ st]) auto
qed

lemma pool_progress_witness:
  "\<exists>m st st'. preach (sample_ort 9) (\<lambda>_ _. 0) m st \<and> holding st \<noteq> [] \<and> pstep (sample_ort 9) (\<lambda>_ _. 0) m Give st st'"
proof (rule sample_pool)
  fix e m st s
  assume h: "omodel_ok m" "outputNames m = [''y'']" "pool m \<noteq> []" "preach (sample_ort 9) (\<lambda>_ _. 0) m st"
    "(1, [[FFin 1, FFin 2]], s) \<in> set (holding st)" "\<not> is_closed st"
  then have "\<exists>st' res. pstep (sample_ort 9) (\<lambda>_ _. 0) m Give st st' \<and> finished st' = finished st @ [(1, res)]"
    using pool_progress[OF h(4) sample_ort_ok h(1) _ h(3,6)] by simp blast
  then show ?thesis using h(4,5) by force
qed

lemma unload_in_flight_crashes_witness:
  "\<exists>m st st1 st2. preach (sample_ort 9) (\<lambda>_ _. 0) m st \<and> pstep (sample_ort 9) (\<lambda>_ _. 0) m Unload st st1 \<and>
     pstep (sample_ort 9) (\<lambda>_ _. 0) m Crash st1 st2 \<and> crashed st2"
proof (rule sample_pool)
  fix e m st s
  assume h: "preach (sample_ort 9) (\<lambda>_ _. 0) m st" "(1, [[FFin 1, FFin 2]], s) \<in> set (holding st)" "\<not> crashed st" "\<not> is_closed st"
  from unload_in_flight_crashes[OF h(1,3,4,2)] h(1) show ?thesis by blast
qed

end
