(* ===== verification/TFLite_Engine.thy ===== *)
theory TFLite_Engine
  imports Engine Tensors "HOL-Library.Multiset"
begin

text \<open>
  The TensorFlow Lite engines: the mock of builds without the tag
  (\<open>src/internal/inference/tflite_engine_mock.go\<close>, prefix \<open>tm_\<close>) and the one over the C API
  (\<open>src/internal/inference/tflite_engine_cgo.go\<close>, prefix \<open>tc_\<close>), whose C calls are parameters. Both embed the base engine,
  which keys models by identifier and version, and keep a map of their own that is keyed by the identifier alone.
\<close>

section \<open>The mock engine\<close>

record tm_model =
  InputSize :: int
  OutputSize :: int
  Labels :: "string list"

record tm_engine =
  tm_base :: base_engine
  tm_models :: "(string \<times> tm_model) list"

definition tm_New :: tm_engine where
  "tm_New = \<lparr>tm_base = NewBaseEngine, tm_models = []\<rparr>"

definition tm_unloadModel :: "string \<Rightarrow> tm_engine \<Rightarrow> gerr option \<times> tm_engine" where
  "tm_unloadModel modelID e = (case be_UnloadModel modelID [] (tm_base e) of
     (err, b) \<Rightarrow> (err, e\<lparr>tm_base := b, tm_models := adel modelID (tm_models e)\<rparr>))"

text \<open>\<open>Close\<close> unloads every model, then forgets them all.\<close>

definition tm_Close :: "tm_engine \<Rightarrow> tm_engine" where
  "tm_Close e = (fold (\<lambda>k e. snd (tm_unloadModel k e)) (map fst (tm_models e)) e)\<lparr>tm_models := []\<rparr>"

text \<open>\<open>labels_file\<close> is what \<open>labels.json\<close> beside the model holds: no file, an undecodable one, or labels.\<close>

definition loadLabels :: "(string \<Rightarrow> string list res option) \<Rightarrow> string \<Rightarrow> string list res" where
  "loadLabels labels_file modelPath = (case labels_file modelPath of
       None \<Rightarrow> Inr []
     | Some (Inl e) \<Rightarrow> Inl (Errorw ''error decoding labels JSON: %w'' [] e)
     | Some (Inr ls) \<Rightarrow> Inr ls)"

definition tm_LoadModel :: "(string \<Rightarrow> string list res option) \<Rightarrow> model \<Rightarrow> tm_engine \<Rightarrow> gerr option \<times> tm_engine" where
  "tm_LoadModel labels_file m e = (case be_LoadModel m (tm_base e) of
       (Some err, b) \<Rightarrow> (Some err, e\<lparr>tm_base := b\<rparr>)
     | (None, b) \<Rightarrow> (None, e\<lparr>tm_base := b, tm_models := aput (ID m)
         \<lparr>InputSize = 224, OutputSize = 1000,
          Labels = (case loadLabels labels_file (Path m) of Inl _ \<Rightarrow> [] | Inr ls \<Rightarrow> ls)\<rparr> (tm_models e)\<rparr>))"

definition tm_UnloadModel :: "string \<Rightarrow> string \<Rightarrow> tm_engine \<Rightarrow> gerr option \<times> tm_engine" where
  "tm_UnloadModel modelID version e = tm_unloadModel modelID e"

text \<open>The mock's preprocessing: a zero tensor of \<open>sz * sz * 3\<close> values.\<close>

definition preprocessImage :: "nat \<Rightarrow> fp list" where
  "preprocessImage sz = replicate (sz * sz * 3) (FFin 0)"

definition tm_result :: "string \<Rightarrow> rat \<Rightarrow> (string \<times> goval) list" where
  "tm_result l s = [(''label'', GString l), (''score'', GF64 (fround F64 False s))]"

definition tm_Predict :: "int \<Rightarrow> string \<Rightarrow> string \<Rightarrow> goval \<Rightarrow> tm_engine \<Rightarrow> prediction res" where
  "tm_Predict latency modelID version input e = (case map_of (tm_models e) modelID of
       None \<Rightarrow> Inl ErrModelNotFound
     | Some m \<Rightarrow> Inr \<lparr>ModelID = modelID, PVersion = [],
         Output = GMaps [tm_result ''mock_class_1'' (95 / 100), tm_result ''mock_class_2'' (3 / 100), tm_result ''mock_class_3'' (2 / 100)],
         PMetadata = GMap [(''framework'', GString ''tflite-mock''),
           (''input_shape'', GInts [1, InputSize m, InputSize m, 3]), (''output_shape'', GInts [1, OutputSize m]),
           (''note'', GString ''This is a mock implementation. Install TensorFlow Lite for actual inference.'')],
         Latency = latency\<rparr>)"

text \<open>A failed prediction is logged and left out of the results.\<close>

definition tm_BatchPredict :: "int \<Rightarrow> string \<Rightarrow> string \<Rightarrow> goval list \<Rightarrow> tm_engine \<Rightarrow> prediction list res" where
  "tm_BatchPredict latency modelID version inputs e =
     (if map_of (tm_models e) modelID = None then Inl ErrModelNotFound
      else Inr (concat (map (\<lambda>x. case tm_Predict latency modelID version x e of Inl _ \<Rightarrow> [] | Inr p \<Rightarrow> [p]) inputs)))"

text \<open>
  The mock engine keeps the contract of the interface. The engine over the C API does not: it panics on an empty input.
\<close>

interpretation tfl_mock: inference_engine "\<lambda>e m v x. Done (tm_Predict latency m v x e)" "\<lambda>_. True" for latency
  by unfold_locales (auto simp: tm_Predict_def split: option.splits)

section \<open>The best classes\<close>

text \<open>The exchange sort of \<open>getTopNResults\<close>: two nested loops over the slice of indices.\<close>

definition swap_if_less :: "fp list \<Rightarrow> nat \<Rightarrow> nat \<Rightarrow> nat list \<Rightarrow> nat list" where
  "swap_if_less out i j idx = (if flt (out ! (idx ! i)) (out ! (idx ! j)) then idx[i := idx ! j, j := idx ! i] else idx)"

definition inner_loop :: "fp list \<Rightarrow> nat \<Rightarrow> nat list \<Rightarrow> nat list" where
  "inner_loop out i idx = fold (swap_if_less out i) [Suc i..<length idx] idx"

definition sort_indices :: "fp list \<Rightarrow> nat list" where
  "sort_indices out = fold (inner_loop out) [0..<length out] [0..<length out]"

text \<open>\<open>Class %d\<close>; the decimal digits of the index are the parameter \<open>itoa\<close>.\<close>

definition topN_entry :: "(nat \<Rightarrow> string) \<Rightarrow> fp list \<Rightarrow> string list \<Rightarrow> nat \<Rightarrow> (string \<times> goval) list" where
  "topN_entry itoa out labels k = [(''label'', GString (if k < length labels then labels ! k else ''Class '' @ itoa k)), (''score'', GF32 (out ! k))]"

definition getTopNResults :: "(nat \<Rightarrow> string) \<Rightarrow> fp list \<Rightarrow> string list \<Rightarrow> nat \<Rightarrow> (string \<times> goval) list list" where
  "getTopNResults itoa out labels topN =
     (if out = [] \<or> labels = [] then []
      else map (topN_entry itoa out labels) (take topN (sort_indices out)))"

section \<open>The engine over the C API\<close>

text \<open>
  The C calls: handles are numbers, \<open>None\<close> is the null pointer, a \<open>bool\<close> says whether the status was
  \<open>kTfLiteOk\<close>.
\<close>

record tfl_api =
  model_create :: "bytes \<Rightarrow> nat option"
  options_create :: "nat option"
  interp_create :: "nat \<Rightarrow> nat \<Rightarrow> nat option"
  allocate_ok :: "nat \<Rightarrow> bool"
  input_count :: "nat \<Rightarrow> nat"
  output_count :: "nat \<Rightarrow> nat"
  input_tensor :: "nat \<Rightarrow> nat option"
  output_tensor :: "nat \<Rightarrow> nat option"
  byte_size :: "nat \<Rightarrow> nat"
  copy_from_ok :: "nat \<Rightarrow> fp list \<Rightarrow> bool"
  invoke_ok :: "nat \<Rightarrow> fp list \<Rightarrow> bool"
  copy_to :: "nat \<Rightarrow> fp list \<Rightarrow> fp list option"

record tc_model =
  interpreter :: nat
  inputSize :: nat
  outputSize :: nat

record tc_engine =
  tc_base :: base_engine
  tc_models :: "(string \<times> tc_model) list"

definition tc_New :: tc_engine where
  "tc_New = \<lparr>tc_base = NewBaseEngine, tc_models = []\<rparr>"

definition destroyModel :: "string \<Rightarrow> tc_engine \<Rightarrow> tc_engine" where
  "destroyModel modelID e = (if map_of (tc_models e) modelID = None then e
     else e\<lparr>tc_base := snd (be_UnloadModel modelID [] (tc_base e)), tc_models := adel modelID (tc_models e)\<rparr>)"

definition tc_Close :: "tc_engine \<Rightarrow> tc_engine" where
  "tc_Close e = (fold destroyModel (map fst (tc_models e)) e)\<lparr>tc_models := []\<rparr>"

text \<open>Every failure rolls the registration in the base engine back under the empty version.\<close>

definition roll_back :: "string \<Rightarrow> base_engine \<Rightarrow> base_engine" where
  "roll_back mid b = snd (be_UnloadModel mid [] b)"

definition first_size :: "tfl_api \<Rightarrow> nat \<Rightarrow> nat option \<Rightarrow> nat" where
  "first_size api n t = (if 0 < n then (case t of None \<Rightarrow> 0 | Some t \<Rightarrow> byte_size api t) else 0)"

definition tc_LoadModel :: "os_env \<Rightarrow> tfl_api \<Rightarrow> model \<Rightarrow> tc_engine \<Rightarrow> (gerr option \<times> tc_engine) outcome" where
  "tc_LoadModel env api m e = (case be_LoadModel m (tc_base e) of
       (Some err, b) \<Rightarrow> Done (Some err, e\<lparr>tc_base := b\<rparr>)
     | (None, b) \<Rightarrow> (let fail = (\<lambda>err. Done (Some err, e\<lparr>tc_base := roll_back (ID m) b\<rparr>)) in
        case fs_read env (Path m) of
          Inl err \<Rightarrow> fail (Errorw ''tflite: failed to read model file %s: %w'' [GString (Path m)] err)
        | Inr dat \<Rightarrow> if dat = [] then Panic else
          (case model_create api dat of
            None \<Rightarrow> fail (Errorf ''tflite: TfLiteModelCreate failed for %s'' [GString (Path m)])
          | Some cModel \<Rightarrow> (case options_create api of
              None \<Rightarrow> fail (ErrNew ''tflite: TfLiteInterpreterOptionsCreate failed'')
            | Some opts \<Rightarrow> (case interp_create api cModel opts of
                None \<Rightarrow> fail (Errorf ''tflite: TfLiteInterpreterCreate failed for %s'' [GString (Path m)])
              | Some interp \<Rightarrow>
                  if \<not> allocate_ok api interp then fail (ErrNew ''tflite: AllocateTensors failed'')
                  else Done (None, e\<lparr>tc_base := b, tc_models := aput (ID m)
                    \<lparr>interpreter = interp,
                     inputSize = first_size api (input_count api interp) (input_tensor api interp),
                     outputSize = first_size api (output_count api interp) (output_tensor api interp)\<rparr> (tc_models e)\<rparr>))))))"

definition tc_UnloadModel :: "string \<Rightarrow> string \<Rightarrow> tc_engine \<Rightarrow> gerr option \<times> tc_engine" where
  "tc_UnloadModel modelID version e = (if map_of (tc_models e) modelID = None then (Some ErrModelNotFound, e)
     else (None, destroyModel modelID e))"

fun tc_toFloat32Slice :: "goval \<Rightarrow> fp list res" where
  "tc_toFloat32Slice (GF32s v) = Inr v"
| "tc_toFloat32Slice (GF64s v) = Inr (map (fcvt F32) v)"
| "tc_toFloat32Slice (GF32ss v) = Inr (concat v)"
| "tc_toFloat32Slice v = Inl (Errorf ''unsupported input type %T; expected []float32, []float64, or [][]float32'' [v])"

text \<open>Taking the address of the first element of an empty slice panics.\<close>

definition tc_Predict :: "tfl_api \<Rightarrow> int \<Rightarrow> string \<Rightarrow> string \<Rightarrow> goval \<Rightarrow> tc_engine \<Rightarrow> prediction res outcome" where
  "tc_Predict api latency modelID version input e = (case map_of (tc_models e) modelID of
       None \<Rightarrow> Done (Inl ErrModelNotFound)
     | Some m \<Rightarrow> (case tc_toFloat32Slice input of
         Inl err \<Rightarrow> Done (Inl (Errorw ''tflite: unsupported input type: %w'' [] err))
       | Inr dat \<Rightarrow> (case input_tensor api (interpreter m) of
           None \<Rightarrow> Done (Inl (ErrNew ''tflite: failed to get input tensor''))
         | Some inT \<Rightarrow>
           if inputSize m < length dat * 4 then
             Done (Inl (Errorf ''tflite: input data (%d bytes) exceeds tensor capacity (%d bytes)''
               [GInt (int (length dat * 4)), GInt (int (inputSize m))]))
           else if dat = [] then Panic
           else if \<not> copy_from_ok api inT dat then Done (Inl (ErrNew ''tflite: TfLiteTensorCopyFromBuffer failed''))
           else if \<not> invoke_ok api (interpreter m) dat then Done (Inl (ErrNew ''tflite: Invoke failed''))
           else (case output_tensor api (interpreter m) of
             None \<Rightarrow> Done (Inl (ErrNew ''tflite: failed to get output tensor''))
           | Some outT \<Rightarrow>
             if outputSize m div 4 = 0 then Panic
             else (case copy_to api outT dat of
               None \<Rightarrow> Done (Inl (ErrNew ''tflite: TfLiteTensorCopyToBuffer failed''))
             | Some out \<Rightarrow> Done (Inr \<lparr>ModelID = modelID, PVersion = version, Output = GF32s out,
                 PMetadata = GMap [(''framework'', GString ''tflite''), (''input_byte_size'', GInt (int (inputSize m))),
                   (''output_count'', GInt (int (outputSize m div 4)))], Latency = latency\<rparr>))))))"

fun tc_batch :: "(nat \<Rightarrow> gerr option) \<Rightarrow> (goval \<Rightarrow> prediction res outcome) \<Rightarrow> nat \<Rightarrow> goval list \<Rightarrow> prediction list res outcome" where
  "tc_batch ctx predict i [] = Done (Inr [])"
| "tc_batch ctx predict i (x # xs) = (case ctx i of
       Some err \<Rightarrow> Done (Inl err)
     | None \<Rightarrow> bind_outcome (predict x) (\<lambda>r. bind_outcome (tc_batch ctx predict (Suc i) xs) (\<lambda>rs.
         Done (case (r, rs) of (Inr p, Inr ps) \<Rightarrow> Inr (p # ps) | _ \<Rightarrow> rs))))"

definition tc_BatchPredict :: "tfl_api \<Rightarrow> int \<Rightarrow> (nat \<Rightarrow> gerr option) \<Rightarrow> string \<Rightarrow> string \<Rightarrow> goval list \<Rightarrow> tc_engine \<Rightarrow>
    prediction list res outcome" where
  "tc_BatchPredict api latency ctx modelID version inputs e =
     (if map_of (tc_models e) modelID = None then Done (Inl ErrModelNotFound)
      else tc_batch ctx (\<lambda>x. tc_Predict api latency modelID version x e) 0 inputs)"

lemma tc_Predict_empty_panics:
  "map_of (tc_models e) mid = Some m \<Longrightarrow> input_tensor api (interpreter m) \<noteq> None \<Longrightarrow> tc_Predict api latency mid v (GF32s []) e = Panic"
  by (auto simp: tc_Predict_def)

section \<open>The exchange sort\<close>

definition not_nan :: "fp \<Rightarrow> bool" where
  "not_nan x \<longleftrightarrow> x \<noteq> FNaN"

lemma flt_asym: "flt x y \<Longrightarrow> \<not> flt y x"
  by (cases x; cases y) auto

lemma not_flt_trans: "not_nan y \<Longrightarrow> \<not> flt x y \<Longrightarrow> \<not> flt y z \<Longrightarrow> \<not> flt x z"
  by (cases x; cases y; cases z) (auto simp: not_nan_def)

lemma swap_if_less_mset: "i < length idx \<Longrightarrow> j < length idx \<Longrightarrow> mset (swap_if_less out i j idx) = mset idx"
  by (simp add: swap_if_less_def mset_swap)

lemma swap_if_less_length [simp]: "length (swap_if_less out i j idx) = length idx"
  by (simp add: swap_if_less_def)

text \<open>The permutation does not depend on the scores.\<close>

lemma inner_prefix_mset:
  assumes "i < length idx" "m \<le> length idx" "i < m"
  shows "mset (fold (swap_if_less out i) [Suc i..<m] idx) = mset idx \<and>
    take i (fold (swap_if_less out i) [Suc i..<m] idx) = take i idx"
  using assms
proof (induction m)
  case (Suc m)
  show ?case
  proof (cases "i < m")
    case True
    let ?f = "fold (swap_if_less out i) [Suc i..<m] idx"
    have IH: "mset ?f = mset idx" "take i ?f = take i idx" using Suc True by auto
    have l: "length ?f = length idx" using IH(1) mset_eq_length by blast
    have "fold (swap_if_less out i) [Suc i..<Suc m] idx = swap_if_less out i m ?f" using True by simp
    moreover have "mset (swap_if_less out i m ?f) = mset idx" using IH(1) l Suc.prems by (simp add: swap_if_less_mset)
    moreover have "take i (swap_if_less out i m ?f) = take i idx" using IH(2) True by (simp add: swap_if_less_def)
    ultimately show ?thesis by simp
  next
    case False
    then show ?thesis using Suc.prems by simp
  qed
qed simp

lemma inner_loop_perm:
  assumes "i < length idx"
  shows "mset (inner_loop out i idx) = mset idx" "take i (inner_loop out i idx) = take i idx"
    "length (inner_loop out i idx) = length idx" "mset (drop i (inner_loop out i idx)) = mset (drop i idx)"
proof -
  show m: "mset (inner_loop out i idx) = mset idx" and t: "take i (inner_loop out i idx) = take i idx"
    using inner_prefix_mset[of i idx "length idx" out] assms by (auto simp: inner_loop_def)
  show "length (inner_loop out i idx) = length idx" using m mset_eq_length by blast
  have "mset (take i xs) + mset (drop i xs) = mset xs" for xs :: "nat list"
    by (metis append_take_drop_id mset_append)
  then show "mset (drop i (inner_loop out i idx)) = mset (drop i idx)" using m t by (metis add_left_imp_eq)
qed

lemma inner_best:
  assumes "\<forall>x \<in> set idx. not_nan (out ! x)" "i < length idx" "m \<le> length idx" "i < m"
  shows "\<forall>k. i < k \<and> k < m \<longrightarrow> \<not> flt (out ! (fold (swap_if_less out i) [Suc i..<m] idx ! i))
    (out ! (fold (swap_if_less out i) [Suc i..<m] idx ! k))"
  using assms(2-)
proof (induction m)
  case (Suc m)
  show ?case
  proof (cases "i < m")
    case True
    let ?f = "fold (swap_if_less out i) [Suc i..<m] idx"
    have ms: "mset ?f = mset idx" using inner_prefix_mset[of i idx m out] Suc.prems True by simp
    then have l: "length ?f = length idx" and s: "set ?f = set idx" by (metis mset_eq_length, metis mset_eq_setD)
    have IH: "\<not> flt (out ! (?f ! i)) (out ! (?f ! k))" if "i < k" "k < m" for k using Suc True that by auto
    have nn: "not_nan (out ! (?f ! i))" using assms(1) s l Suc.prems nth_mem[of i ?f] by auto
    have eq: "fold (swap_if_less out i) [Suc i..<Suc m] idx = swap_if_less out i m ?f" using True by simp
    show ?thesis
    proof (cases "flt (out ! (?f ! i)) (out ! (?f ! m))")
      case sw: True
      have "\<not> flt (out ! (?f ! m)) (out ! (?f ! k))" if "i \<le> k" "k < m" for k
        using flt_asym[OF sw] not_flt_trans[OF nn flt_asym[OF sw], of "out ! (?f ! k)"] IH[of k] that by (cases "k = i") auto
      then show ?thesis unfolding eq using sw True Suc.prems l by (auto simp: swap_if_less_def nth_list_update less_Suc_eq)
    next
      case False
      then show ?thesis unfolding eq using IH by (auto simp: swap_if_less_def less_Suc_eq)
    qed
  next
    case False
    then show ?thesis using Suc.prems by auto
  qed
qed simp

text \<open>After \<open>i\<close> turns the first \<open>i\<close> places hold the \<open>i\<close> best, in order.\<close>

definition sorted_upto :: "fp list \<Rightarrow> nat \<Rightarrow> nat list \<Rightarrow> bool" where
  "sorted_upto out i idx \<longleftrightarrow> (\<forall>p q. p < i \<and> p < q \<and> q < length idx \<longrightarrow> \<not> flt (out ! (idx ! p)) (out ! (idx ! q)))"

lemma in_set_drop: "x \<in> set (drop i xs) \<longleftrightarrow> (\<exists>q. i \<le> q \<and> q < length xs \<and> xs ! q = x)"
proof
  assume "x \<in> set (drop i xs)"
  then obtain k where "k < length xs - i" "xs ! (i + k) = x" by (auto simp: in_set_conv_nth)
  then show "\<exists>q. i \<le> q \<and> q < length xs \<and> xs ! q = x" by (auto intro!: exI[of _ "i + k"])
next
  assume "\<exists>q. i \<le> q \<and> q < length xs \<and> xs ! q = x"
  then obtain q where "i \<le> q" "q < length xs" "xs ! q = x" by blast
  then show "x \<in> set (drop i xs)" by (auto simp: in_set_conv_nth intro!: exI[of _ "q - i"])
qed

lemma inner_loop_sorted:
  assumes "\<forall>x \<in> set idx. not_nan (out ! x)" "i < length idx" "sorted_upto out i idx"
  shows "sorted_upto out (Suc i) (inner_loop out i idx)"
  unfolding sorted_upto_def
proof (intro allI impI)
  fix p q
  let ?f = "inner_loop out i idx"
  assume h: "p < Suc i \<and> p < q \<and> q < length ?f"
  note perm = inner_loop_perm[OF assms(2), of out]
  show "\<not> flt (out ! (?f ! p)) (out ! (?f ! q))"
  proof (cases "p = i")
    case True
    then show ?thesis using inner_best[OF assms(1,2) order_refl assms(2)] h perm(3) by (auto simp: inner_loop_def)
  next
    case False
    then have pi: "p < i" using h by simp
    have fp: "?f ! p = idx ! p" using perm(2) pi by (metis nth_take)
    show ?thesis
    proof (cases "q < i")
      case True
      have "?f ! q = idx ! q" using perm(2) True by (metis nth_take)
      then show ?thesis using assms(3) fp pi h perm(3) by (auto simp: sorted_upto_def)
    next
      case False
      then have "i \<le> q" by simp
      then have "?f ! q \<in> set (drop i ?f)" using h in_set_drop[of "?f ! q" i ?f] by blast
      then have "?f ! q \<in> set (drop i idx)" using perm(4) mset_eq_setD by blast
      then obtain q' where "i \<le> q'" "q' < length idx" "?f ! q = idx ! q'" using in_set_drop[of "?f ! q" i idx] by auto
      then show ?thesis using assms(3) fp pi by (auto simp: sorted_upto_def)
    qed
  qed
qed

lemma sort_loop:
  assumes "i \<le> length idx0"
  shows "mset (fold (inner_loop out) [0..<i] idx0) = mset idx0 \<and>
    ((\<forall>x \<in> set idx0. not_nan (out ! x)) \<longrightarrow> sorted_upto out i (fold (inner_loop out) [0..<i] idx0))"
  using assms
proof (induction i)
  case 0
  then show ?case by (simp add: sorted_upto_def)
next
  case (Suc i)
  let ?f = "fold (inner_loop out) [0..<i] idx0"
  have IH: "mset ?f = mset idx0" "(\<forall>x \<in> set idx0. not_nan (out ! x)) \<longrightarrow> sorted_upto out i ?f" using Suc by auto
  have l: "length ?f = length idx0" and s: "set ?f = set idx0" using IH(1) by (metis mset_eq_length, metis mset_eq_setD)
  then have i: "i < length ?f" using Suc.prems by simp
  show ?case using IH inner_loop_perm(1)[OF i, of out] inner_loop_sorted[of ?f out i] i s by simp
qed

lemma sort_indices_perm: "mset (sort_indices out) = mset [0..<length out]"
  using sort_loop[of "length out" "[0..<length out]" out] by (simp add: sort_indices_def)

lemma sort_indices_sorted:
  "\<forall>x \<in> set out. not_nan x \<Longrightarrow> sorted_upto out (length out) (sort_indices out)"
  using sort_loop[of "length out" "[0..<length out]" out] by (simp add: sort_indices_def)

lemma sort_indices_facts: "length (sort_indices out) = length out" "distinct (sort_indices out)" "set (sort_indices out) = {..<length out}"
proof -
  have "length (sort_indices out) = length [0..<length out]" using sort_indices_perm by (rule mset_eq_length)
  then show "length (sort_indices out) = length out" by (simp only: length_upt diff_zero)
  have "distinct (sort_indices out) \<longleftrightarrow> distinct [0..<length out]" using sort_indices_perm by (rule mset_eq_imp_distinct_iff)
  then show "distinct (sort_indices out)" by (simp only: distinct_upt)
  have "set (sort_indices out) = set [0..<length out]" using sort_indices_perm by (rule mset_eq_setD)
  then show "set (sort_indices out) = {..<length out}" by (simp only: set_upt lessThan_atLeast0)
qed

section \<open>Properties\<close>

text \<open>C22: On scores without NaN, \<open>getTopNResults\<close> returns one entry for each of \<open>min topN n\<close> different
  classes, best first, and no class that is left out has a greater score than one that is
  returned; without labels or scores it returns none.\<close>

theorem topN_best:
  assumes "\<forall>x \<in> set out. not_nan x"
  shows "(out \<noteq> [] \<and> labels \<noteq> [] \<longrightarrow> (\<exists>ks. getTopNResults itoa out labels topN = map (topN_entry itoa out labels) ks \<and>
       distinct ks \<and> set ks \<subseteq> {..<length out} \<and> length ks = min topN (length out) \<and>
       sorted_wrt (\<lambda>k l. \<not> flt (out ! k) (out ! l)) ks \<and>
       (\<forall>k \<in> set ks. \<forall>l < length out. l \<notin> set ks \<longrightarrow> \<not> flt (out ! k) (out ! l)))) \<and>
     (out = [] \<or> labels = [] \<longrightarrow> getTopNResults itoa out labels topN = [])"
proof -
  let ?s = "sort_indices out"
  let ?ks = "take topN ?s"
  note facts = sort_indices_facts[of out]
  have sorted: "\<not> flt (out ! (?s ! p)) (out ! (?s ! q))" if "p < q" "q < length out" for p q
    using sort_indices_sorted[OF assms] that facts(1) by (auto simp: sorted_upto_def)
  have "sorted_wrt (\<lambda>k l. \<not> flt (out ! k) (out ! l)) ?ks"
    using sorted facts(1) by (auto simp: sorted_wrt_iff_nth_less)
  moreover have "\<not> flt (out ! k) (out ! l)" if h: "k \<in> set ?ks" "l < length out" "l \<notin> set ?ks" for k l
  proof -
    obtain p where p: "p < topN" "p < length out" "k = ?s ! p" using h(1) facts(1) by (auto simp: in_set_conv_nth)
    obtain q where q: "q < length out" "l = ?s ! q" using h(2) facts(1,3) by (metis in_set_conv_nth lessThan_iff)
    have "\<not> q < topN" using h(3) q facts(1) by (auto simp: in_set_conv_nth)
    then show ?thesis using sorted[of p q] p q by simp
  qed
  moreover have "distinct ?ks" "set ?ks \<subseteq> {..<length out}" "length ?ks = min topN (length out)"
    using facts set_take_subset[of topN ?s] by (simp_all add: min.commute)
  ultimately have ex: "distinct ?ks \<and> set ?ks \<subseteq> {..<length out} \<and> length ?ks = min topN (length out) \<and>
       sorted_wrt (\<lambda>k l. \<not> flt (out ! k) (out ! l)) ?ks \<and>
       (\<forall>k \<in> set ?ks. \<forall>l < length out. l \<notin> set ?ks \<longrightarrow> \<not> flt (out ! k) (out ! l))" by blast
  show ?thesis
  proof (intro conjI impI)
    assume "out \<noteq> [] \<and> labels \<noteq> []"
    then have "getTopNResults itoa out labels topN = map (topN_entry itoa out labels) ?ks" by (simp add: getTopNResults_def)
    with ex show "\<exists>ks. getTopNResults itoa out labels topN = map (topN_entry itoa out labels) ks \<and>
       distinct ks \<and> set ks \<subseteq> {..<length out} \<and> length ks = min topN (length out) \<and>
       sorted_wrt (\<lambda>k l. \<not> flt (out ! k) (out ! l)) ks \<and>
       (\<forall>k \<in> set ks. \<forall>l < length out. l \<notin> set ks \<longrightarrow> \<not> flt (out ! k) (out ! l))" by blast
  qed (simp add: getTopNResults_def)
qed

lemma topN_best_witness:
  "getTopNResults (\<lambda>_. []) [FFin 1, FFin 3, FFin 2] [''a'', ''b''] 2 =
     [[(''label'', GString ''b''), (''score'', GF32 (FFin 3))], [(''label'', GString ''Class ''), (''score'', GF32 (FFin 2))]] \<and>
   (\<exists>ks. distinct ks \<and> length ks = 2 \<and> getTopNResults (\<lambda>_. []) [FFin 1, FFin 3, FFin 2] [''a'', ''b''] 2 =
     map (topN_entry (\<lambda>_. []) [FFin 1, FFin 3, FFin 2] [''a'', ''b'']) ks)"
proof
  show "getTopNResults (\<lambda>_. []) [FFin 1, FFin 3, FFin 2] [''a'', ''b''] 2 =
     [[(''label'', GString ''b''), (''score'', GF32 (FFin 3))], [(''label'', GString ''Class ''), (''score'', GF32 (FFin 2))]]"
    by code_simp
  have "\<forall>x \<in> set [FFin 1, FFin 3, FFin 2]. not_nan x" by (simp add: not_nan_def)
  from topN_best[OF this, of "[''a'', ''b'']" "\<lambda>_. []" 2]
  show "\<exists>ks. distinct ks \<and> length ks = 2 \<and> getTopNResults (\<lambda>_. []) [FFin 1, FFin 3, FFin 2] [''a'', ''b''] 2 =
     map (topN_entry (\<lambda>_. []) [FFin 1, FFin 3, FFin 2] [''a'', ''b'']) ks" by force
qed

text \<open>The key of a version is never the bare identifier.\<close>

lemma version_key_ne: "v \<noteq> [] \<Longrightarrow> version_key i v \<noteq> version_key i []"
  by (simp add: version_key_def)

lemma be_get_loaded: "be_LoadModel m b = (None, b') \<Longrightarrow>
    be_get b (ID m) (Version m) = None \<and>
    be_get b' i v = (if version_key i v = version_key (ID m) (Version m) then Some m else be_get b i v)"
  by (auto simp: be_LoadModel_def be_get_key Let_def split: if_splits)

lemma be_get_unloaded: "be_get (snd (be_UnloadModel j w b)) i v = (if version_key i v = version_key j w then None else be_get b i v)"
  by (auto simp: be_UnloadModel_def be_get_key Let_def)

lemma be_load_again: "be_get b (ID m) (Version m) \<noteq> None \<Longrightarrow> be_LoadModel m b = (Some ErrModelAlreadyExists, b)"
  by (simp add: be_LoadModel_def be_get_key Let_def)

text \<open>The mock TensorFlow Lite engine cannot unload a model that has a version: the call answers that the
  model does not exist, forgets it for prediction, and leaves it registered in the base engine, so
  that it can be neither used nor loaded again.\<close>

theorem tflite_versioned_unload:
  assumes "tm_LoadModel lf m e = (None, e1)" "Version m \<noteq> []" "be_GetModel (tm_base e) (ID m) [] = Inl err"
    and "tm_UnloadModel (ID m) (Version m) e1 = (res, e2)"
  shows "res = Some ErrModelNotFound \<and> tm_Predict t (ID m) v x e2 = Inl ErrModelNotFound \<and>
     be_GetModel (tm_base e2) (ID m) (Version m) = Inr m \<and>
     tm_LoadModel lf m e2 = (Some ErrModelAlreadyExists, e2)"
proof -
  obtain b where b: "be_LoadModel m (tm_base e) = (None, b)" "tm_base e1 = b"
    using assms(1) by (auto simp: tm_LoadModel_def split: prod.splits option.splits)
  note ne = version_key_ne[OF assms(2), of "ID m"]
  have g: "be_get b (ID m) [] = None" "be_get b (ID m) (Version m) = Some m"
    using be_get_loaded[OF b(1)] assms(3) ne by (auto simp: be_get_def)
  have u: "be_UnloadModel (ID m) [] b = (Some ErrModelNotFound, b)"
    using g(1) by (simp add: be_UnloadModel_def be_get_key Let_def)
  have e2: "res = Some ErrModelNotFound" "e2 = e1\<lparr>tm_base := b, tm_models := adel (ID m) (tm_models e1)\<rparr>"
    using assms(4) u b(2) by (auto simp: tm_UnloadModel_def tm_unloadModel_def)
  have "be_LoadModel m b = (Some ErrModelAlreadyExists, b)" using g(2) by (simp add: be_load_again)
  then show ?thesis using e2 g(2) by (simp add: tm_Predict_def tm_LoadModel_def be_GetModel_Inr)
qed

text \<open>A model with a version, and one without.\<close>

definition versioned_model :: model where
  "versioned_model = \<lparr>ID = ''a'', Version = ''1'', Path = ''p'', InputShape = [], OutputShape = [], Metadata = []\<rparr>"

lemma tflite_versioned_unload_witness:
  "let e1 = snd (tm_LoadModel (\<lambda>_. None) versioned_model tm_New); (res, e2) = tm_UnloadModel ''a'' ''1'' e1
   in fst (tm_LoadModel (\<lambda>_. None) versioned_model tm_New) = None \<and> res = Some ErrModelNotFound \<and>
      tm_LoadModel (\<lambda>_. None) versioned_model e2 = (Some ErrModelAlreadyExists, e2)"
proof -
  let ?e1 = "snd (tm_LoadModel (\<lambda>_. None) versioned_model tm_New)"
  have l: "tm_LoadModel (\<lambda>_. None) versioned_model tm_New = (None, ?e1)"
    by (simp add: tm_LoadModel_def versioned_model_def tm_New_def NewBaseEngine_def be_LoadModel_def)
  have g: "be_GetModel (tm_base tm_New) (ID versioned_model) [] = Inl ErrModelNotFound"
    by (simp add: tm_New_def NewBaseEngine_def be_GetModel_def)
  have i: "ID versioned_model = ''a''" "Version versioned_model = ''1''" by (simp_all add: versioned_model_def)
  have "Version versioned_model \<noteq> []" by (simp add: i)
  from tflite_versioned_unload[OF l this g, of "fst (tm_UnloadModel ''a'' ''1'' ?e1)" "snd (tm_UnloadModel ''a'' ''1'' ?e1)"]
  moreover have "fst (tm_LoadModel (\<lambda>_. None) versioned_model tm_New) = None" by (subst l) simp
  ultimately show ?thesis by (simp add: i case_prod_beta Let_def)
qed

section \<open>Failed loads over the C API\<close>

lemma tc_LoadModel_err:
  assumes "tc_LoadModel env api m e = Done (Some err, e')" "be_LoadModel m (tc_base e) = (None, b)"
  shows "e' = e\<lparr>tc_base := roll_back (ID m) b\<rparr>"
  using assms unfolding tc_LoadModel_def Let_def by (auto split: sum.splits option.splits if_splits)

text \<open>C36: The engine over the C API takes a failed load back only for a model without a version. For one with a
  version the base engine keeps the model, every later load of it is refused as a duplicate although
  it was never loaded, and the model of the same identifier without a version is forgotten.\<close>

theorem tflite_failed_load_rollback:
  assumes "tc_LoadModel env api m e = Done (Some err, e')" "be_GetModel (tc_base e) (ID m) (Version m) = Inl err'"
  shows "tc_models e' = tc_models e \<and>
     (Version m = [] \<longrightarrow> (\<forall>i v. be_GetModel (tc_base e') i v = be_GetModel (tc_base e) i v)) \<and>
     (Version m \<noteq> [] \<longrightarrow> be_GetModel (tc_base e') (ID m) (Version m) = Inr m \<and>
        be_GetModel (tc_base e') (ID m) [] = Inl ErrModelNotFound \<and>
        tc_LoadModel env' api' m e' = Done (Some ErrModelAlreadyExists, e'))"
proof -
  have n: "be_get (tc_base e) (ID m) (Version m) = None" using assms(2) by (simp add: be_get_def)
  obtain b where b: "be_LoadModel m (tc_base e) = (None, b)" using n by (simp add: be_LoadModel_def be_get_key Let_def)
  have e': "e' = e\<lparr>tc_base := roll_back (ID m) b\<rparr>" using tc_LoadModel_err[OF assms(1) b] .
  have g: "be_get (tc_base e') i v = (if version_key i v = version_key (ID m) [] then None
      else if version_key i v = version_key (ID m) (Version m) then Some m else be_get (tc_base e) i v)" for i v
    using be_get_loaded[OF b] by (simp add: e' roll_back_def be_get_unloaded)
  have same: "be_GetModel b1 i v = be_GetModel b2 i v \<longleftrightarrow> be_get b1 i v = be_get b2 i v" for b1 b2 i v
    by (simp add: be_get_key be_GetModel_def split: option.split)
  show ?thesis
  proof (intro conjI impI allI)
    show "tc_models e' = tc_models e" by (simp add: e')
    fix i v
    assume "Version m = []"
    then show "be_GetModel (tc_base e') i v = be_GetModel (tc_base e) i v"
      unfolding same g using n be_get_key by auto
  next
    assume v: "Version m \<noteq> []"
    note ne = version_key_ne[OF v, of "ID m"]
    show "be_GetModel (tc_base e') (ID m) (Version m) = Inr m" using g ne by (simp add: be_GetModel_Inr)
    show "be_GetModel (tc_base e') (ID m) [] = Inl ErrModelNotFound"
      using g[of "ID m" "[]"] by (simp add: be_get_key be_GetModel_def)
    have "be_LoadModel m (tc_base e') = (Some ErrModelAlreadyExists, tc_base e')"
      using g ne by (intro be_load_again) simp
    then show "tc_LoadModel env' api' m e' = Done (Some ErrModelAlreadyExists, e')" by (simp add: tc_LoadModel_def)
  qed
qed

text \<open>A file system without files, and an interface that creates nothing.\<close>

definition no_api :: tfl_api where
  "no_api = \<lparr>model_create = (\<lambda>_. None), options_create = None, interp_create = (\<lambda>_ _. None), allocate_ok = (\<lambda>_. False),
     input_count = (\<lambda>_. 0), output_count = (\<lambda>_. 0), input_tensor = (\<lambda>_. None), output_tensor = (\<lambda>_. None),
     byte_size = (\<lambda>_. 0), copy_from_ok = (\<lambda>_ _. False), invoke_ok = (\<lambda>_ _. False), copy_to = (\<lambda>_ _. None)\<rparr>"

lemma tflite_failed_load_rollback_witness:
  "\<exists>err e'. tc_LoadModel (sample_env ''p'' [1]) no_api versioned_model tc_New = Done (Some err, e') \<and>
     err = Errorf ''tflite: TfLiteModelCreate failed for %s'' [GString ''p''] \<and>
     tc_LoadModel (sample_env ''p'' [1]) no_api versioned_model e' = Done (Some ErrModelAlreadyExists, e')"
proof -
  have g: "be_GetModel (tc_base tc_New) (ID versioned_model) (Version versioned_model) = Inl ErrModelNotFound"
    by (simp add: tc_New_def NewBaseEngine_def be_GetModel_def)
  have "\<exists>e'. tc_LoadModel (sample_env ''p'' [1]) no_api versioned_model tc_New =
      Done (Some (Errorf ''tflite: TfLiteModelCreate failed for %s'' [GString ''p'']), e')"
    by (simp add: tc_LoadModel_def tc_New_def NewBaseEngine_def be_LoadModel_def versioned_model_def sample_defs no_api_def)
  then obtain e' where l: "tc_LoadModel (sample_env ''p'' [1]) no_api versioned_model tc_New =
      Done (Some (Errorf ''tflite: TfLiteModelCreate failed for %s'' [GString ''p'']), e')" by blast
  have "Version versioned_model \<noteq> []" by (simp add: versioned_model_def)
  then show ?thesis
    using l tflite_failed_load_rollback[OF l g, of "sample_env ''p'' [1]" no_api] by blast
qed

end
