(* ===== verification/Worker_Pool.thy ===== *)
theory Worker_Pool
  imports Pipeline ONNX_Engine TFLite_Engine Persistent_Queue
begin

text \<open>
  The worker pool as far as one goroutine sees it (\<open>src/internal/worker/pool.go\<close>): what a worker does
  with a task, what \<open>Submit\<close> writes to the persistent queue, and the recovery loop at start-up. The
  engine is the argument \<open>predict\<close>. The interleaving of submitters, workers and shutdown is in
  \<open>Worker_Steps\<close>.
\<close>

section \<open>Tasks\<close>

text \<open>The pair of channels of a task is its ticket.\<close>

record task =
  ticket :: nat
  TModelID :: string
  TModelVersion :: string
  TInput :: goval

text \<open>
  The body of the worker loop: what is sent to the task's result channel (\<open>Inr\<close>) or error channel
  (\<open>Inl\<close>). The pool's pipeline runs before and after the prediction; the worker reads it once for each (\<open>pre\<close>,
  \<open>post\<close>), and an update may come in between. \<open>None\<close> is a \<open>nil\<close> pipeline.
\<close>

definition run_pipeline :: "(fp \<Rightarrow> fp) \<Rightarrow> pipeline option \<Rightarrow> goval \<Rightarrow> goval res" where
  "run_pipeline ex pl v = (case pl of None \<Rightarrow> Inr v | Some p \<Rightarrow> Run ex p v)"

definition work :: "(fp \<Rightarrow> fp) \<Rightarrow> pipeline option \<Rightarrow> pipeline option \<Rightarrow>
    (string \<Rightarrow> string \<Rightarrow> goval \<Rightarrow> prediction res outcome) \<Rightarrow> task \<Rightarrow> prediction res outcome" where
  "work ex pre post predict t = (case run_pipeline ex pre (TInput t) of
       Inl e \<Rightarrow> Done (Inl e)
     | Inr input \<Rightarrow> bind_outcome (predict (TModelID t) (TModelVersion t) input) (\<lambda>r. case r of
         Inl e \<Rightarrow> Done (Inl e)
       | Inr result \<Rightarrow> (case run_pipeline ex post (Output result) of
           Inl e \<Rightarrow> Done (Inl e)
         | Inr out \<Rightarrow> Done (Inr (result\<lparr>Output := out\<rparr>)))))"

lemma work_total:
  assumes "\<And>m v x. \<exists>r. predict m v x = Done r"
  shows "\<exists>r. work ex pre post predict t = Done r"
proof (cases "run_pipeline ex pre (TInput t)")
  case (Inr x)
  obtain r where "predict (TModelID t) (TModelVersion t) x = Done r" using assms by blast
  then show ?thesis using Inr by (cases r) (auto simp: work_def split: sum.split)
qed (simp add: work_def)

text \<open>What a worker sends when it sends a result: the engine gave one, and the pipeline took its output.\<close>

lemma work_Inr:
  assumes "work ex pre post predict t = Done (Inr p)"
  obtains input q out where "run_pipeline ex pre (TInput t) = Inr input"
    "predict (TModelID t) (TModelVersion t) input = Done (Inr q)" "run_pipeline ex post (Output q) = Inr out" "p = q\<lparr>Output := out\<rparr>"
proof -
  obtain input where i: "run_pipeline ex pre (TInput t) = Inr input" using assms by (auto simp: work_def split: sum.splits)
  obtain q where q: "predict (TModelID t) (TModelVersion t) input = Done (Inr q)"
    using assms i by (cases "predict (TModelID t) (TModelVersion t) input") (auto simp: work_def split: sum.splits)
  obtain out where "run_pipeline ex post (Output q) = Inr out" "p = q\<lparr>Output := out\<rparr>"
    using assms i q by (auto simp: work_def split: sum.splits)
  then show ?thesis using that i q by blast
qed

context inference_engine
begin

lemma work_returns: "ready e \<Longrightarrow> \<exists>r. work ex pre post (predict e) t = Done r"
  by (rule work_total) (rule returns)

lemma work_names_model: "work ex pre post (predict e) t = Done (Inr p) \<Longrightarrow> ModelID p = TModelID t"
  by (erule work_Inr) (auto dest: names_model)

end

section \<open>What is persisted\<close>

text \<open>The anonymous struct of \<open>Submit\<close> has the model's identifier and the input, not the version.\<close>

definition persist_enc :: "string \<times> goval \<Rightarrow> json res" where
  "persist_enc x = (case marshal (snd x) of Inl e \<Rightarrow> Inl e
     | Inr j \<Rightarrow> Inr (JObj [(''ModelID'', JStr (fst x)), (''Input'', j)]))"

record queued_task =
  q_ModelID :: string
  q_ModelVersion :: string
  q_Input :: goval

text \<open>Decoding into a struct: a missing or \<open>null\<close> field keeps its zero value.\<close>

definition field_str :: "(string \<times> json) list \<Rightarrow> string \<Rightarrow> string res" where
  "field_str fs k = (case map_of fs k of
       None \<Rightarrow> Inr []
     | Some JNull \<Rightarrow> Inr []
     | Some (JStr s) \<Rightarrow> Inr s
     | Some _ \<Rightarrow> Inl (ErrExt ''json: cannot unmarshal into Go struct field of type string''))"

definition queued_dec :: "(fp \<Rightarrow> fp) \<Rightarrow> json \<Rightarrow> queued_task res" where
  "queued_dec dec32 j = (case j of
       JObj fs \<Rightarrow> (case field_str fs ''ModelID'' of Inl e \<Rightarrow> Inl e | Inr mid \<Rightarrow>
         (case field_str fs ''ModelVersion'' of Inl e \<Rightarrow> Inl e | Inr ver \<Rightarrow>
           Inr \<lparr>q_ModelID = mid, q_ModelVersion = ver,
                q_Input = (case map_of fs ''Input'' of None \<Rightarrow> GNil | Some i \<Rightarrow> unmarshal dec32 i)\<rparr>))
     | JNull \<Rightarrow> Inr \<lparr>q_ModelID = [], q_ModelVersion = [], q_Input = GNil\<rparr>
     | _ \<Rightarrow> Inl (ErrExt ''json: cannot unmarshal into Go value of type worker.queuedTask''))"

text \<open>The persistence part of \<open>Submit\<close>: an error of \<open>Enqueue\<close> is dropped.\<close>

definition submit_persist :: "'db badger \<Rightarrow> string \<Rightarrow> goval \<Rightarrow> 'db pqueue \<Rightarrow> 'db pqueue" where
  "submit_persist ops mid x q = snd (Enqueue ops persist_enc (mid, x) q)"

section \<open>Recovery\<close>

text \<open>
  One turn of the loop: the first item of the queue is removed and submitted again with the empty
  version; an error ends the loop.
\<close>

definition recover_step :: "'db badger \<Rightarrow> (fp \<Rightarrow> fp) \<Rightarrow> 'db pqueue \<Rightarrow> 'db pqueue + (string \<times> string \<times> goval) \<times> 'db pqueue" where
  "recover_step ops dec32 q = (case Dequeue ops (queued_dec dec32) q of
       (Inl e, q') \<Rightarrow> Inl q'
     | (Inr qt, q') \<Rightarrow> Inr ((q_ModelID qt, [], q_Input qt), submit_persist ops (q_ModelID qt) (q_Input qt) q'))"

text \<open>The loop; \<open>None\<close> means that it does not return.\<close>

partial_function (option) RecoverFromPersistentQueue ::
    "'db badger \<Rightarrow> (fp \<Rightarrow> fp) \<Rightarrow> 'db pqueue \<Rightarrow> 'db pqueue option" where
  "RecoverFromPersistentQueue ops dec32 q = (case recover_step ops dec32 q of
       Inl q' \<Rightarrow> Some q'
     | Inr p \<Rightarrow> RecoverFromPersistentQueue ops dec32 (snd p))"

text \<open>The tasks that the first \<open>n\<close> turns submit, the queue after them, and whether the loop has ended.\<close>

fun recover_n :: "'db badger \<Rightarrow> (fp \<Rightarrow> fp) \<Rightarrow> nat \<Rightarrow> 'db pqueue \<Rightarrow> (string \<times> string \<times> goval) list \<times> 'db pqueue \<times> bool" where
  "recover_n ops dec32 0 q = ([], q, False)"
| "recover_n ops dec32 (Suc n) q = (case recover_step ops dec32 q of
       Inl q' \<Rightarrow> ([], q', True)
     | Inr (t, q') \<Rightarrow> (case recover_n ops dec32 n q' of (ts, r) \<Rightarrow> (t # ts, r)))"

lemma recover_returns_n:
  assumes "RecoverFromPersistentQueue ops dec32 q = Some q'"
  shows "\<exists>n ts. recover_n ops dec32 n q = (ts, q', True)"
proof (rule RecoverFromPersistentQueue.raw_induct[where P = "\<lambda>ops dec32 q q'. \<exists>n ts. recover_n ops dec32 n q = (ts, q', True)", OF _ assms])
  fix rec :: "'a badger \<Rightarrow> (fp \<Rightarrow> fp) \<Rightarrow> 'a pqueue \<Rightarrow> 'a pqueue option" and ops dec32 q q'
  assume IH: "\<And>ops dec32 q q'. rec ops dec32 q = Some q' \<Longrightarrow> \<exists>n ts. recover_n ops dec32 n q = (ts, q', True)"
    and step: "(case recover_step ops dec32 q of Inl q' \<Rightarrow> Some q' | Inr p \<Rightarrow> rec ops dec32 (snd p)) = Some q'"
  show "\<exists>n ts. recover_n ops dec32 n q = (ts, q', True)"
  proof (cases "recover_step ops dec32 q")
    case (Inl q1)
    then have "recover_n ops dec32 (Suc 0) q = ([], q', True)" using step by simp
    then show ?thesis by blast
  next
    case (Inr p)
    then have "rec ops dec32 (snd p) = Some q'" using step by simp
    from IH[OF this] obtain n ts where "recover_n ops dec32 n (snd p) = (ts, q', True)" by blast
    then have "recover_n ops dec32 (Suc n) q = (fst p # ts, q', True)" using Inr by (cases p) simp
    then show ?thesis by blast
  qed
qed

section \<open>JSON values that can be written again\<close>

text \<open>A value whose numbers read back as finite floats.\<close>

fun json_good :: "(fp \<Rightarrow> fp) \<Rightarrow> json \<Rightarrow> bool" where
  "json_good dec32 (JInt n) = is_fin (fof_int F64 n)"
| "json_good dec32 (JF64 x) = is_fin x"
| "json_good dec32 (JF32 x) = is_fin (dec32 x)"
| "json_good dec32 (JArr js) = (\<forall>j \<in> set js. json_good dec32 j)"
| "json_good dec32 (JObj fs) = (\<forall>f \<in> set fs. json_good dec32 (snd f))"
| "json_good dec32 j = True"

text \<open>Decoding such a value, encoding it and decoding it again gives the same value.\<close>

lemma remarshal:
  shows "json_good dec32 j \<Longrightarrow>
      \<exists>j'. marshal (unmarshal dec32 j) = Inr j' \<and> json_good dec32 j' \<and> unmarshal dec32 j' = unmarshal dec32 j"
    and "(\<forall>j \<in> set js. json_good dec32 j) \<Longrightarrow>
      \<exists>js'. marshal_list (unmarshal_list dec32 js) = Inr js' \<and> (\<forall>j \<in> set js'. json_good dec32 j) \<and>
        unmarshal_list dec32 js' = unmarshal_list dec32 js"
    and "(\<forall>f \<in> set fs. json_good dec32 (snd f)) \<Longrightarrow>
      \<exists>fs'. marshal_kvs (unmarshal_kvs dec32 fs) = Inr fs' \<and> (\<forall>f \<in> set fs'. json_good dec32 (snd f)) \<and>
        unmarshal_kvs dec32 fs' = unmarshal_kvs dec32 fs"
proof (induction dec32 j and dec32 js and dec32 fs rule: unmarshal_unmarshal_list_unmarshal_kvs.induct)
  case (10 dec32 j js)
  then show ?case by fastforce
next
  case (12 dec32 kj fs)
  then show ?case by fastforce
qed (auto simp: jfloat_def jarr_def)

text \<open>An item as \<open>Submit\<close> writes it.\<close>

definition item_good :: "(fp \<Rightarrow> fp) \<Rightarrow> json \<Rightarrow> bool" where
  "item_good dec32 j \<longleftrightarrow> (\<exists>mid ji. j = JObj [(''ModelID'', JStr mid), (''Input'', ji)] \<and> json_good dec32 ji)"

lemma item_good_persist: "marshal v = Inr ji \<Longrightarrow> json_good dec32 ji \<Longrightarrow>
    \<exists>j. persist_enc (mid, v) = Inr j \<and> item_good dec32 j"
  by (simp add: persist_enc_def item_good_def)

lemma item_good_dec: "item_good dec32 j \<Longrightarrow>
    \<exists>qt j'. queued_dec dec32 j = Inr qt \<and> q_ModelVersion qt = [] \<and> persist_enc (q_ModelID qt, q_Input qt) = Inr j' \<and>
      item_good dec32 j' \<and> queued_dec dec32 j' = Inr qt"
proof -
  assume "item_good dec32 j"
  then obtain mid ji where j: "j = JObj [(''ModelID'', JStr mid), (''Input'', ji)]" "json_good dec32 ji"
    by (auto simp: item_good_def)
  obtain jo where jo: "marshal (unmarshal dec32 ji) = Inr jo" "json_good dec32 jo" "unmarshal dec32 jo = unmarshal dec32 ji"
    using remarshal(1)[OF j(2)] by blast
  show ?thesis using j jo by (simp add: queued_dec_def field_str_def persist_enc_def item_good_def)
qed

section \<open>A queue with items\<close>

context badger_store
begin

text \<open>The queue holds items that \<open>Submit\<close> has written.\<close>

definition loaded :: "(fp \<Rightarrow> fp) \<Rightarrow> 'db pqueue \<Rightarrow> bool" where
  "loaded dec32 q \<longleftrightarrow> ok (db q) \<and> items ops q \<noteq> [] \<and> (\<forall>(k, j) \<in> set (items ops q). item_good dec32 j)"

lemma items_mem: "ok (db q) \<Longrightarrow> (k, j) \<in> set (items ops q) \<longleftrightarrow> map_of (items ops q) k = Some j"
proof -
  assume "ok (db q)"
  then have "distinct (map fst (items ops q))" using items_view[of q] strict_sorted_iff by blast
  then show ?thesis by (simp add: map_of_eq_Some_iff)
qed

text \<open>Setting one key of a working store.\<close>

lemma Enqueue_sets:
  assumes "ok (db q)" "enc i = Inr j"
  shows "\<exists>q'. Enqueue ops enc i q = (None, q') \<and> ok (db q') \<and> seq q' = seq q + 1 \<and>
    map_of (items ops q') = (map_of (items ops q))(seq_key (seq q + 1) \<mapsto> j)"
proof -
  obtain d' its' where "bset ops (db q) (seq_key (seq q + 1)) j = Inr d'" "ok d'" "bview ops d' = Inr its'"
    "map_of its' = (map_of (items ops q))(seq_key (seq q + 1) \<mapsto> j)"
    using set_ok[OF assms(1), of "items ops q" "seq_key (seq q + 1)" j] items_view[OF assms(1)] by auto
  then show ?thesis using assms(2) by (simp add: Enqueue_def items_def)
qed

lemma Dequeue_takes:
  assumes "ok (db q)" "items ops q = (k, j) # its"
  shows "\<exists>q'. Dequeue ops dec q = (dec j, q') \<and> ok (db q') \<and> seq q' = seq q \<and> items ops q' = its"
proof -
  note v = items_view[OF assms(1)]
  obtain d' its' where d': "bdel ops (db q) k = Inr d'" "ok d'" "bview ops d' = Inr its'"
    "map_of its' = (map_of (items ops q))(k := None)"
    using del_ok[OF assms(1), of "items ops q" k] v by auto
  have val: "bvalue ops (db q) k = Inr j" using value_ok[OF assms(1), of "items ops q" k j] v assms(2) by simp
  have "its' = its" using sorted_alist_tl[of k j its its'] view_ok[OF d'(2)] d'(3,4) v assms(2) by auto
  then show ?thesis using v assms(2) val d' by (simp add: Dequeue_def items_def)
qed

lemma recover_step_loaded:
  assumes "loaded dec32 q"
  shows "\<exists>t q'. recover_step ops dec32 q = Inr (t, q') \<and> loaded dec32 q'"
proof -
  obtain k j its where it: "items ops q = (k, j) # its" using assms by (cases "items ops q") (auto simp: loaded_def)
  have okq: "ok (db q)" and good: "item_good dec32 j" "\<forall>(k, j) \<in> set its. item_good dec32 j"
    using assms it by (auto simp: loaded_def)
  obtain q1 where q1: "Dequeue ops (queued_dec dec32) q = (queued_dec dec32 j, q1)" "ok (db q1)" "items ops q1 = its"
    using Dequeue_takes[OF okq it] by blast
  obtain qt j' where qt: "queued_dec dec32 j = Inr qt" "persist_enc (q_ModelID qt, q_Input qt) = Inr j'" "item_good dec32 j'"
    using item_good_dec[OF good(1)] by blast
  obtain q2 where q2: "Enqueue ops persist_enc (q_ModelID qt, q_Input qt) q1 = (None, q2)" "ok (db q2)"
    "map_of (items ops q2) = (map_of its)(seq_key (seq q1 + 1) \<mapsto> j')"
    using Enqueue_sets[where i = "(q_ModelID qt, q_Input qt)" and enc = persist_enc, OF q1(2) qt(2)] q1(3) by auto
  have "item_good dec32 j2" if "(k2, j2) \<in> set (items ops q2)" for k2 j2
    using that qt(3) good(2) q2(3) items_mem[OF q2(2)] by (auto split: if_splits dest: map_of_SomeD)
  moreover have "items ops q2 \<noteq> []"
  proof
    assume "items ops q2 = []"
    with fun_cong[OF q2(3), of "seq_key (seq q1 + 1)"] show False by simp
  qed
  ultimately have "loaded dec32 q2" using q2(2) by (auto simp: loaded_def)
  then show ?thesis using q1 qt q2 by (simp add: recover_step_def submit_persist_def)
qed

lemma recover_n_loaded: "loaded dec32 q \<Longrightarrow> \<not> snd (snd (recover_n ops dec32 n q))"
proof (induction n arbitrary: q)
  case (Suc n)
  obtain t q' where "recover_step ops dec32 q = Inr (t, q')" "loaded dec32 q'" using recover_step_loaded[OF Suc.prems] by blast
  then show ?case using Suc.IH[of q'] by (cases "recover_n ops dec32 n q'") simp
qed simp

lemma recover_loaded: "loaded dec32 q \<Longrightarrow> RecoverFromPersistentQueue ops dec32 q = None"
proof (rule ccontr)
  assume l: "loaded dec32 q" and "RecoverFromPersistentQueue ops dec32 q \<noteq> None"
  then obtain q' n ts where "recover_n ops dec32 n q = (ts, q', True)" using recover_returns_n by fast
  then show False using recover_n_loaded[OF l, of n] by simp
qed

text \<open>The sequence number restarts below the items: one turn puts the first item back in front.\<close>

definition restarted :: "json \<Rightarrow> 'db pqueue \<Rightarrow> bool" where
  "restarted j q \<longleftrightarrow> ok (db q) \<and> (\<exists>k its. items ops q = (k, j) # its \<and>
     (\<forall>k' \<in> fst ` set its. \<exists>w. k' = seq_key w \<and> seq q < w))"

lemma recover_step_restarted:
  assumes "restarted j q" "item_good dec32 j" "queued_dec dec32 j = Inr qt" "unat (seq q) + 1 < 2 ^ 64"
  shows "\<exists>q' j'. recover_step ops dec32 q = Inr ((q_ModelID qt, [], q_Input qt), q') \<and> seq q' = seq q + 1 \<and>
    restarted j' q' \<and> item_good dec32 j' \<and> queued_dec dec32 j' = Inr qt \<and>
    (\<forall>(k, j'') \<in> set (tl (items ops q')). (k, j'') \<in> set (tl (items ops q)) \<and> k \<noteq> seq_key (seq q + 1))"
proof -
  obtain k its where okq: "ok (db q)" and it: "items ops q = (k, j) # its"
    and above: "\<forall>k' \<in> fst ` set its. \<exists>w. k' = seq_key w \<and> seq q < w" using assms(1) by (auto simp: restarted_def)
  obtain q1 where q1: "Dequeue ops (queued_dec dec32) q = (queued_dec dec32 j, q1)" "ok (db q1)" "seq q1 = seq q" "items ops q1 = its"
    using Dequeue_takes[OF okq it] by blast
  obtain j' where j': "persist_enc (q_ModelID qt, q_Input qt) = Inr j'" "item_good dec32 j'" "queued_dec dec32 j' = Inr qt"
    using item_good_dec[OF assms(2)] assms(3) by auto
  obtain q2 where q2: "Enqueue ops persist_enc (q_ModelID qt, q_Input qt) q1 = (None, q2)" "ok (db q2)" "seq q2 = seq q + 1"
    "map_of (items ops q2) = (map_of its)(seq_key (seq q + 1) \<mapsto> j')"
    using Enqueue_sets[where i = "(q_ModelID qt, q_Input qt)" and enc = persist_enc, OF q1(2) j'(1)] q1(3,4) by auto
  let ?n = "seq_key (seq q + 1)" and ?its = "filter (\<lambda>p. fst p \<noteq> seq_key (seq q + 1)) its"
  have asc: "ascending (map fst its)" using items_view[OF q1(2)] q1(4) by simp
  have gt: "\<forall>k' \<in> fst ` set ?its. \<exists>w. k' = seq_key w \<and> seq q + 1 < w"
  proof
    fix k' assume "k' \<in> fst ` set ?its"
    then obtain w where w: "k' = seq_key w" "seq q < w" "w \<noteq> seq q + 1" using above by force
    then have "seq q + 1 \<le> w" using assms(4) by (simp add: inc_le)
    with w show "\<exists>w. k' = seq_key w \<and> seq q + 1 < w" by (auto simp: order_less_le)
  qed
  have "ascending (map fst ((?n, j') # ?its))"
    using asc gt by (auto simp: sorted_wrt_map sorted_wrt_filter)
  moreover have "map_of (items ops q2) = map_of ((?n, j') # ?its)"
    using q2(4) by (auto simp: fun_eq_iff map_of_filter_fst)
  ultimately have its2: "items ops q2 = (?n, j') # ?its"
    using items_view[OF q2(2)] by (intro sorted_alist_unique) auto
  have "restarted j' q2" using q2(2,3) its2 gt by (auto simp: restarted_def)
  then show ?thesis using q1(1) assms(3) q2(1,3) j'(2,3) its2 it
    by (auto simp: recover_step_def submit_persist_def)
qed

lemma recover_n_restarted:
  "restarted j q \<Longrightarrow> item_good dec32 j \<Longrightarrow> queued_dec dec32 j = Inr qt \<Longrightarrow> unat (seq q) + n < 2 ^ 64 \<Longrightarrow>
     fst (recover_n ops dec32 n q) = replicate n (q_ModelID qt, [], q_Input qt)"
proof (induction n arbitrary: q j)
  case (Suc n)
  have room: "unat (seq q) + 1 < 2 ^ 64" using Suc.prems(4) by simp
  obtain q' j' where s: "recover_step ops dec32 q = Inr ((q_ModelID qt, [], q_Input qt), q')" "seq q' = seq q + 1"
    "restarted j' q'" "item_good dec32 j'" "queued_dec dec32 j' = Inr qt"
    using recover_step_restarted[OF Suc.prems(1-3) room] by blast
  have "unat (seq q') = unat (seq q) + 1" using seq_step[of q 0] room s(2) by (simp add: queue_room_def)
  then have "unat (seq q') + n < 2 ^ 64" using Suc.prems(4) by simp
  from Suc.IH[OF s(3-5) this] show ?case using s(1) by (cases "recover_n ops dec32 n q'") simp
qed simp

end

section \<open>Properties\<close>

text \<open>On items that \<open>Submit\<close> has written, the loop returns exactly when there are none.\<close>

lemma recover_iff_empty:
  assumes "badger_store ops ok" "ok (db q)" "bview ops (db q) = Inr its" "\<forall>(k, j) \<in> set its. item_good dec32 j"
  shows "RecoverFromPersistentQueue ops dec32 q = (if its = [] then Some q else None)"
proof (cases "its = []")
  case True
  then have "recover_step ops dec32 q = Inl q" using assms(3) by (simp add: recover_step_def Dequeue_def)
  then show ?thesis using True by (simp add: RecoverFromPersistentQueue.simps)
next
  case False
  have "badger_store.loaded ops ok dec32 q"
    using assms False by (simp add: badger_store.loaded_def items_def)
  then show ?thesis using badger_store.recover_loaded[OF assms(1)] False by simp
qed

text \<open>A store that an encodable input was submitted to, reopened with any sequence number.\<close>

lemma recover_after_submit:
  assumes "badger_store ops ok" "ok (db q)" "\<forall>(k, j) \<in> set (items ops q). item_good dec32 j"
    and "marshal input = Inr ji" "json_good dec32 ji"
  shows "RecoverFromPersistentQueue ops dec32 \<lparr>db = db (submit_persist ops mid input q), seq = s\<rparr> = None"
proof -
  obtain j where j: "persist_enc (mid, input) = Inr j" "item_good dec32 j" using item_good_persist[OF assms(4,5)] by blast
  obtain q1 where q1: "Enqueue ops persist_enc (mid, input) q = (None, q1)" "ok (db q1)"
    "map_of (items ops q1) = (map_of (items ops q))(seq_key (seq q + 1) \<mapsto> j)"
    using badger_store.Enqueue_sets[where enc = persist_enc and i = "(mid, input)", OF assms(1,2) j(1)] by auto
  let ?q = "\<lparr>db = db q1, seq = s\<rparr>"
  have it: "items ops ?q = items ops q1" by (simp add: items_def)
  have "item_good dec32 j2" if "(k2, j2) \<in> set (items ops q1)" for k2 j2
    using that q1(3) assms(3) j(2) badger_store.items_mem[OF assms(1) q1(2)] by (auto split: if_splits dest: map_of_SomeD)
  moreover have "items ops q1 \<noteq> []"
  proof
    assume "items ops q1 = []"
    with fun_cong[OF q1(3), of "seq_key (seq q + 1)"] show False by simp
  qed
  moreover have "bview ops (db ?q) = Inr (items ops ?q)" using badger_store.items_view[OF assms(1), of ?q] q1(2) by simp
  ultimately show ?thesis
    using recover_iff_empty[OF assms(1), of ?q] q1(1,2) it by (fastforce simp: submit_persist_def)
qed

text \<open>Recovery does not return while the queue holds a task that \<open>Submit\<close> has written: every turn
  takes a task out and \<open>Submit\<close> puts it back, so the loop ends only on an empty queue, where it
  submits nothing. The server runs this loop before it starts to listen.\<close>

theorem recovery_returns_iff_empty:
  assumes "badger_store ops ok" "ok (db q)" "bview ops (db q) = Inr its" "\<forall>(k, j) \<in> set its. item_good dec32 j"
  shows "RecoverFromPersistentQueue ops dec32 q = (if its = [] then Some q else None)"
  using assms by (rule recover_iff_empty)

lemma mem_store: "badger_store mem_badger (\<lambda>m. ascending (map fst m))"
  by unfold_locales

lemma recovery_returns_iff_empty_witness:
  "RecoverFromPersistentQueue mem_badger id
     \<lparr>db = [(seq_key 1, JObj [(''ModelID'', JStr ''a''), (''Input'', JArr [JF32 (FFin 1)])])], seq = 0\<rparr> = None"
  using recovery_returns_iff_empty[OF mem_store, of
      "\<lparr>db = [(seq_key 1, JObj [(''ModelID'', JStr ''a''), (''Input'', JArr [JF32 (FFin 1)])])], seq = 0\<rparr>" _ id]
  by (simp add: mem_badger_def item_good_def)

text \<open>One request is enough: after a single \<open>Submit\<close> with an encodable input on a fresh queue, whether or not a worker has
  processed it, a server restarted on that store never finishes its recovery, and each turn submits
  the same task again, without its version.\<close>

theorem restart_after_submit_hangs:
  assumes "badger_store ops ok" "ok (db q)" "bview ops (db q) = Inr []" "seq q = 0"
    and "marshal input = Inr ji" "json_good dec32 ji"
    and "q' = \<lparr>db = db (submit_persist ops mid input q), seq = 0\<rparr>" and "n < 2 ^ 64"
  shows "RecoverFromPersistentQueue ops dec32 q' = None \<and>
    fst (recover_n ops dec32 n q') = replicate n (mid, [], unmarshal dec32 ji)"
proof -
  have it: "items ops q = []" using assms(3) by (simp add: items_def)
  obtain j where j: "persist_enc (mid, input) = Inr j" "item_good dec32 j"
    using item_good_persist[OF assms(5,6)] by blast
  have dec: "queued_dec dec32 j = Inr \<lparr>q_ModelID = mid, q_ModelVersion = [], q_Input = unmarshal dec32 ji\<rparr>"
    using j(1) assms(5) by (auto simp: persist_enc_def queued_dec_def field_str_def)
  obtain q1 where q1: "Enqueue ops persist_enc (mid, input) q = (None, q1)" "ok (db q1)"
    "map_of (items ops q1) = [seq_key (seq q + 1) \<mapsto> j]"
    using badger_store.Enqueue_sets[where enc = persist_enc and i = "(mid, input)", OF assms(1,2) j(1)] it by auto
  have "items ops q1 = [(seq_key (seq q + 1), j)]"
    using badger_store.items_view[OF assms(1) q1(2)] q1(3) by (intro sorted_alist_unique) auto
  then have it': "ok (db q')" "items ops q' = [(seq_key (seq q + 1), j)]" "seq q' = 0"
    using q1(1,2) assms(7) by (simp_all add: submit_persist_def items_def)
  have v: "bview ops (db q') = Inr [(seq_key (seq q + 1), j)]"
    using badger_store.items_view[OF assms(1) it'(1)] it'(2) by simp
  have "badger_store.restarted ops ok j q'" using it' by (simp add: badger_store.restarted_def[OF assms(1)])
  then show ?thesis
    using recover_iff_empty[OF assms(1) it'(1) v] j(2) it'(3) assms(8)
      badger_store.recover_n_restarted[OF assms(1) _ j(2) dec, of q' n] by simp
qed

lemma restart_after_submit_hangs_witness:
  "RecoverFromPersistentQueue mem_badger id \<lparr>db = db (submit_persist mem_badger ''a'' (GF32s [FFin 1]) \<lparr>db = [], seq = 0\<rparr>), seq = 0\<rparr> = None"
  using restart_after_submit_hangs[OF mem_store, of "\<lparr>db = [], seq = 0\<rparr>" "GF32s [FFin 1]" "JArr [JF32 (FFin 1)]" id _ "''a''" 0]
  by (simp add: mem_badger_def jarr_def jfloat_def)

text \<open>Recovery loses tasks: on a store with several tasks, numbered from 1 by the previous run, the loop submits
  only the first one, over and over; the items after it are overwritten one by one and never submitted.\<close>

theorem recovery_repeats_first:
  assumes "badger_store ops ok" "ok (db q)" "seq q = 0"
    and "bview ops (db q) = Inr ((seq_key 1, j) # its)" "\<forall>k \<in> fst ` set its. \<exists>w. k = seq_key w"
    and "item_good dec32 j" "queued_dec dec32 j = Inr qt" "n < 2 ^ 64"
  shows "fst (recover_n ops dec32 n q) = replicate n (q_ModelID qt, [], q_Input qt)"
proof -
  have it: "items ops q = (seq_key 1, j) # its" using assms(4) by (simp add: items_def)
  have "\<exists>w. k' = seq_key w \<and> seq q < w" if k: "k' \<in> fst ` set its" for k'
  proof -
    obtain w where w: "k' = seq_key w" using assms(5) k by blast
    have "seq_key 1 < k'" using badger_store.items_view[OF assms(1,2)] it k by auto
    then have "1 < w" using w by simp
    then have "0 < w" by (rule order_less_trans[rotated]) simp
    then show ?thesis using w assms(3) by auto
  qed
  then have "badger_store.restarted ops ok j q" using it assms(2) by (auto simp: badger_store.restarted_def[OF assms(1)])
  then show ?thesis using badger_store.recover_n_restarted[OF assms(1) _ assms(6,7)] assms(3,8) by simp
qed

lemma recovery_repeats_first_witness:
  "fst (recover_n mem_badger id 3
     \<lparr>db = [(seq_key 1, JObj [(''ModelID'', JStr ''a''), (''Input'', JArr [])]),
            (seq_key 2, JObj [(''ModelID'', JStr ''b''), (''Input'', JArr [])])], seq = 0\<rparr>) =
   replicate 3 (''a'', [], GSlice [])"
  using recovery_repeats_first[OF mem_store, of
     "\<lparr>db = [(seq_key 1, JObj [(''ModelID'', JStr ''a''), (''Input'', JArr [])]),
            (seq_key 2, JObj [(''ModelID'', JStr ''b''), (''Input'', JArr [])])], seq = 0\<rparr>"
     "JObj [(''ModelID'', JStr ''a''), (''Input'', JArr [])]" "[(seq_key 2, JObj [(''ModelID'', JStr ''b''), (''Input'', JArr [])])]" id
     "\<lparr>q_ModelID = ''a'', q_ModelVersion = [], q_Input = GSlice []\<rparr>" 3]
  by (force simp: mem_badger_def item_good_def queued_dec_def field_str_def)

lemma flatten_unmarshal: "\<exists>e. flattenInput (unmarshal dec32 j) = Inl e"
  using flattenInput_untyped[OF unmarshal_not_typed_slice] by blast

lemma unmarshal_kvs_get: "kv_get (unmarshal_kvs dec32 fs) k = map_option (unmarshal dec32) (map_of fs k)"
  by (induction fs) auto

text \<open>A recovered task cannot succeed: whatever was submitted, the input that comes back from the
  queue has lost its slice type, so no model with inputs accepts it.\<close>

theorem recovered_task_fails:
  "persist_enc (mid, input) = Inr j \<Longrightarrow> queued_dec dec32 j = Inr qt \<Longrightarrow> names \<noteq> [] \<Longrightarrow>
     q_ModelID qt = mid \<and> (\<exists>e. resolveInputs mid names (q_Input qt) = Inl e)"
proof -
  assume "persist_enc (mid, input) = Inr j" and d: "queued_dec dec32 j = Inr qt" and n: "names \<noteq> []"
  then obtain ji where "j = JObj [(''ModelID'', JStr mid), (''Input'', ji)]"
    by (auto simp: persist_enc_def split: sum.splits)
  then have qt: "q_ModelID qt = mid" "q_Input qt = unmarshal dec32 ji"
    using d by (auto simp: queued_dec_def field_str_def)
  obtain name ns where names: "names = name # ns" using n by (cases names) auto
  obtain e where e: "flattenInput (unmarshal dec32 ji) = Inl e" using flatten_unmarshal by blast
  have "\<exists>e. resolveInputs mid names (unmarshal dec32 ji) = Inl e"
  proof (cases "as_named (unmarshal dec32 ji)")
    case None
    then show ?thesis using e by (simp add: resolveInputs_def)
  next
    case (Some named)
    then obtain fs where fs: "named = unmarshal_kvs dec32 fs" by (cases ji) auto
    show ?thesis
    proof (cases "map_of fs name")
      case None
      then show ?thesis using Some fs names by (simp add: resolveInputs_def unmarshal_kvs_get)
    next
      case (Some jn)
      then show ?thesis using \<open>as_named _ = Some named\<close> fs names flatten_unmarshal[of dec32 jn]
        by (auto simp: resolveInputs_def unmarshal_kvs_get)
    qed
  qed
  then show ?thesis using qt by simp
qed

lemma recovered_task_fails_witness:
  "\<exists>e. flattenInput (GF32s [FFin 1]) = Inr [FFin 1] \<and> resolveInputs ''a'' [''x''] (unmarshal id (JArr [JF32 (FFin 1)])) = Inl e"
proof -
  have "fcvt F64 (FFin 1) = FFin 1" by code_simp
  then show ?thesis
    using recovered_task_fails[of "''a''" "GF32s [FFin 1]" "JObj [(''ModelID'', JStr ''a''), (''Input'', JArr [JF32 (FFin 1)])]" id
      "\<lparr>q_ModelID = ''a'', q_ModelVersion = [], q_Input = unmarshal id (JArr [JF32 (FFin 1)])\<rparr>" "[''x'']"]
    by (simp add: persist_enc_def jarr_def jfloat_def queued_dec_def field_str_def)
qed

end
