(* ===== verification/Worker_Steps.thy ===== *)
theory Worker_Steps
  imports Worker_Pool "HOL-Library.Multiset"
begin

text \<open>
  The goroutines of the worker pool (\<open>src/internal/worker/pool.go\<close>) as a step relation: submitters, the
  workers with their \<open>select\<close> over the task channel and the context, live updates of the pipeline, and
  the two steps of \<open>Shutdown\<close>. A panic in a worker is not recovered, so it ends the process. What the
  engine can answer to a task is the parameter \<open>engine\<close>.
\<close>

section \<open>State\<close>

text \<open>
  \<open>answers\<close> are the messages on the result and error channels of the tickets; \<open>idle\<close> workers wait in
  \<open>select\<close>, \<open>running\<close> are the tasks that the busy ones work on, \<open>exited\<close> counts the workers that have returned.
  \<open>pre_read\<close> is the pipeline that a busy worker has read for its task's input.
\<close>

record pool =
  tasks :: "task list"
  closed_tasks :: bool
  ctx_done :: bool
  idle :: nat
  running :: "task list"
  pre_read :: "nat \<rightharpoonup> pipeline option"
  exited :: nat
  wpipeline :: "pipeline option"
  answers :: "(nat \<times> prediction res) list"
  next_ticket :: nat
  died :: bool

definition capacity :: nat where
  "capacity = 100"

definition NewWorkerPool :: "nat \<Rightarrow> pipeline option \<Rightarrow> pool" where
  "NewWorkerPool numWorkers pl = \<lparr>tasks = [], closed_tasks = False, ctx_done = False, idle = numWorkers, running = [],
     pre_read = Map.empty, exited = 0, wpipeline = pl, answers = [], next_ticket = 0, died = False\<rparr>"

text \<open>\<open>Stats\<close>: the length and the capacity of the task channel.\<close>

definition Stats :: "pool \<Rightarrow> nat \<times> nat" where
  "Stats p = (length (tasks p), capacity)"

definition UpdatePipeline :: "pipeline \<Rightarrow> pool \<Rightarrow> pool" where
  "UpdatePipeline pl p = p\<lparr>wpipeline := Some pl\<rparr>"

section \<open>Steps\<close>

datatype event = Submitted nat | SubmitRefused nat | Taken | PipelineRead nat | Answered nat | WorkerExit | Updated | Cancelled | Closed | Died

text \<open>
  \<open>Submit\<close> sends when there is room and the channel is open, takes the branch of the context when it
  is done, and panics when its \<open>select\<close> picks the send on the closed channel. A worker in \<open>select\<close> takes a
  task, or returns when the channel is closed and empty or the context is done. It reads the pipeline for the input,
  and again for the output when it answers.
\<close>

inductive wstep :: "(fp \<Rightarrow> fp) \<Rightarrow> (task \<Rightarrow> string \<Rightarrow> string \<Rightarrow> goval \<Rightarrow> prediction res outcome \<Rightarrow> bool) \<Rightarrow> event \<Rightarrow> pool \<Rightarrow> pool \<Rightarrow> bool"
  for ex engine where
  submit: "\<not> died p \<Longrightarrow> \<not> closed_tasks p \<Longrightarrow> length (tasks p) < capacity \<Longrightarrow>
     t = \<lparr>ticket = next_ticket p, TModelID = m, TModelVersion = v, TInput = x\<rparr> \<Longrightarrow>
     wstep ex engine (Submitted (next_ticket p)) p (p\<lparr>tasks := tasks p @ [t], next_ticket := Suc (next_ticket p)\<rparr>)"
| submit_done: "\<not> died p \<Longrightarrow> ctx_done p \<Longrightarrow>
     wstep ex engine (SubmitRefused (next_ticket p)) p
       (p\<lparr>answers := answers p @ [(next_ticket p, Inl ErrCanceled)], next_ticket := Suc (next_ticket p)\<rparr>)"
| submit_closed: "\<not> died p \<Longrightarrow> closed_tasks p \<Longrightarrow> wstep ex engine Died p (p\<lparr>died := True\<rparr>)"
| take_task: "\<not> died p \<Longrightarrow> 0 < idle p \<Longrightarrow> tasks p = t # ts \<Longrightarrow>
     wstep ex engine Taken p (p\<lparr>tasks := ts, idle := idle p - 1, running := t # running p\<rparr>)"
| read_pipeline: "\<not> died p \<Longrightarrow> t \<in> set (running p) \<Longrightarrow> pre_read p (ticket t) = None \<Longrightarrow>
     wstep ex engine (PipelineRead (ticket t)) p (p\<lparr>pre_read := (pre_read p)(ticket t \<mapsto> wpipeline p)\<rparr>)"
| answer: "\<not> died p \<Longrightarrow> t \<in> set (running p) \<Longrightarrow> pre_read p (ticket t) = Some pre \<Longrightarrow>
     (\<And>m v x. engine t m v x (predict m v x)) \<Longrightarrow> work ex pre (wpipeline p) predict t = Done r \<Longrightarrow>
     wstep ex engine (Answered (ticket t)) p
       (p\<lparr>running := remove1 t (running p), idle := Suc (idle p), answers := answers p @ [(ticket t, r)]\<rparr>)"
| panic: "\<not> died p \<Longrightarrow> t \<in> set (running p) \<Longrightarrow> pre_read p (ticket t) = Some pre \<Longrightarrow>
     (\<And>m v x. engine t m v x (predict m v x)) \<Longrightarrow> work ex pre (wpipeline p) predict t = Panic \<Longrightarrow>
     wstep ex engine Died p (p\<lparr>died := True\<rparr>)"
| exit_closed: "\<not> died p \<Longrightarrow> 0 < idle p \<Longrightarrow> closed_tasks p \<Longrightarrow> tasks p = [] \<Longrightarrow>
     wstep ex engine WorkerExit p (p\<lparr>idle := idle p - 1, exited := Suc (exited p)\<rparr>)"
| exit_ctx: "\<not> died p \<Longrightarrow> 0 < idle p \<Longrightarrow> ctx_done p \<Longrightarrow>
     wstep ex engine WorkerExit p (p\<lparr>idle := idle p - 1, exited := Suc (exited p)\<rparr>)"
| update: "\<not> died p \<Longrightarrow> wstep ex engine Updated p (UpdatePipeline pl p)"
| cancel: "\<not> died p \<Longrightarrow> \<not> ctx_done p \<Longrightarrow> wstep ex engine Cancelled p (p\<lparr>ctx_done := True\<rparr>)"
| close: "\<not> died p \<Longrightarrow> ctx_done p \<Longrightarrow> \<not> closed_tasks p \<Longrightarrow> wstep ex engine Closed p (p\<lparr>closed_tasks := True\<rparr>)"

text \<open>
  \<open>Shutdown\<close> ends with a \<open>select\<close> over the workers' wait group and the context: it may return as soon
  as one of them is ready.
\<close>

definition shutdown_can_return :: "pool \<Rightarrow> bool" where
  "shutdown_can_return p \<longleftrightarrow> closed_tasks p \<and> (ctx_done p \<or> idle p = 0 \<and> running p = [])"

inductive wreach :: "(fp \<Rightarrow> fp) \<Rightarrow> (task \<Rightarrow> string \<Rightarrow> string \<Rightarrow> goval \<Rightarrow> prediction res outcome \<Rightarrow> bool) \<Rightarrow> nat \<Rightarrow> pool \<Rightarrow> bool"
  for ex engine n where
  init: "wreach ex engine n (NewWorkerPool n pl)"
| step: "wreach ex engine n p \<Longrightarrow> wstep ex engine l p p' \<Longrightarrow> wreach ex engine n p'"

inductive_simps answered_simp: "wstep ex engine (Answered k) p p'"

section \<open>Invariant\<close>

text \<open>
  Every ticket handed out is on the channel, being worked on, or answered, and only one of these and
  once; every worker is idle, busy or gone; the channel never exceeds its capacity.
\<close>

definition tickets :: "pool \<Rightarrow> nat multiset" where
  "tickets p = mset (map ticket (tasks p)) + mset (map ticket (running p)) + mset (map fst (answers p))"

definition wp_inv :: "nat \<Rightarrow> pool \<Rightarrow> bool" where
  "wp_inv n p \<longleftrightarrow> tickets p = mset [0..<next_ticket p] \<and> idle p + length (running p) + exited p = n \<and>
     length (tasks p) \<le> capacity \<and> (closed_tasks p \<longrightarrow> ctx_done p) \<and> (0 < exited p \<longrightarrow> ctx_done p)"

lemma tickets_running: "t \<in> set (running p) \<Longrightarrow>
    mset (map ticket (running p)) = add_mset (ticket t) (mset (map ticket (remove1 t (running p))))"
proof -
  assume "t \<in> set (running p)"
  then have "mset (running p) = add_mset t (mset (remove1 t (running p)))" by simp
  then have "image_mset ticket (mset (running p)) = image_mset ticket (add_mset t (mset (remove1 t (running p))))"
    by (rule arg_cong)
  then show ?thesis by simp
qed

lemma length_remove1_mem: "t \<in> set xs \<Longrightarrow> length xs = Suc (length (remove1 t xs))"
  by (induction xs) auto

lemma wp_inv_step [inv_intros]:
  assumes "wp_inv n p" and st: "wstep ex engine l p p'"
  shows "wp_inv n p'"
  using st
proof (cases rule: wstep.cases)
  case (answer t pre predict r)
  then show ?thesis using assms(1) tickets_running[OF answer(4)] length_remove1_mem[OF answer(4)]
    by (simp add: wp_inv_def tickets_def)
qed (use assms(1) in \<open>auto simp: wp_inv_def tickets_def UpdatePipeline_def\<close>)

lemma wreach_inv: "wreach ex engine n p \<Longrightarrow> wp_inv n p"
proof (induction rule: wreach.induct)
  case (init pl)
  then show ?case by (simp add: wp_inv_def tickets_def NewWorkerPool_def)
qed (rule wp_inv_step)

section \<open>Workers answer\<close>

text \<open>An engine that always answers, and never panics.\<close>

definition engine_total :: "(task \<Rightarrow> string \<Rightarrow> string \<Rightarrow> goval \<Rightarrow> prediction res outcome \<Rightarrow> bool) \<Rightarrow> bool" where
  "engine_total engine \<longleftrightarrow> (\<forall>t m v x. (\<exists>r. engine t m v x (Done r)) \<and> (\<forall>o1. engine t m v x o1 \<longrightarrow> (\<exists>r. o1 = Done r)))"

lemma engine_answers:
  assumes "engine_total engine" "\<not> died p" "t \<in> set (running p)" "pre_read p (ticket t) \<noteq> None"
  shows "\<exists>p' r. wstep ex engine (Answered (ticket t)) p p' \<and> (ticket t, r) \<in> set (answers p')"
proof -
  obtain pre where pre: "pre_read p (ticket t) = Some pre" using assms(4) by blast
  have "\<exists>f. \<forall>m v x. engine t m v x (Done (f m v x))" using assms(1) unfolding engine_total_def by metis
  then obtain f where f: "\<And>m v x. engine t m v x (Done (f m v x))" by blast
  obtain r where "work ex pre (wpipeline p) (\<lambda>m v x. Done (f m v x)) t = Done r"
    using work_total[of "\<lambda>m v x. Done (f m v x)" ex pre "wpipeline p" t] by auto
  from wstep.answer[where engine = engine and predict = "\<lambda>m v x. Done (f m v x)", OF assms(2,3) pre f this]
  show ?thesis by fastforce
qed

lemma died_cause:
  assumes "engine_total engine" "wstep ex engine l p p'" "\<not> died p" "died p'"
  shows "closed_tasks p"
  using assms(2)
proof (cases rule: wstep.cases)
  case (panic t pre predict)
  have "\<And>m v x. \<exists>r. predict m v x = Done r" using panic(6) assms(1) unfolding engine_total_def by blast
  then obtain r where "work ex pre (wpipeline p) predict t = Done r" using work_total by blast
  then show ?thesis using panic(7) by simp
qed (use assms(3,4) in \<open>auto simp: UpdatePipeline_def\<close>)

lemma closed_tasks_mono:
  assumes "wstep ex engine l p p'" "closed_tasks p"
  shows "closed_tasks p'"
  using assms by (cases rule: wstep.cases) (auto simp: UpdatePipeline_def)

lemma wreach_alive:
  assumes "wreach ex engine n p" "engine_total engine"
  shows "\<not> closed_tasks p \<Longrightarrow> \<not> died p"
  using assms(1)
proof (induction rule: wreach.induct)
  case (step p l p')
  then show ?case using died_cause[OF assms(2) step.hyps(2)] closed_tasks_mono[OF step.hyps(2)] by blast
qed (simp add: NewWorkerPool_def)

text \<open>
  A pool over an engine of the contract: every call finds the engine in some ready state, as loads and
  unloads may come in between. It is total, and its answers name the models of their tasks.
\<close>

definition engine_of :: "('e \<Rightarrow> string \<Rightarrow> string \<Rightarrow> goval \<Rightarrow> prediction res outcome) \<Rightarrow> ('e \<Rightarrow> bool) \<Rightarrow>
    task \<Rightarrow> string \<Rightarrow> string \<Rightarrow> goval \<Rightarrow> prediction res outcome \<Rightarrow> bool" where
  "engine_of predict ready t m v x r \<longleftrightarrow> (\<exists>e. ready e \<and> r = predict e m v x)"

context inference_engine
begin

lemma engine_of_total: "ready e \<Longrightarrow> engine_total (engine_of predict ready)"
  unfolding engine_total_def engine_of_def using returns by metis

lemma answer_names_model:
  assumes "wstep ex (engine_of predict ready) (Answered k) p p'"
  shows "\<exists>t \<in> set (running p). \<exists>r. ticket t = k \<and> answers p' = answers p @ [(k, r)] \<and> (\<forall>q. r = Inr q \<longrightarrow> ModelID q = TModelID t)"
  using assms
proof (cases rule: wstep.cases)
  case (answer t pre predict' r)
  have "ModelID q = TModelID t" if "r = Inr q" for q
    using answer(7)[unfolded that]
  proof (rule work_Inr)
    fix x q' out
    assume x: "predict' (TModelID t) (TModelVersion t) x = Done (Inr q')" and q: "q = q'\<lparr>Output := out\<rparr>"
    obtain e where "predict' (TModelID t) (TModelVersion t) x = predict e (TModelID t) (TModelVersion t) x"
      using answer(6)[of "TModelID t" "TModelVersion t" x] unfolding engine_of_def by blast
    then have "ModelID q' = TModelID t" using names_model x by simp
    then show "ModelID q = TModelID t" using q by simp
  qed
  then show ?thesis using answer by auto
qed

end

section \<open>Shutdown\<close>

abbreviation wsteps :: "(fp \<Rightarrow> fp) \<Rightarrow> (task \<Rightarrow> string \<Rightarrow> string \<Rightarrow> goval \<Rightarrow> prediction res outcome \<Rightarrow> bool) \<Rightarrow> pool \<Rightarrow> pool \<Rightarrow> bool" where
  "wsteps ex engine \<equiv> rtranclp (\<lambda>p p'. \<exists>l. wstep ex engine l p p')"

lemma workers_leave:
  "\<not> died p \<Longrightarrow> ctx_done p \<Longrightarrow>
     wsteps ex engine p (p\<lparr>idle := 0, exited := exited p + idle p\<rparr>)"
proof (induction "idle p" arbitrary: p)
  case (Suc k)
  let ?p = "p\<lparr>idle := idle p - 1, exited := Suc (exited p)\<rparr>"
  have "wstep ex engine WorkerExit p ?p" using Suc by (intro wstep.exit_ctx) auto
  moreover have "wsteps ex engine ?p (?p\<lparr>idle := 0, exited := exited ?p + idle ?p\<rparr>)"
    using Suc.hyps Suc.prems by (intro Suc.hyps(1)) auto
  moreover have "?p\<lparr>idle := 0, exited := exited ?p + idle ?p\<rparr> = p\<lparr>idle := 0, exited := exited p + idle p\<rparr>"
    using Suc.hyps(2) by simp
  ultimately show ?case by (metis (mono_tags, lifting) converse_rtranclp_into_rtranclp)
next
  case 0
  then have "p\<lparr>idle := 0, exited := exited p + idle p\<rparr> = p" by simp
  then show ?case by simp
qed

text \<open>A pool without workers stays without, and its tasks stay where they are.\<close>

lemma no_workers_stuck:
  assumes "wsteps ex engine p p'" "idle p = 0" "running p = []" "closed_tasks p"
  shows "idle p' = 0 \<and> running p' = [] \<and> closed_tasks p' \<and> tasks p' = tasks p"
  using assms
proof (induction rule: rtranclp_induct)
  case (step p1 p2)
  then obtain l where "wstep ex engine l p1 p2" by blast
  then show ?case using step by (cases rule: wstep.cases) (auto simp: UpdatePipeline_def)
qed simp

section \<open>Workers are never stuck\<close>

lemma workers_progress:
  assumes "wreach ex engine n p" "engine_total engine" "0 < n" "\<not> ctx_done p"
  shows "\<not> died p \<and> exited p = 0 \<and>
    (\<forall>t \<in> set (running p). if pre_read p (ticket t) = None then \<exists>p'. wstep ex engine (PipelineRead (ticket t)) p p'
       else \<exists>p' r. wstep ex engine (Answered (ticket t)) p p' \<and> (ticket t, r) \<in> set (answers p')) \<and>
    (tasks p \<noteq> [] \<longrightarrow> (\<exists>p'. wstep ex engine Taken p p') \<or> running p \<noteq> [])"
proof -
  have inv: "wp_inv n p" using wreach_inv[OF assms(1)] .
  have alive: "\<not> died p" using wreach_alive[OF assms(1,2)] inv assms(4) by (auto simp: wp_inv_def)
  have ex0: "exited p = 0" using inv assms(4) by (auto simp: wp_inv_def)
  have "(\<exists>p'. wstep ex engine Taken p p') \<or> running p \<noteq> []" if "tasks p \<noteq> []"
  proof (cases "running p = []")
    case True
    then have "0 < idle p" using inv ex0 assms(3) by (auto simp: wp_inv_def)
    moreover obtain t ts where "tasks p = t # ts" using \<open>tasks p \<noteq> []\<close> by (cases "tasks p") auto
    ultimately show ?thesis using wstep.take_task[OF alive] by blast
  qed simp
  then show ?thesis using alive ex0 engine_answers[OF assms(2) alive] wstep.read_pipeline[OF alive] by (simp split: if_split) blast
qed

section \<open>Properties\<close>

text \<open>C4: In every interleaving of submissions, workers, pipeline updates and a shutdown, no task is lost
  inside the pool or answered twice: the tickets on the channel, in the hands of workers and answered are
  all the tickets handed out, each once. The channel never holds more than its capacity, and the
  workers are idle, busy or gone.\<close>

theorem tasks_answered_once:
  assumes "wreach ex engine n p"
  shows "distinct (map ticket (tasks p @ running p) @ map fst (answers p)) \<and>
    set (map ticket (tasks p @ running p) @ map fst (answers p)) = {..<next_ticket p} \<and>
    fst (Stats p) \<le> snd (Stats p) \<and> idle p + length (running p) + exited p = n"
proof -
  have inv: "wp_inv n p" using wreach_inv[OF assms] .
  have m: "mset (map ticket (tasks p @ running p) @ map fst (answers p)) = mset [0..<next_ticket p]"
    using inv by (simp add: wp_inv_def tickets_def add.assoc)
  from mset_eq_imp_distinct_iff[OF m] mset_eq_setD[OF m] inv show ?thesis
    by (simp add: wp_inv_def Stats_def lessThan_atLeast0)
qed

text \<open>C5: Until the pool is shut down, with at least one worker and an engine that answers every call, the
  process does not die, every busy worker can take its next step, which answers its task once it has read the pipeline, a queued task
  can be taken or there is a busy worker, and no worker has left: no task is stuck.\<close>

theorem workers_make_progress:
  assumes "wreach ex engine n p" "engine_total engine" "0 < n" "\<not> ctx_done p"
  shows "\<not> died p \<and> exited p = 0 \<and>
    (\<forall>t \<in> set (running p). if pre_read p (ticket t) = None then \<exists>p'. wstep ex engine (PipelineRead (ticket t)) p p'
       else \<exists>p' r. wstep ex engine (Answered (ticket t)) p p' \<and> (ticket t, r) \<in> set (answers p')) \<and>
    (tasks p \<noteq> [] \<longrightarrow> (\<exists>p'. wstep ex engine Taken p p') \<or> running p \<noteq> [])"
  using assms by (rule workers_progress)

text \<open>C40: Shutdown can abandon the queued tasks although it is called graceful: from every reachable state
  with no busy worker there is a run in which it closes the pool, all workers return through the cancelled context, \<open>Shutdown\<close>
  itself returns, and the queued tasks are never answered by any continuation; a \<open>Submit\<close> in that state can panic.\<close>

theorem shutdown_abandons_tasks:
  assumes "wreach ex engine n p" "\<not> died p" "\<not> ctx_done p" "running p = []"
  shows "\<exists>p'. wsteps ex engine p p' \<and> tasks p' = tasks p \<and> answers p' = answers p \<and> exited p' = n \<and> shutdown_can_return p' \<and>
    (\<forall>p''. wsteps ex engine p' p'' \<longrightarrow> tasks p'' = tasks p \<and> (\<forall>k p3. \<not> wstep ex engine (Answered k) p'' p3)) \<and>
    (\<exists>p''. wstep ex engine Died p' p'' \<and> died p'')"
proof -
  have inv: "wp_inv n p" using wreach_inv[OF assms(1)] .
  let ?p1 = "p\<lparr>ctx_done := True\<rparr>"
  let ?p2 = "?p1\<lparr>idle := 0, exited := exited ?p1 + idle ?p1\<rparr>"
  let ?p3 = "?p2\<lparr>closed_tasks := True\<rparr>"
  have "wstep ex engine Cancelled p ?p1" using wstep.cancel[OF assms(2,3)] .
  then have "wsteps ex engine p ?p1" by blast
  also have "wsteps ex engine ?p1 ?p2" using assms(2) by (intro workers_leave) auto
  also have "wsteps ex engine ?p2 ?p3"
    using wstep.close[of ?p2 ex engine] assms(2) inv assms(3) by (auto simp: wp_inv_def)
  finally have run: "wsteps ex engine p ?p3" .
  have st: "tasks p'' = tasks p \<and> (\<forall>k p3. \<not> wstep ex engine (Answered k) p'' p3)" if "wsteps ex engine ?p3 p''" for p''
    using no_workers_stuck[OF that] assms(4) by (auto simp: answered_simp)
  have "exited ?p3 = n" "shutdown_can_return ?p3" using inv assms(4) by (auto simp: wp_inv_def shutdown_can_return_def)
  moreover have "wstep ex engine Died ?p3 (?p3\<lparr>died := True\<rparr>)" using assms(2) by (intro wstep.submit_closed) auto
  ultimately show ?thesis using run st by (intro exI[of _ ?p3]) auto
qed

text \<open>A pool of two workers with one queued task.\<close>

definition echo_engine :: "task \<Rightarrow> string \<Rightarrow> string \<Rightarrow> goval \<Rightarrow> prediction res outcome \<Rightarrow> bool" where
  "echo_engine = engine_of (\<lambda>e :: unit. \<lambda>m v x. Done (mock_Predict m v x)) (\<lambda>_. True)"

lemma echo_total: "engine_total echo_engine"
  unfolding echo_engine_def by (rule mock.engine_of_total) simp

definition one_task :: pool where
  "one_task = (NewWorkerPool 2 None)\<lparr>tasks := [\<lparr>ticket = 0, TModelID = ''a'', TModelVersion = [], TInput = GNil\<rparr>], next_ticket := 1\<rparr>"

lemma one_task_reach: "wreach ex engine 2 one_task"
proof -
  have "wstep ex engine (Submitted 0) (NewWorkerPool 2 None) one_task"
    using wstep.submit[OF _ _ _ refl, where p = "NewWorkerPool 2 None" and m = "''a''" and v = "[]" and x = GNil
        and ex = ex and engine = engine] by (simp add: one_task_def NewWorkerPool_def capacity_def)
  then show ?thesis using wreach.step[OF wreach.init] by blast
qed

lemma tasks_answered_once_witness: "distinct (map ticket (tasks one_task @ running one_task) @ map fst (answers one_task))"
  using tasks_answered_once[OF one_task_reach] by blast

lemma workers_make_progress_witness: "\<exists>p'. wstep id echo_engine Taken one_task p'"
  using workers_make_progress[OF one_task_reach echo_total, of id] by (simp add: one_task_def NewWorkerPool_def)

lemma shutdown_abandons_tasks_witness:
  "\<exists>p'. wsteps id echo_engine one_task p' \<and> length (tasks p') = 1 \<and> exited p' = 2 \<and> shutdown_can_return p'"
proof -
  have h: "\<not> died one_task" "\<not> ctx_done one_task" "running one_task = []" "length (tasks one_task) = 1"
    by (simp_all add: one_task_def NewWorkerPool_def)
  obtain p' where "wsteps id echo_engine one_task p'" "tasks p' = tasks one_task" "exited p' = 2" "shutdown_can_return p'"
    using shutdown_abandons_tasks[OF one_task_reach[of id echo_engine] h(1-3)] by blast
  then show ?thesis using h(4) by (intro exI[of _ p']) simp
qed

end
