(* ===== verification/Rate_Limiter.thy ===== *)
theory Rate_Limiter
  imports Go_Values
begin

text \<open>
  The token bucket of \<open>src/internal/middleware/rate_limit.go\<close>, in the \<open>float64\<close> arithmetic of the code
  (without fused operations). Time is the reading of the monotonic clock in nanoseconds, an
  argument of each call.
\<close>

section \<open>The limiter\<close>

record rate_limiter =
  lastCheck :: int
  rate :: fp
  cap :: fp
  tokens :: fp

definition NewRateLimiter :: "int \<Rightarrow> fp \<Rightarrow> int \<Rightarrow> rate_limiter" where
  "NewRateLimiter now ratePerSecond capacity =
     \<lparr>lastCheck = now, rate = ratePerSecond, cap = fof_int F64 capacity, tokens = fof_int F64 capacity\<rparr>"

text \<open>\<open>time.Duration.Seconds\<close>: whole seconds plus the nanoseconds divided by \<open>1e9\<close>.\<close>

definition Seconds :: "int \<Rightarrow> fp" where
  "Seconds d = fadd F64 (fof_int F64 (sgn d * (\<bar>d\<bar> div 10 ^ 9))) (fdiv F64 (fof_int F64 (sgn d * (\<bar>d\<bar> mod 10 ^ 9))) (FFin (10 ^ 9)))"

definition refill :: "int \<Rightarrow> rate_limiter \<Rightarrow> fp" where
  "refill now rl = (let t = fadd F64 (tokens rl) (fmul F64 (Seconds (now - lastCheck rl)) (rate rl)) in
     if flt (cap rl) t then cap rl else t)"

definition Allow :: "int \<Rightarrow> rate_limiter \<Rightarrow> bool \<times> rate_limiter" where
  "Allow now rl = (let t = refill now rl in
     if fle (FFin 1) t then (True, rl\<lparr>lastCheck := now, tokens := fsub F64 t (FFin 1)\<rparr>)
     else (False, rl\<lparr>lastCheck := now, tokens := t\<rparr>))"

text \<open>A sequence of requests at the given times.\<close>

fun allow_all :: "int list \<Rightarrow> rate_limiter \<Rightarrow> bool list \<times> rate_limiter" where
  "allow_all [] rl = ([], rl)"
| "allow_all (t # ts) rl = (case Allow t rl of (b, rl') \<Rightarrow> (case allow_all ts rl' of (bs, r) \<Rightarrow> (b # bs, r)))"

section \<open>Arithmetic of non-negative floats\<close>

definition nonneg :: "fp \<Rightarrow> bool" where
  "nonneg x \<longleftrightarrow> x = FInf False \<or> is_fin x \<and> 0 \<le> fval x"

lemma nonneg_fround: "0 \<le> r \<Longrightarrow> nonneg (fround fm False r)"
  using rnd_ge_representable[of 0 r fm] by (auto simp: nonneg_def fround_def Let_def)

lemma nonneg_fadd: "nonneg x \<Longrightarrow> nonneg y \<Longrightarrow> nonneg (fadd fm x y)"
proof -
  assume h: "nonneg x" "nonneg y"
  show ?thesis
  proof (cases "is_fin x \<and> is_fin y")
    case True
    show ?thesis
    proof (cases "fval x + fval y = 0")
      case z: True
      then show ?thesis using True fadd_fin_zero[of x y fm] by (simp add: nonneg_def)
    next
      case False
      have "0 < fval x + fval y" using h True False by (auto simp: nonneg_def)
      then show ?thesis using True False nonneg_fround[of "fval x + fval y" fm] by (simp add: fadd_fin)
    qed
  next
    case False
    then show ?thesis using h by (cases x; cases y) (auto simp: nonneg_def)
  qed
qed

lemma nonneg_fmul: "is_fin x \<Longrightarrow> is_fin y \<Longrightarrow> 0 \<le> fval x \<Longrightarrow> 0 \<le> fval y \<Longrightarrow> nonneg (fmul fm x y)"
proof -
  assume h: "is_fin x" "is_fin y" "0 \<le> fval x" "0 \<le> fval y"
  have z: "nonneg (fround fm b 0)" for b by (simp add: fround_def nonneg_def rnd_representable)
  show ?thesis using h nonneg_fround[of "fval x * fval y" fm] z by (cases x; cases y) (auto simp: nonneg_def)
qed

section \<open>The invariant\<close>

definition rl_inv :: "rate_limiter \<Rightarrow> bool" where
  "rl_inv rl \<longleftrightarrow> fwf F64 (cap rl) \<and> is_fin (cap rl) \<and> fwf F64 (tokens rl) \<and> is_fin (tokens rl) \<and>
     0 \<le> fval (tokens rl) \<and> fval (tokens rl) \<le> fval (cap rl) \<and> is_fin (rate rl) \<and> 0 \<le> fval (rate rl)"

lemma fof_small: "0 \<le> n \<Longrightarrow> n \<le> 2 ^ 53 \<Longrightarrow> fof_int F64 n = FFin (of_int n)"
  using fof_int_exact[of n F64] by simp

text \<open>A duration that fits in the 64 bits of \<open>time.Duration\<close> has a finite number of seconds.\<close>

lemma Seconds_nonneg:
  assumes "0 \<le> d" "d < 2 ^ 63"
  shows "is_fin (Seconds d) \<and> 0 \<le> fval (Seconds d) \<and> fwf F64 (Seconds d)"
proof -
  let ?s = "d div 10 ^ 9" and ?n = "d mod 10 ^ 9"
  have n: "0 \<le> ?n" "?n < 10 ^ 9" by simp_all
  have s: "0 \<le> ?s" using assms by (simp add: pos_imp_zdiv_nonneg_iff)
  have s2: "?s \<le> 2 ^ 34" using assms by (intro zdiv_mono1[of d "2 ^ 63" "10 ^ 9", THEN order_trans]) auto
  have e: "Seconds d = fadd F64 (FFin (of_int ?s)) (fdiv F64 (FFin (of_int ?n)) (FFin (10 ^ 9)))"
  proof -
    have "sgn d * (\<bar>d\<bar> div 10 ^ 9) = ?s" "sgn d * (\<bar>d\<bar> mod 10 ^ 9) = ?n" using assms by (cases "d = 0"; simp)+
    moreover have "fof_int F64 ?s = FFin (of_int ?s)" using s s2 by (intro fof_small) auto
    moreover have "fof_int F64 ?n = FFin (of_int ?n)" using n by (intro fof_small) auto
    ultimately show ?thesis by (simp only: Seconds_def)
  qed
  have q: "0 \<le> (of_int ?n :: rat) / 10 ^ 9" "(of_int ?n :: rat) / 10 ^ 9 \<le> 1"
  proof -
    have "(of_int ?n :: rat) \<le> of_int (10 ^ 9)" using n by (intro of_int_le_iff[THEN iffD2]) simp
    then show "(of_int ?n :: rat) / 10 ^ 9 \<le> 1" by simp
    have "(0 :: rat) \<le> of_int ?n" using n(1) by (simp only: of_int_0_le_iff)
    then show "0 \<le> (of_int ?n :: rat) / 10 ^ 9" by simp
  qed
  have "signbit (FFin (of_int ?n)) = False" using n(1) by (simp add: not_less)
  then have d: "fdiv F64 (FFin (of_int ?n)) (FFin (10 ^ 9)) = fround F64 False (of_int ?n / 10 ^ 9)"
    by (simp add: fdiv_fin)
  note u = fround_unit[OF q, of F64 False]
  have "fof_int F64 ?s = FFin (of_int ?s)" using s s2 by (intro fof_small) auto
  then have fs: "fwf F64 (FFin (of_int ?s))" by (metis fwf_fof_int)
  have "(of_int ?s :: rat) \<le> of_int (2 ^ 34)" using s2 by (simp only: of_int_le_iff)
  then have hi: "fval (FFin (of_int ?s)) + fval (fround F64 False (of_int ?n / 10 ^ 9)) \<le> of_int (2 ^ 35)" using u by simp
  have rep: "representable F64 (of_int (2 ^ 35))" by (rule representable_int) simp
  have lt: "\<bar>of_int (2 ^ 35) :: rat\<bar> < pow2 (ovf F64)"
  proof -
    have "(2::rat) ^ 35 = pow2 35" using pow2_nat[of 35] by simp
    moreover have "pow2 35 < pow2 1024" by simp
    ultimately show ?thesis by simp
  qed
  have s0: "0 \<le> fval (FFin (of_int ?s))" using s by simp
  note a = fadd_nonneg[OF fs fwf_fround, of False "of_int ?n / 10 ^ 9" "of_int (2 ^ 35)"]
  show ?thesis unfolding e d using a u s0 hi rep lt fs by simp
qed

lemma refill_inv:
  assumes "rl_inv rl" "lastCheck rl \<le> now" "now - lastCheck rl < 2 ^ 63"
  shows "is_fin (refill now rl) \<and> fwf F64 (refill now rl) \<and> 0 \<le> fval (refill now rl) \<and> fval (refill now rl) \<le> fval (cap rl)"
proof -
  let ?e = "Seconds (now - lastCheck rl)"
  let ?t = "fadd F64 (tokens rl) (fmul F64 ?e (rate rl))"
  have e: "is_fin ?e" "0 \<le> fval ?e" using Seconds_nonneg[of "now - lastCheck rl"] assms by auto
  have "nonneg ?t" using assms(1) e by (intro nonneg_fadd nonneg_fmul) (auto simp: rl_inv_def nonneg_def)
  moreover have "fwf F64 (fmul F64 ?e (rate rl))" by (cases ?e; cases "rate rl") (simp_all del: fwf.simps(1) add: fwf_fround)
  then have "fwf F64 ?t" using assms(1) by (simp add: rl_inv_def)
  moreover have c: "is_fin (cap rl)" "0 \<le> fval (cap rl)" "fwf F64 (cap rl)" using assms(1) by (auto simp: rl_inv_def)
  ultimately show ?thesis
  proof (cases "flt (cap rl) ?t")
    case False
    have t: "is_fin ?t"
    proof (rule ccontr)
      assume "\<not> is_fin ?t"
      then have "?t = FInf False" using \<open>nonneg ?t\<close> by (simp add: nonneg_def)
      then show False using False c(1) by (cases "cap rl") auto
    qed
    then show ?thesis using False \<open>nonneg ?t\<close> \<open>fwf F64 ?t\<close> c by (auto simp: refill_def Let_def nonneg_def flt_fin)
  qed (simp add: refill_def Let_def)
qed

lemma fsub_one:
  assumes "is_fin t" "fwf F64 t" "1 \<le> fval t"
  shows "is_fin (fsub F64 t (FFin 1)) \<and> fwf F64 (fsub F64 t (FFin 1)) \<and> 0 \<le> fval (fsub F64 t (FFin 1)) \<and>
    fval (fsub F64 t (FFin 1)) \<le> fval t"
proof -
  have w: "fwf F64 (FFin (- 1))" using fwf_fof_int[of F64 "- 1"] fof_int_exact[of "- 1" F64] by simp
  have e: "fsub F64 t (FFin 1) = fadd F64 t (FFin (- 1))" by (simp add: fsub_def)
  show ?thesis
  proof (cases "fval t = 1")
    case True
    then show ?thesis using fadd_fin_zero[of t "FFin (- 1)" F64] assms w by (simp add: e del: fwf.simps(1))
  next
    case False
    then have eq: "fadd F64 t (FFin (- 1)) = fround F64 False (fval t - 1)" using assms fadd_fin[of t "FFin (- 1)" F64] by simp
    have "representable F64 (fval t)" "\<bar>fval t\<bar> < pow2 (ovf F64)" using is_fin_fwf_bound[OF assms(2,1)] by auto
    from fround_between[OF representable_0 this(1), of "fval t - 1" False] this(2) assms(3)
    show ?thesis unfolding e eq by simp
  qed
qed

lemma fle_one: "is_fin t \<Longrightarrow> fle (FFin 1) t \<longleftrightarrow> 1 \<le> fval t"
  by (auto simp: fle_def flt_fin feq_fin)

lemma rl_inv_Allow [inv_intros]:
  assumes "rl_inv rl" "lastCheck rl \<le> now" "now - lastCheck rl < 2 ^ 63"
  shows "rl_inv (snd (Allow now rl))"
  using refill_inv[OF assms] fsub_one[of "refill now rl"] assms(1)
  by (auto simp: Allow_def Let_def rl_inv_def fle_one)

lemma rl_inv_New [inv_intros]:
  "0 \<le> c \<Longrightarrow> c \<le> 2 ^ 53 \<Longrightarrow> is_fin r \<Longrightarrow> 0 \<le> fval r \<Longrightarrow> rl_inv (NewRateLimiter now r c)"
  using fwf_fof_int[of F64 c] by (auto simp: rl_inv_def NewRateLimiter_def fof_small)

text \<open>The times of a run: they never decrease, and no pause exceeds what a duration can hold.\<close>

fun times_ok :: "int \<Rightarrow> int list \<Rightarrow> bool" where
  "times_ok now [] = True"
| "times_ok now (t # ts) = (now \<le> t \<and> t - now < 2 ^ 63 \<and> times_ok t ts)"

lemma Allow_lastCheck [simp]: "lastCheck (snd (Allow now rl)) = now"
  by (simp add: Allow_def Let_def)

lemma Allow_const [simp]: "cap (snd (Allow now rl)) = cap rl" "rate (snd (Allow now rl)) = rate rl"
  by (simp_all add: Allow_def Let_def)

lemma rl_inv_allow_all: "rl_inv rl \<Longrightarrow> times_ok (lastCheck rl) ts \<Longrightarrow> rl_inv (snd (allow_all ts rl)) \<and> cap (snd (allow_all ts rl)) = cap rl"
proof (induction ts arbitrary: rl)
  case (Cons t ts)
  have "rl_inv (snd (Allow t rl))" using Cons.prems by (intro rl_inv_Allow) auto
  moreover have "snd (allow_all (t # ts) rl) = snd (allow_all ts (snd (Allow t rl)))" by (simp split: prod.split)
  ultimately show ?case using Cons.IH[of "snd (Allow t rl)"] Cons.prems by (simp del: allow_all.simps)
qed simp

section \<open>Bursts\<close>

lemma refill_same_time: "tokens rl = FFin (of_int k) \<Longrightarrow> cap rl = FFin c \<Longrightarrow> of_int k \<le> c \<Longrightarrow> 0 \<le> k \<Longrightarrow> k \<le> 2 ^ 53 \<Longrightarrow>
    is_fin (rate rl) \<Longrightarrow> 0 \<le> fval (rate rl) \<Longrightarrow> refill (lastCheck rl) rl = FFin (of_int k)"
proof -
  assume h: "tokens rl = FFin (of_int k)" "cap rl = FFin c" "of_int k \<le> c" "0 \<le> k" "k \<le> 2 ^ 53" "is_fin (rate rl)" "0 \<le> fval (rate rl)"
  have "Seconds 0 = FFin 0" by (simp add: Seconds_def fof_small fround_def rnd_representable)
  moreover have "fmul F64 (FFin 0) (rate rl) \<in> {FFin 0, FNegZero}" using h(6)
    by (cases "rate rl") (simp_all add: fround_def rnd_representable)
  moreover have w: "fwf F64 (FFin (of_int k))" using fwf_fof_int[of F64 k] fof_small[OF h(4,5)] by metis
  have "fadd F64 (FFin (of_int k)) z = FFin (of_int k)" if "z \<in> {FFin 0, FNegZero}" for z
  proof (cases "k = 0")
    case False
    then have "fround F64 b (of_int k) = FFin (of_int k)" for b using w by (intro fround_fwf) auto
    then show ?thesis using that False by auto
  qed (use that in auto)
  ultimately have "fadd F64 (tokens rl) (fmul F64 (Seconds 0) (rate rl)) = FFin (of_int k)"
    using h(1) by metis
  then show ?thesis using h by (simp add: refill_def)
qed

lemma burst_step:
  assumes "tokens rl = FFin (of_int k)" "cap rl = FFin c" "of_int k \<le> c" "0 \<le> k" "k \<le> 2 ^ 53" "is_fin (rate rl)" "0 \<le> fval (rate rl)"
  shows "Allow (lastCheck rl) rl = (1 \<le> k, rl\<lparr>tokens := FFin (of_int (if 1 \<le> k then k - 1 else k))\<rparr>)"
proof -
  note r = refill_same_time[OF assms]
  have "fsub F64 (FFin (of_int k)) (FFin 1) = FFin (of_int (k - 1))" if "1 \<le> k"
  proof -
    have "\<bar>k - 1\<bar> \<le> 2 ^ prec F64" using assms(5) that by simp
    from fof_int_exact[OF this] show ?thesis using that
      by (cases "k = 1") (auto simp: fsub_def Let_def fof_int_def)
  qed
  moreover have "fle (FFin 1) (FFin (of_int k)) \<longleftrightarrow> 1 \<le> k" by (simp add: fle_one)
  ultimately show ?thesis using r assms(1) by (simp add: Allow_def Let_def)
qed

lemma burst_count:
  "tokens rl = FFin (of_int k) \<Longrightarrow> cap rl = FFin c \<Longrightarrow> of_int k \<le> c \<Longrightarrow> 0 \<le> k \<Longrightarrow> k \<le> 2 ^ 53 \<Longrightarrow> is_fin (rate rl) \<Longrightarrow>
     0 \<le> fval (rate rl) \<Longrightarrow>
     fst (allow_all (replicate n (lastCheck rl)) rl) = replicate (min n (nat k)) True @ replicate (n - nat k) False"
proof (induction n arbitrary: rl k)
  case (Suc n)
  note st = burst_step[OF Suc.prems]
  let ?k = "if 1 \<le> k then k - 1 else k"
  let ?rl = "rl\<lparr>tokens := FFin (of_int ?k)\<rparr>"
  have "of_int ?k \<le> c" using Suc.prems(3) by (auto intro: order_trans[rotated])
  then have "fst (allow_all (replicate n (lastCheck ?rl)) ?rl) = replicate (min n (nat ?k)) True @ replicate (n - nat ?k) False"
    using Suc.prems by (intro Suc.IH) auto
  then have ih: "fst (allow_all (replicate n (lastCheck rl)) ?rl) = replicate (min n (nat ?k)) True @ replicate (n - nat ?k) False"
    by simp
  show ?case
  proof (cases "1 \<le> k")
    case True
    then have "nat k = Suc (nat (k - 1))" by simp
    then show ?thesis using st ih True by (auto split: prod.splits)
  next
    case False
    then have "k = 0" using Suc.prems(4) by simp
    then show ?thesis using st ih by (auto split: prod.splits)
  qed
qed simp

section \<open>Properties\<close>

text \<open>C21: Whatever the times of the requests, as long as the clock does not go back, the bucket of a
  limiter never holds a negative number of tokens or more than its capacity, in the rounded
  arithmetic of the code, and no overflow or NaN enters it.\<close>

theorem tokens_bounded:
  assumes "0 \<le> c" "c \<le> 2 ^ 53" "is_fin r" "0 \<le> fval r" "times_ok now ts"
  shows "let rl = snd (allow_all ts (NewRateLimiter now r c)) in
    is_fin (tokens rl) \<and> 0 \<le> fval (tokens rl) \<and> fval (tokens rl) \<le> of_int c"
proof -
  have "rl_inv (NewRateLimiter now r c)" using rl_inv_New[OF assms(1-4)] .
  from rl_inv_allow_all[OF this] have "rl_inv (snd (allow_all ts (NewRateLimiter now r c))) \<and>
      cap (snd (allow_all ts (NewRateLimiter now r c))) = fof_int F64 c"
    using assms(5) by (simp add: NewRateLimiter_def)
  then show ?thesis using fof_small[OF assms(1,2)] by (auto simp: rl_inv_def Let_def)
qed

lemma tokens_bounded_witness:
  "0 \<le> fval (tokens (snd (allow_all [5, 10 ^ 9, 10 ^ 12] (NewRateLimiter 0 (FFin 10) 20))))"
  using tokens_bounded[of 20 "FFin 10" 0 "[5, 10 ^ 9, 10 ^ 12]"] by (simp only: Let_def) simp

text \<open>A burst of simultaneous requests on a full bucket lets exactly as many through as the capacity,
  the first ones, and refuses the rest.\<close>

theorem burst_exact:
  assumes "0 \<le> c" "c \<le> 2 ^ 53" "is_fin r" "0 \<le> fval r"
  shows "fst (allow_all (replicate n now) (NewRateLimiter now r c)) = replicate (min n (nat c)) True @ replicate (n - nat c) False"
  using burst_count[of "NewRateLimiter now r c" c "of_int c" n] assms
  by (simp add: NewRateLimiter_def fof_small)

lemma burst_exact_witness:
  "fst (allow_all (replicate 25 0) (NewRateLimiter 0 (FFin 10) 20)) = replicate 20 True @ replicate 5 False"
  using burst_exact[of 20 "FFin 10" 25 0] by simp

end
