(* ===== verification/Middleware.thy ===== *)
theory Middleware
  imports Rate_Limiter Config
begin

text \<open>
  HTTP requests and the middleware of the API (\<open>src/internal/middleware\<close>): API keys, JSON Web Tokens, request
  identifiers and the rate limit. A header, query value or path parameter that is absent is the
  empty string, as gin returns it. Parsing and verifying a token is the parameter \<open>jwt_parse\<close>.
\<close>

section \<open>Requests\<close>

text \<open>\<open>body\<close> is the JSON of the request body, if it is JSON; \<open>ctx\<close> holds the values set with \<open>Set\<close>.\<close>

record http_req =
  path :: string
  header :: "string \<Rightarrow> string"
  query :: "string \<Rightarrow> string"
  param :: "string \<Rightarrow> string"
  body :: "json option"
  client_ip :: string

type_synonym ctx_vals = "(string \<times> goval) list"

text \<open>
  A reply is a fixed error message, a message that ends in the text of an error, or a JSON value.
\<close>

datatype reply_body = ErrMsg string | ErrOf string gerr | Json goval

record http_resp =
  status :: int
  reply :: reply_body

definition err_reply :: "int \<Rightarrow> string \<Rightarrow> http_resp" where
  "err_reply code msg = \<lparr>status = code, reply = ErrMsg msg\<rparr>"

definition err_of :: "int \<Rightarrow> string \<Rightarrow> gerr \<Rightarrow> http_resp" where
  "err_of code pre e = \<lparr>status = code, reply = ErrOf pre e\<rparr>"

definition ok_reply :: "(string \<times> goval) list \<Rightarrow> http_resp" where
  "ok_reply fs = \<lparr>status = 200, reply = Json (GMap fs)\<rparr>"

text \<open>A middleware goes on with new context values and response headers, answers itself, or panics.\<close>

datatype mw_result = Next ctx_vals "(string \<times> string) list" | Abort http_resp | MwPanic

section \<open>API keys\<close>

definition APIKeyAuth :: "string \<Rightarrow> http_req \<Rightarrow> ctx_vals \<Rightarrow> mw_result" where
  "APIKeyAuth expectedKey r c =
     (let key = (if header r ''X-API-Key'' = [] then query r ''api_key'' else header r ''X-API-Key'') in
      if key = [] \<and> has_prefix (path r) ''/metrics'' then Next c []
      else if key \<noteq> expectedKey then Abort (err_reply 401 ''invalid or missing API key'')
      else Next c [])"

section \<open>JSON Web Tokens\<close>

record jwt_mw =
  mw_Secret :: string
  mw_PublicKey :: string
  mw_Algorithm :: string
  mw_Audience :: string
  mw_Issuer :: string
  mw_RequireRole :: string
  mw_RequireScope :: string

text \<open>
  The verification key that the key function returns: the secret, the RSA key of a PEM text, or an error.
  \<open>jwt_parse\<close> gives the claims of a valid token, or \<open>None\<close>.
\<close>

datatype jwt_key = HmacKey string | RsaPem string

definition claim_is :: "(string \<times> goval) list \<Rightarrow> string \<Rightarrow> string \<Rightarrow> bool" where
  "claim_is claims k v \<longleftrightarrow> kv_get claims k = Some (GString v)"

definition check_claims :: "jwt_mw \<Rightarrow> (string \<times> goval) list \<Rightarrow> ctx_vals \<Rightarrow> mw_result" where
  "check_claims cfg claims c =
     (if mw_Audience cfg \<noteq> [] \<and> \<not> claim_is claims ''aud'' (mw_Audience cfg) then Abort (err_reply 401 ''Invalid audience'')
      else if mw_Issuer cfg \<noteq> [] \<and> \<not> claim_is claims ''iss'' (mw_Issuer cfg) then Abort (err_reply 401 ''Invalid issuer'')
      else if mw_RequireRole cfg \<noteq> [] \<and> \<not> claim_is claims ''role'' (mw_RequireRole cfg) then
        Abort (err_reply 403 ''Missing or invalid role claim'')
      else if mw_RequireScope cfg \<noteq> [] then
        (case kv_get claims ''scope'' of
           None \<Rightarrow> Abort (err_reply 403 ''Missing or invalid scope claim'')
         | Some (GString s) \<Rightarrow>
             if contains s (mw_RequireScope cfg) then Next (aput ''jwt_claims'' (GMapClaims claims) c) []
             else Abort (err_reply 403 ''Missing or invalid scope claim'')
         | Some _ \<Rightarrow> MwPanic)
      else Next (aput ''jwt_claims'' (GMapClaims claims) c) [])"

definition JWTMiddleware :: "(jwt_key \<Rightarrow> string \<Rightarrow> (string \<times> goval) list option) \<Rightarrow> jwt_mw \<Rightarrow> http_req \<Rightarrow> ctx_vals \<Rightarrow> mw_result" where
  "JWTMiddleware jwt_parse cfg r c =
     (let h = header r ''Authorization'' in
      if h = [] \<or> \<not> has_prefix h ''Bearer '' then Abort (err_reply 401 ''Missing or invalid Authorization header'')
      else (let tokenString = trim_prefix h ''Bearer '' in
        if mw_Algorithm cfg = ''HS256'' then
          (case jwt_parse (HmacKey (mw_Secret cfg)) tokenString of
             None \<Rightarrow> Abort (err_reply 401 ''Invalid token'') | Some claims \<Rightarrow> check_claims cfg claims c)
        else if mw_Algorithm cfg = ''RS256'' then
          (case jwt_parse (RsaPem (mw_PublicKey cfg)) tokenString of
             None \<Rightarrow> Abort (err_reply 401 ''Invalid token'') | Some claims \<Rightarrow> check_claims cfg claims c)
        else Abort (err_reply 401 ''Unsupported JWT algorithm'')))"

text \<open>The configuration that the router builds: it has no public key.\<close>

definition router_jwt :: "jwt_config \<Rightarrow> jwt_mw" where
  "router_jwt j = \<lparr>mw_Secret = Secret j, mw_PublicKey = [], mw_Algorithm = Algorithm j, mw_Audience = Audience j,
     mw_Issuer = Issuer j, mw_RequireRole = RequireRole j, mw_RequireScope = RequireScope j\<rparr>"

section \<open>Request identifiers and rate limit\<close>

text \<open>Eight random bytes, in hexadecimal, when the client sends no identifier.\<close>

definition RequestID :: "bytes \<Rightarrow> http_req \<Rightarrow> ctx_vals \<Rightarrow> mw_result" where
  "RequestID rand8 r c =
     (let i = (if header r ''X-Request-ID'' = [] then hex_encode rand8 else header r ''X-Request-ID'') in
      Next (aput ''X-Request-ID'' (GString i) c) [(''X-Request-ID'', i)])"

definition GetRequestID :: "ctx_vals \<Rightarrow> string" where
  "GetRequestID c = (case kv_get c ''X-Request-ID'' of Some (GString s) \<Rightarrow> s | _ \<Rightarrow> [])"

definition RateLimit :: "int \<Rightarrow> http_req \<Rightarrow> ctx_vals \<Rightarrow> rate_limiter \<Rightarrow> mw_result \<times> rate_limiter" where
  "RateLimit now r c rl =
     (if path r = ''/health'' \<or> path r = ''/metrics'' then (Next c [], rl)
      else (case Allow now rl of
          (True, rl') \<Rightarrow> (Next c [], rl')
        | (False, rl') \<Rightarrow> (Abort (err_reply 429 ''too many requests, please try again later''), rl')))"

section \<open>Properties\<close>

text \<open>A request passes the API key check exactly when its key, the header if it is not empty and the
  query value otherwise, is the configured one, or when it has no key and its path begins with \<open>/metrics\<close>;
  in the default configuration, which has no key, every request without a key passes.\<close>

theorem api_key_passes_iff:
  "(APIKeyAuth k r c = Next c [] \<longleftrightarrow>
     (let key = (if header r ''X-API-Key'' = [] then query r ''api_key'' else header r ''X-API-Key'')
      in key = k \<or> key = [] \<and> has_prefix (path r) ''/metrics'')) \<and>
   (header r ''X-API-Key'' = [] \<and> query r ''api_key'' = [] \<longrightarrow> APIKeyAuth (APIKey default_config) r c = Next c [])"
proof -
  have "APIKey default_config = []" by (simp add: default_config_def Load_def str_setting_def)
  then show ?thesis by (auto simp: APIKeyAuth_def Let_def)
qed

text \<open>A request without headers, query values and parameters.\<close>

definition plain_req :: "string \<Rightarrow> http_req" where
  "plain_req p = \<lparr>path = p, header = (\<lambda>_. []), query = (\<lambda>_. []), param = (\<lambda>_. []), body = None, client_ip = []\<rparr>"

lemma api_key_passes_iff_witness:
  "APIKeyAuth (APIKey default_config) (plain_req ''/api/v1/models'') [] = Next [] []"
  using api_key_passes_iff[THEN conjunct2, of "plain_req ''/api/v1/models''" "[]"] by (simp add: plain_req_def)

lemma check_claims_Next: "check_claims cfg claims c = Next c' h \<longleftrightarrow>
    (mw_Audience cfg \<noteq> [] \<longrightarrow> claim_is claims ''aud'' (mw_Audience cfg)) \<and>
    (mw_Issuer cfg \<noteq> [] \<longrightarrow> claim_is claims ''iss'' (mw_Issuer cfg)) \<and>
    (mw_RequireRole cfg \<noteq> [] \<longrightarrow> claim_is claims ''role'' (mw_RequireRole cfg)) \<and>
    (mw_RequireScope cfg \<noteq> [] \<longrightarrow> (\<exists>s. kv_get claims ''scope'' = Some (GString s) \<and> contains s (mw_RequireScope cfg))) \<and>
    c' = aput ''jwt_claims'' (GMapClaims claims) c \<and> h = []"
proof (cases "kv_get claims ''scope''")
  case None
  then show ?thesis unfolding check_claims_def by auto
next
  case (Some v)
  then show ?thesis unfolding check_claims_def by (cases v) (auto simp: Some)
qed

text \<open>C16: A token gets through exactly when it is a bearer token that verifies under the configured
  algorithm and carries the required audience, issuer and role, and a scope claim that contains the required
  scope as a substring; the claims are then in the context. With RS256 the router never
  lets a request through, because it passes no public key on.\<close>

theorem jwt_passes_iff:
  assumes "\<forall>t. jwt_parse (RsaPem []) t = None"
  shows "(JWTMiddleware jwt_parse cfg r c = Next c' h \<longleftrightarrow>
     (\<exists>t claims key. header r ''Authorization'' = ''Bearer '' @ t \<and>
       (mw_Algorithm cfg = ''HS256'' \<and> key = HmacKey (mw_Secret cfg) \<or>
        mw_Algorithm cfg = ''RS256'' \<and> key = RsaPem (mw_PublicKey cfg)) \<and>
       jwt_parse key t = Some claims \<and>
       (mw_Audience cfg \<noteq> [] \<longrightarrow> claim_is claims ''aud'' (mw_Audience cfg)) \<and>
       (mw_Issuer cfg \<noteq> [] \<longrightarrow> claim_is claims ''iss'' (mw_Issuer cfg)) \<and>
       (mw_RequireRole cfg \<noteq> [] \<longrightarrow> claim_is claims ''role'' (mw_RequireRole cfg)) \<and>
       (mw_RequireScope cfg \<noteq> [] \<longrightarrow> (\<exists>s. kv_get claims ''scope'' = Some (GString s) \<and> contains s (mw_RequireScope cfg))) \<and>
       c' = aput ''jwt_claims'' (GMapClaims claims) c \<and> h = [])) \<and>
    (Algorithm j = ''RS256'' \<longrightarrow> JWTMiddleware jwt_parse (router_jwt j) r c \<noteq> Next c' h)"
proof -
  let ?h = "header r ''Authorization''"
  have A: "JWTMiddleware jwt_parse cfg r c = Next c' h \<longleftrightarrow>
     (\<exists>t claims key. ?h = ''Bearer '' @ t \<and>
       (mw_Algorithm cfg = ''HS256'' \<and> key = HmacKey (mw_Secret cfg) \<or>
        mw_Algorithm cfg = ''RS256'' \<and> key = RsaPem (mw_PublicKey cfg)) \<and>
       jwt_parse key t = Some claims \<and> check_claims cfg claims c = Next c' h)" for cfg
  proof (cases "has_prefix ?h ''Bearer ''")
    case False
    then show ?thesis by (auto simp: JWTMiddleware_def Let_def simp del: append_Cons)
  next
    case True
    then obtain t where t: "?h = ''Bearer '' @ t" using has_prefixE by blast
    have tp: "trim_prefix (''Bearer '' @ t) ''Bearer '' = t" by (rule trim_prefix_append)
    have hp: "has_prefix (''Bearer '' @ t) ''Bearer ''" by (rule has_prefix_append)
    show ?thesis unfolding JWTMiddleware_def Let_def t tp using hp by (auto split: option.splits simp del: append_Cons)
  qed
  have "Algorithm j = ''RS256'' \<longrightarrow> JWTMiddleware jwt_parse (router_jwt j) r c \<noteq> Next c' h"
    unfolding A using assms by (auto simp: router_jwt_def)
  then show ?thesis unfolding A check_claims_Next by blast
qed

text \<open>A parser that knows one token of one secret.\<close>

definition sample_parse :: "jwt_key \<Rightarrow> string \<Rightarrow> (string \<times> goval) list option" where
  "sample_parse k t = (if k = HmacKey ''s'' \<and> t = ''tok'' then Some [(''role'', GString ''admin''), (''scope'', GString ''unread'')] else None)"

lemma jwt_passes_iff_witness:
  "JWTMiddleware sample_parse \<lparr>mw_Secret = ''s'', mw_PublicKey = [], mw_Algorithm = ''HS256'', mw_Audience = [], mw_Issuer = [],
       mw_RequireRole = ''admin'', mw_RequireScope = ''read''\<rparr>
     ((plain_req ''/api/v1/mgmt/remote/models'')\<lparr>header := \<lambda>_. ''Bearer '' @ ''tok''\<rparr>) [] =
   Next [(''jwt_claims'', GMapClaims [(''role'', GString ''admin''), (''scope'', GString ''unread'')])] []"
proof -
  have n: "\<forall>t. sample_parse (RsaPem []) t = None" by (simp add: sample_parse_def)
  have s: "contains ''unread'' ''read''" by code_simp
  show ?thesis unfolding jwt_passes_iff[of sample_parse, OF n, THEN conjunct1]
    by (intro exI[of _ "''tok''"] exI[of _ "[(''role'', GString ''admin''), (''scope'', GString ''unread'')]"] exI[of _ "HmacKey ''s''"])
      (use s in \<open>auto simp: sample_parse_def claim_is_def aput_def\<close>)
qed

end
