(* ===== verification/Api.thy ===== *)
theory Api
  imports Middleware Worker_Pool
begin

text \<open>
  The HTTP handlers (\<open>src/internal/api/handlers.go\<close>). A handler gets the request, the context values
  that the middleware has set, and what it calls as arguments: \<open>submit\<close> is what the \<open>select\<close> over
  the channels of a submitted task sees, the engine's and the remote manager's operations are functions. Its result is the list of
  audited actions and the response, \<open>None\<close> when it returns without one. A panic becomes a response
  of status 500 in gin's recovery middleware, which is not part of the handler.
\<close>

section \<open>Results\<close>

type_synonym handled = "(string list \<times> http_resp option) outcome"

text \<open>
  The branches of the handlers' \<open>select\<close>: a result (\<open>None\<close> is the \<open>nil\<close> of a closed channel), an error,
  the end of the request's context, or the timer.
\<close>

datatype select_case = SResult "prediction option" | SError gerr | SCtxDone | STimeout

section \<open>Request bodies\<close>

text \<open>\<open>InferenceRequest\<close>: a field of the wrong type is an error, an absent one the zero value.\<close>

record inference_request =
  ir_model_id :: string
  ir_version :: string
  ir_input :: goval

definition field_any :: "(string \<times> json) list \<Rightarrow> string \<Rightarrow> goval" where
  "field_any fs k = (case map_of fs k of None \<Rightarrow> GNil | Some j \<Rightarrow> unmarshal id j)"

text \<open>The numbers of a request are \<open>float64\<close>, so the decoder of \<open>float32\<close> tokens is not used.\<close>

definition bad_json :: gerr where
  "bad_json = ErrExt ''invalid JSON''"

definition dec_inference :: "json option \<Rightarrow> inference_request res" where
  "dec_inference b = (case b of
       Some (JObj fs) \<Rightarrow>
         (case field_str fs ''model_id'' of Inl e \<Rightarrow> Inl e | Inr mid \<Rightarrow>
         (case field_str fs ''version'' of Inl e \<Rightarrow> Inl e | Inr ver \<Rightarrow>
           Inr \<lparr>ir_model_id = mid, ir_version = ver, ir_input = field_any fs ''input''\<rparr>))
     | Some JNull \<Rightarrow> Inr \<lparr>ir_model_id = [], ir_version = [], ir_input = GNil\<rparr>
     | _ \<Rightarrow> Inl bad_json)"

text \<open>A string field with \<open>binding:"required"\<close> must not be empty.\<close>

definition required_str :: "(string \<times> json) list \<Rightarrow> string \<Rightarrow> string res" where
  "required_str fs k = (case field_str fs k of Inl e \<Rightarrow> Inl e
     | Inr s \<Rightarrow> if s = [] then Inl (ErrExt ''validation failed on required'') else Inr s)"

definition dec_load :: "json option \<Rightarrow> (string \<times> string \<times> string) res" where
  "dec_load b = (case b of
       Some (JObj fs) \<Rightarrow>
         (case required_str fs ''model_id'' of Inl e \<Rightarrow> Inl e | Inr mid \<Rightarrow>
         (case required_str fs ''model_path'' of Inl e \<Rightarrow> Inl e | Inr p \<Rightarrow>
         (case field_str fs ''version'' of Inl e \<Rightarrow> Inl e | Inr ver \<Rightarrow> Inr (mid, p, ver))))
     | _ \<Rightarrow> Inl bad_json)"

text \<open>\<open>Inputs []interface{}\<close> is required: absent or \<open>null\<close> fails the binding, an empty array does not.\<close>

definition dec_batch :: "json option \<Rightarrow> goval list res" where
  "dec_batch b = (case b of
       Some (JObj fs) \<Rightarrow> (case map_of fs ''inputs'' of
           Some (JArr js) \<Rightarrow> Inr (map (unmarshal id) js)
         | _ \<Rightarrow> Inl (ErrExt ''validation failed on required''))
     | _ \<Rightarrow> Inl bad_json)"

section \<open>Input conversion\<close>

fun num_f32 :: "goval \<Rightarrow> fp option" where
  "num_f32 (GF64 x) = Some (fcvt F32 x)"
| "num_f32 (GF32 x) = Some x"
| "num_f32 (GInt n) = Some (fof_int F32 n)"
| "num_f32 (GInt64 w) = Some (fof_int F32 (sint w))"
| "num_f32 _ = None"

fun conv_slice :: "nat \<Rightarrow> goval list \<Rightarrow> fp list res" where
  "conv_slice i [] = Inr []"
| "conv_slice i (v # vs) = (case num_f32 v of
       None \<Rightarrow> Inl (Errorf ''unsupported type at index %d: %T'' [GInt (int i), v])
     | Some x \<Rightarrow> (case conv_slice (Suc i) vs of Inl e \<Rightarrow> Inl e | Inr xs \<Rightarrow> Inr (x # xs)))"

fun convertToFloat32Slice :: "goval \<Rightarrow> fp list res" where
  "convertToFloat32Slice (GF32s v) = Inr v"
| "convertToFloat32Slice (GF64s v) = Inr (map (fcvt F32) v)"
| "convertToFloat32Slice (GSlice v) = conv_slice 0 v"
| "convertToFloat32Slice v = Inl (Errorf ''unsupported input type: %T'' [v])"

text \<open>Maps go to the engine as they are, everything else becomes a \<open>[]float32\<close>.\<close>

definition process_input :: "goval \<Rightarrow> goval res" where
  "process_input v = (case as_named v of
       Some m \<Rightarrow> Inr v
     | None \<Rightarrow> (case convertToFloat32Slice v of Inl e \<Rightarrow> Inl e | Inr xs \<Rightarrow> Inr (GF32s xs)))"

section \<open>Prediction\<close>

text \<open>The response fields; an empty version and a \<open>nil\<close> metadata value are left out.\<close>

definition omit_nil :: "string \<Rightarrow> goval \<Rightarrow> (string \<times> goval) list" where
  "omit_nil k v = (if v = GNil then [] else [(k, v)])"

definition omit_empty :: "string \<Rightarrow> string \<Rightarrow> (string \<times> goval) list" where
  "omit_empty k s = (if s = [] then [] else [(k, GString s)])"

definition prediction_reply :: "prediction \<Rightarrow> (string \<times> goval) list" where
  "prediction_reply p = [(''model_id'', GString (ModelID p))] @ omit_empty ''version'' (PVersion p) @
     [(''output'', Output p), (''latency_ms'', GInt (Latency p))] @ omit_nil ''metadata'' (PMetadata p)"

text \<open>A batch reply holds the predictions themselves, with the tags of \<open>Prediction\<close>.\<close>

definition prediction_json :: "prediction \<Rightarrow> (string \<times> goval) list" where
  "prediction_json p = [(''model_id'', GString (ModelID p))] @ omit_empty ''version'' (PVersion p) @
     [(''output'', Output p)] @ omit_nil ''metadata'' (PMetadata p) @ [(''latency_ms'', GInt (Latency p))]"

definition err_status :: "gerr \<Rightarrow> int" where
  "err_status e = (if err_is e ErrModelNotFound then 404
     else if err_is e ErrModelVersionNotFound then 404
     else if err_is e ErrDeadlineExceeded then 504 else 500)"

definition Predict_h :: "(string \<Rightarrow> string \<Rightarrow> goval \<Rightarrow> select_case) \<Rightarrow> http_req \<Rightarrow> handled" where
  "Predict_h submit r =
     (let mid = param r ''model_id'' in
      if mid = [] then Done ([''inference_error''], Some (err_reply 400 ''model_id is required''))
      else (case dec_inference (body r) of
        Inl e \<Rightarrow> Done ([''inference_error''], Some (err_of 400 ''invalid request: '' e))
      | Inr req \<Rightarrow>
        if ir_model_id req \<noteq> [] \<and> ir_model_id req \<noteq> mid then
          Done ([''inference_error''], Some (err_reply 400 ''model_id in path does not match model_id in request body''))
        else if ir_input req = GNil then Done ([''inference_error''], Some (err_reply 400 ''input is required''))
        else (case process_input (ir_input req) of
          Inl e \<Rightarrow> Done ([''inference_error''], Some (err_of 400 ''input conversion failed: '' e))
        | Inr input \<Rightarrow> (case submit mid (ir_version req) input of
            SResult None \<Rightarrow> Done ([''inference_start'', ''inference_error''], Some (err_reply 500 ''no result from worker''))
          | SResult (Some p) \<Rightarrow> Done ([''inference_start'', ''inference_success''], Some (ok_reply (prediction_reply p)))
          | SError e \<Rightarrow> Done ([''inference_start'', ''inference_error''], Some (err_of (err_status e) [] e))
          | SCtxDone \<Rightarrow> Done ([''inference_start'', ''inference_cancelled''], None)
          | STimeout \<Rightarrow> Blocked))))"

text \<open>
  \<open>Infer\<close>, the older handler, has its own pipeline (never set by \<open>NewAPI\<close>), a timer instead of the context, and
  dereferences the result without a check.
\<close>

definition Infer_h :: "(fp \<Rightarrow> fp) \<Rightarrow> pipeline option \<Rightarrow> (string \<Rightarrow> string \<Rightarrow> goval \<Rightarrow> select_case) \<Rightarrow> http_req \<Rightarrow> handled" where
  "Infer_h ex pl submit r = (case dec_inference (body r) of
       Inl e \<Rightarrow> Done ([], Some (err_reply 400 ''invalid request format''))
     | Inr req \<Rightarrow>
       if ir_model_id req = [] then Done ([], Some (err_reply 400 ''model_id is required''))
       else (case run_pipeline ex pl (ir_input req) of
         Inl e \<Rightarrow> Done ([], Some (err_of 400 ''pre-processing failed: '' e))
       | Inr input \<Rightarrow> (case submit (ir_model_id req) (ir_version req) input of
           SResult None \<Rightarrow> Panic
         | SResult (Some p) \<Rightarrow> (case run_pipeline ex pl (Output p) of
             Inl e \<Rightarrow> Done ([], Some (err_of 500 ''post-processing failed: '' e))
           | Inr out \<Rightarrow> Done ([], Some (ok_reply (prediction_reply (p\<lparr>PVersion := [], Output := out\<rparr>)))))
         | SError e \<Rightarrow> Done ([], Some (err_of (if e = ErrModelNotFound then 404 else if e = ErrNotImplemented then 501 else 500) [] e))
         | STimeout \<Rightarrow> Done ([], Some (err_reply 504 ''inference request timed out''))
         | SCtxDone \<Rightarrow> Blocked)))"

text \<open>
  The batch handler submits one task per input, and waits for it before the next. What it submits as
  input is a pointer to a new task. \<open>submit\<close> gets the index of the call.
\<close>

fun batch_loop :: "(nat \<Rightarrow> string \<Rightarrow> string \<Rightarrow> goval \<Rightarrow> select_case) \<Rightarrow> string \<Rightarrow> string \<Rightarrow> nat \<Rightarrow> goval list \<Rightarrow> prediction list \<Rightarrow>
    (handled, prediction list) sum" where
  "batch_loop submit mid ver i [] acc = Inr acc"
| "batch_loop submit mid ver i (x # xs) acc = (case submit i mid ver (GTask mid ver x) of
       SResult None \<Rightarrow> Inl (Done ([''batch_predict_error''], Some (err_reply 500 ''no result from worker'')))
     | SResult (Some p) \<Rightarrow> batch_loop submit mid ver (Suc i) xs (acc @ [p])
     | SError e \<Rightarrow> Inl (Done ([''batch_predict_error''], Some (err_of 500 [] e)))
     | SCtxDone \<Rightarrow> Inl (Done ([''batch_predict_cancelled''], None))
     | STimeout \<Rightarrow> Inl Blocked)"

definition BatchPredict_h :: "(nat \<Rightarrow> string \<Rightarrow> string \<Rightarrow> goval \<Rightarrow> select_case) \<Rightarrow> int \<Rightarrow> http_req \<Rightarrow> handled" where
  "BatchPredict_h submit latency r =
     (let mid = param r ''model_id''; ver = (if param r ''version'' = [] then query r ''version'' else param r ''version'') in
      if mid = [] then Done ([''batch_predict_error''], Some (err_reply 400 ''model_id is required''))
      else (case dec_batch (body r) of
        Inl e \<Rightarrow> Done ([''batch_predict_error''], Some (err_of 400 ''invalid request: '' e))
      | Inr ins \<Rightarrow>
        if ins = [] then Done ([''batch_predict_error''], Some (err_reply 400 ''no inputs provided''))
        else (case batch_loop submit mid ver 0 ins [] of
          Inl h \<Rightarrow> h
        | Inr ps \<Rightarrow> Done ([''batch_predict_success''], Some (ok_reply
            [(''model_id'', GString mid), (''version'', GString ver),
             (''outputs'', GMaps (map prediction_json ps)), (''latency_ms'', GInt latency),
             (''batch_size'', GInt (int (length ins)))])))))"

section \<open>Models\<close>

definition HealthCheck :: handled where
  "HealthCheck = Done ([], Some (ok_reply [(''status'', GString ''ok'')]))"

text \<open>Loading through the engine: \<open>get\<close> and \<open>load\<close> are its \<open>GetModel\<close> and \<open>LoadModelWithTracing\<close>.\<close>

definition LoadModel_h :: "(string \<Rightarrow> string \<Rightarrow> 'e \<Rightarrow> model res) \<Rightarrow> (model \<Rightarrow> 'e \<Rightarrow> (gerr option \<times> 'e) outcome) \<Rightarrow>
    http_req \<Rightarrow> 'e \<Rightarrow> (http_resp \<times> 'e) outcome" where
  "LoadModel_h get load r e = (case dec_load (body r) of
       Inl err \<Rightarrow> Done (err_reply 400 ''invalid request'', e)
     | Inr (mid, p, ver) \<Rightarrow> (case get mid ver e of
         Inr m \<Rightarrow> Done (err_reply 409 ''model with this ID and version already exists'', e)
       | Inl err \<Rightarrow> bind_outcome
           (load \<lparr>ID = mid, Version = ver, Path = p, InputShape = [], OutputShape = [], Metadata = []\<rparr> e)
           (\<lambda>(res, e'). case res of
              Some err \<Rightarrow> Done (err_of 500 [] err, e')
            | None \<Rightarrow> Done (ok_reply [(''model_id'', GString mid), (''version'', GString ver), (''status'', GString ''model_loaded'')], e'))))"

text \<open>Unloading always names the empty version.\<close>

definition UnloadModel_h :: "(string \<Rightarrow> string \<Rightarrow> 'e \<Rightarrow> gerr option \<times> 'e) \<Rightarrow> http_req \<Rightarrow> 'e \<Rightarrow> http_resp \<times> 'e" where
  "UnloadModel_h unload r e =
     (let mid = param r ''model_id'' in
      if mid = [] then (err_reply 400 ''model id is required'', e)
      else (case unload mid [] e of
        (Some err, e') \<Rightarrow> (err_of (if err = ErrModelNotFound then 404 else 500) [] err, e')
      | (None, e') \<Rightarrow> (ok_reply [(''status'', GString ''success''),
          (''message'', GString (''model '' @ mid @ '' unloaded successfully''))], e')))"

definition model_json :: "model \<Rightarrow> (string \<times> goval) list" where
  "model_json m = [(''ID'', GString (ID m)), (''Version'', GString (Version m)), (''Path'', GString (Path m)),
     (''InputShape'', GInts (InputShape m)), (''OutputShape'', GInts (OutputShape m)), (''Metadata'', GMap (Metadata m))]"

definition GetModelInfo_h :: "(string \<Rightarrow> string \<Rightarrow> model res) \<Rightarrow> http_req \<Rightarrow> handled" where
  "GetModelInfo_h info r =
     (let mid = param r ''model_id''; ver = param r ''version'' in
      if mid = [] then Done ([], Some (err_reply 400 ''model_id is required''))
      else (case info mid ver of
        Inl e \<Rightarrow> Done ([''model_info_error''], Some (err_of 404 [] e))
      | Inr m \<Rightarrow> Done ([''model_info''], Some (ok_reply (model_json m)))))"

definition ListModels_h :: "string list \<Rightarrow> handled" where
  "ListModels_h ms = Done ([], Some (ok_reply [(''models'', GStrings ms)]))"

definition Reload_h :: handled where
  "Reload_h = Done ([], Some (ok_reply [(''status'', GString ''reloaded'')]))"

section \<open>Remote models\<close>

text \<open>
  \<open>requireRole\<close>: whether the handler may go on (\<open>None\<close>) or the response. The claims are asserted to
  be a \<open>map[string]interface{}\<close>; any other dynamic type panics.
\<close>

definition requireRole :: "ctx_vals \<Rightarrow> string list \<Rightarrow> http_resp option outcome" where
  "requireRole c allowed = (case kv_get c ''jwt_claims'' of
       None \<Rightarrow> Done None
     | Some v \<Rightarrow> (case as_named v of
         None \<Rightarrow> Panic
       | Some claims \<Rightarrow> (case kv_get claims ''role'' of
           Some (GString role) \<Rightarrow> if role \<in> set allowed then Done None else Done (Some (err_reply 403 ''insufficient role''))
         | _ \<Rightarrow> Done (Some (err_reply 403 ''missing role claim'')))))"

definition ListRemoteModels_h :: "string list res \<Rightarrow> ctx_vals \<Rightarrow> handled" where
  "ListRemoteModels_h remote c = bind_outcome (requireRole c [''admin'', ''ops'']) (\<lambda>a. case a of
       Some resp \<Rightarrow> Done ([], Some resp)
     | None \<Rightarrow> (case remote of
         Inl e \<Rightarrow> Done ([''list_remote_models''], Some (err_of 500 [] e))
       | Inr ms \<Rightarrow> Done ([''list_remote_models''], Some (ok_reply [(''remote_models'', GStrings ms)]))))"

text \<open>The three changes of the remote registry and the cache: bind the body, call, report.\<close>

definition dec_cleanup :: "json option \<Rightarrow> (string \<times> string set) res" where
  "dec_cleanup b = (case b of
       Some (JObj fs) \<Rightarrow> (case field_str fs ''cache_dir'' of Inl e \<Rightarrow> Inl e | Inr d \<Rightarrow>
         (case map_of fs ''keep'' of
            None \<Rightarrow> Inr (d, {})
          | Some JNull \<Rightarrow> Inr (d, {})
          | Some (JArr js) \<Rightarrow> (case map_res (\<lambda>j. case j of JStr s \<Rightarrow> Inr s | JNull \<Rightarrow> Inr [] | _ \<Rightarrow> Inl bad_json) js of
                Inl e \<Rightarrow> Inl e | Inr ks \<Rightarrow> Inr (d, set ks))
          | Some _ \<Rightarrow> Inl bad_json))
     | Some JNull \<Rightarrow> Inr ([], {})
     | _ \<Rightarrow> Inl bad_json)"

definition CleanupModelCache_h :: "(string \<Rightarrow> string set \<Rightarrow> string list res) \<Rightarrow> http_req \<Rightarrow> http_resp \<times> string list" where
  "CleanupModelCache_h cleanup r = (case dec_cleanup (body r) of
       Inl e \<Rightarrow> (err_reply 400 ''invalid request'', [])
     | Inr (d, keep) \<Rightarrow> (case cleanup d keep of
         Inl e \<Rightarrow> (err_of 500 [] e, [])
       | Inr removed \<Rightarrow> (ok_reply [(''status'', GString ''cache_cleaned'')], removed)))"

definition DeleteRemoteModel_h :: "(string \<Rightarrow> gerr option) \<Rightarrow> http_req \<Rightarrow> http_resp" where
  "DeleteRemoteModel_h delete r = (case body r of
       Some (JObj fs) \<Rightarrow> (case required_str fs ''object_key'' of
           Inl e \<Rightarrow> err_reply 400 ''invalid request''
         | Inr k \<Rightarrow> (case delete k of
             Some e \<Rightarrow> err_of 500 [] e
           | None \<Rightarrow> ok_reply [(''status'', GString ''remote_model_deleted'')]))
     | _ \<Rightarrow> err_reply 400 ''invalid request'')"

definition UploadRemoteModel_h :: "(string \<Rightarrow> string \<Rightarrow> gerr option) \<Rightarrow> http_req \<Rightarrow> http_resp" where
  "UploadRemoteModel_h upload r = (case body r of
       Some (JObj fs) \<Rightarrow> (case required_str fs ''local_path'' of
           Inl e \<Rightarrow> err_reply 400 ''invalid request''
         | Inr p \<Rightarrow> (case required_str fs ''object_key'' of
             Inl e \<Rightarrow> err_reply 400 ''invalid request''
           | Inr k \<Rightarrow> (case upload p k of
               Some e \<Rightarrow> err_of 500 [] e
             | None \<Rightarrow> ok_reply [(''status'', GString ''remote_model_uploaded'')])))
     | _ \<Rightarrow> err_reply 400 ''invalid request'')"

end
