(* ===== verification/Router.thy ===== *)
theory Router
  imports Api
begin

text \<open>
  The routes (\<open>src/internal/api/router.go\<close>): which middleware runs before which handler. A group of gin keeps
  the middleware of its parent at the time it is made and adds its own; a route runs the middleware
  that its group has when it is registered.
\<close>

section \<open>Registration\<close>

datatype mw = MApiKey | MRateLimit | MRequestID | MJWT

record group =
  prefix :: string
  mws :: "mw list"

record route =
  r_method :: string
  r_path :: string
  r_mws :: "mw list"
  r_handler :: string

definition use :: "mw list \<Rightarrow> group \<Rightarrow> group" where
  "use ms g = g\<lparr>mws := mws g @ ms\<rparr>"

definition sub :: "string \<Rightarrow> group \<Rightarrow> group" where
  "sub p g = g\<lparr>prefix := prefix g @ p\<rparr>"

definition handle :: "string \<Rightarrow> string \<Rightarrow> string \<Rightarrow> group \<Rightarrow> route" where
  "handle meth p h g = \<lparr>r_method = meth, r_path = prefix g @ p, r_mws = mws g, r_handler = h\<rparr>"

definition SetupRoutes :: "bool \<Rightarrow> route list" where
  "SetupRoutes jwtEnabled =
     (let r0 = \<lparr>prefix = [], mws = []\<rparr>;
          r = use [MApiKey] r0;
          v1 = use [MRateLimit, MRequestID] (sub ''/api/v1'' r);
          public = sub ''/public'' v1;
          models = sub ''/models'' v1;
          modelGroup = sub ''/:model_id'' models;
          versionGroup = sub ''/versions/:version'' modelGroup;
          infer = sub ''/infer'' v1;
          mgmt = (if jwtEnabled then use [MJWT] (sub ''/mgmt'' v1) else sub ''/mgmt'' v1);
          remote = sub ''/remote'' mgmt;
          system = sub ''/system'' mgmt
      in [handle ''GET'' ''/metrics'' ''promhttp'' r0,
          handle ''GET'' ''/health'' ''HealthCheck'' r0,
          handle ''GET'' ''/health'' ''HealthCheck'' public,
          handle ''GET'' [] ''ListModels'' models,
          handle ''POST'' [] ''LoadModel'' models,
          handle ''GET'' [] ''GetModelInfo'' modelGroup,
          handle ''DELETE'' [] ''UnloadModel'' modelGroup,
          handle ''GET'' [] ''GetModelInfo'' versionGroup,
          handle ''DELETE'' [] ''UnloadModel'' versionGroup,
          handle ''POST'' ''/:model_id'' ''Predict'' infer,
          handle ''POST'' ''/:model_id/versions/:version'' ''Predict'' infer,
          handle ''POST'' ''/batch/:model_id'' ''BatchPredict'' infer,
          handle ''POST'' ''/batch/:model_id/versions/:version'' ''BatchPredict'' infer,
          handle ''GET'' ''/models'' ''ListRemoteModels'' remote,
          handle ''POST'' ''/cleanup'' ''CleanupModelCache'' remote,
          handle ''POST'' ''/delete'' ''DeleteRemoteModel'' remote,
          handle ''POST'' ''/upload'' ''UploadRemoteModel'' remote,
          handle ''POST'' ''/reload'' ''Reload'' system,
          handle ''GET'' ''/config'' ''config'' system])"

text \<open>The handler of \<open>/system/config\<close>: with JWT enabled only the role \<open>admin\<close> may read it. \<open>now_text\<close> is
  the time as RFC 3339 prints it.\<close>

definition getVersionInfo :: "string \<Rightarrow> (string \<times> goval) list" where
  "getVersionInfo now_text = [(''version'', GString ''1.0.0''), (''build'', GString ''dev''), (''buildTime'', GString now_text)]"

definition config_h :: "bool \<Rightarrow> goval \<Rightarrow> string \<Rightarrow> ctx_vals \<Rightarrow> handled" where
  "config_h jwtEnabled jwtCfg now_text c =
     (let ok = Done ([], Some (ok_reply [(''jwt'', jwtCfg), (''version'', GMap (getVersionInfo now_text))]));
          denied = Done ([], Some (err_reply 403 ''admin only'')) in
      if jwtEnabled then
        (case kv_get c ''jwt_claims'' of
           None \<Rightarrow> denied
         | Some v \<Rightarrow> (case as_named v of
             None \<Rightarrow> Panic
           | Some claims \<Rightarrow> if claim_is claims ''role'' ''admin'' then ok else denied))
      else ok)"

section \<open>Serving\<close>

text \<open>The middleware of a route, one after the other; \<open>run\<close> says what each does.\<close>

fun run_chain :: "(mw \<Rightarrow> http_req \<Rightarrow> ctx_vals \<Rightarrow> mw_result) \<Rightarrow> mw list \<Rightarrow> http_req \<Rightarrow> ctx_vals \<Rightarrow> mw_result" where
  "run_chain run [] r c = Next c []"
| "run_chain run (m # ms) r c = (case run m r c of
       Next c' h \<Rightarrow> (case run_chain run ms r c' of Next c'' h' \<Rightarrow> Next c'' (h @ h') | a \<Rightarrow> a)
     | a \<Rightarrow> a)"

text \<open>What the middleware does to one request, with the parameters of the router.\<close>

definition run_mw :: "string \<Rightarrow> jwt_config \<Rightarrow> (jwt_key \<Rightarrow> string \<Rightarrow> (string \<times> goval) list option) \<Rightarrow> bytes \<Rightarrow> int \<Rightarrow> rate_limiter \<Rightarrow>
    mw \<Rightarrow> http_req \<Rightarrow> ctx_vals \<Rightarrow> mw_result" where
  "run_mw apiKey jwtCfg jwt_parse rand8 now limiter m r c = (case m of
       MApiKey \<Rightarrow> APIKeyAuth apiKey r c
     | MRateLimit \<Rightarrow> fst (RateLimit now r c limiter)
     | MRequestID \<Rightarrow> RequestID rand8 r c
     | MJWT \<Rightarrow> JWTMiddleware jwt_parse (router_jwt jwtCfg) r c)"

lemma run_chain_abort: "run m r c = Abort a \<Longrightarrow> run_chain run (m # ms) r c = Abort a"
  by simp

lemma routes_facts:
  "list_all (\<lambda>rt. r_path rt \<notin> {''/metrics'', ''/health''} \<longrightarrow> take 1 (r_mws rt) = [MApiKey]) (SetupRoutes True)"
  "list_all (\<lambda>rt. r_path rt \<notin> {''/metrics'', ''/health''} \<longrightarrow> take 1 (r_mws rt) = [MApiKey]) (SetupRoutes False)"
  "distinct (map (\<lambda>rt. (r_method rt, r_path rt)) (SetupRoutes True))"
  "distinct (map (\<lambda>rt. (r_method rt, r_path rt)) (SetupRoutes False))"
  "(''GET'', ''/api/v1/public/health'') \<in> set (map (\<lambda>rt. (r_method rt, r_path rt)) (SetupRoutes True))"
  "(''GET'', ''/api/v1/public/health'') \<in> set (map (\<lambda>rt. (r_method rt, r_path rt)) (SetupRoutes False))"
  by code_simp+

section \<open>Properties\<close>

text \<open>C15: No two routes clash, and every route except \<open>/metrics\<close> and \<open>/health\<close>, the one documented as
  public included, runs the API key check first: without the key it answers 401 and no
  handler runs.\<close>

theorem routes_need_api_key:
  "distinct (map (\<lambda>rt. (r_method rt, r_path rt)) (SetupRoutes jwt)) \<and>
   (\<forall>rt \<in> set (SetupRoutes jwt). r_path rt \<notin> {''/metrics'', ''/health''} \<longrightarrow>
      (APIKeyAuth apiKey r c \<noteq> Next c [] \<longrightarrow>
       run_chain (run_mw apiKey jwtCfg jwt_parse rand8 now limiter) (r_mws rt) r c =
         Abort (err_reply 401 ''invalid or missing API key''))) \<and>
   (''GET'', ''/api/v1/public/health'') \<in> set (map (\<lambda>rt. (r_method rt, r_path rt)) (SetupRoutes jwt))"
proof -
  have first: "list_all (\<lambda>rt. r_path rt \<notin> {''/metrics'', ''/health''} \<longrightarrow> take 1 (r_mws rt) = [MApiKey]) (SetupRoutes b)" for b
    using routes_facts(1,2) by (cases b) (simp_all only:)
  have "run_chain (run_mw apiKey jwtCfg jwt_parse rand8 now limiter) ms r c = Abort (err_reply 401 ''invalid or missing API key'')"
    if t: "take 1 ms = [MApiKey]" and k: "APIKeyAuth apiKey r c \<noteq> Next c []" for ms
  proof -
    obtain ms' where "ms = MApiKey # ms'" using t by (cases ms) auto
    moreover have "APIKeyAuth apiKey r c = Abort (err_reply 401 ''invalid or missing API key'')"
      using k unfolding APIKeyAuth_def Let_def by presburger
    ultimately show ?thesis by (simp add: run_mw_def)
  qed
  moreover have "distinct (map (\<lambda>rt. (r_method rt, r_path rt)) (SetupRoutes b))" for b
    using routes_facts(3,4) by (cases b) (simp_all only:)
  moreover have "(''GET'', ''/api/v1/public/health'') \<in> set (map (\<lambda>rt. (r_method rt, r_path rt)) (SetupRoutes b))" for b
    using routes_facts(5,6) by (cases b) (simp_all only:)
  ultimately show ?thesis using first[of jwt] unfolding list_all_iff by blast
qed

lemma routes_need_api_key_witness:
  "\<exists>rt \<in> set (SetupRoutes True). r_path rt = ''/api/v1/public/health'' \<and>
     run_chain (run_mw ''key'' (JWT default_config) (\<lambda>_ _. None) [] 0 (NewRateLimiter 0 (FFin 10) 20)) (r_mws rt)
       (plain_req ''/api/v1/public/health'') [] = Abort (err_reply 401 ''invalid or missing API key'')"
proof -
  have a: "APIKeyAuth ''key'' (plain_req ''/api/v1/public/health'') [] \<noteq> Next [] []"
    by (simp add: APIKeyAuth_def plain_req_def has_prefix_def)
  note t = routes_need_api_key[of True "''key''" "plain_req ''/api/v1/public/health''" "[]" "JWT default_config" "\<lambda>_ _. None" "[]" 0
      "NewRateLimiter 0 (FFin 10) 20"]
  then obtain rt where rt: "rt \<in> set (SetupRoutes True)" "(''GET'', ''/api/v1/public/health'') = (r_method rt, r_path rt)"
    unfolding set_map by (elim conjE imageE)
  then have p: "r_path rt = ''/api/v1/public/health''" by (simp only: prod.inject)
  have "r_path rt \<notin> {''/metrics'', ''/health''}" unfolding p by simp
  with t[THEN conjunct2, THEN conjunct1] rt(1) a show ?thesis by (intro bexI[of _ rt] conjI p) (simp_all only: not_False_eq_True simp_thms)
qed

text \<open>With JWT enabled, every request that the token middleware lets through panics in the role check of
  the remote model listing and in the configuration handler: the middleware stores the claims
  under a type that the type assertion there does not accept.\<close>

theorem role_checks_panic:
  assumes "JWTMiddleware jwt_parse cfg r c = Next c' h"
  shows "ListRemoteModels_h remote c' = Panic \<and> config_h True jwtCfg now_text c' = Panic"
proof -
  obtain claims where "c' = aput ''jwt_claims'' (GMapClaims claims) c"
    using assms by (auto simp: JWTMiddleware_def Let_def check_claims_Next split: if_splits option.splits)
  then show ?thesis by (simp add: ListRemoteModels_h_def requireRole_def config_h_def)
qed

lemma role_checks_panic_witness:
  "\<exists>c' h. JWTMiddleware (\<lambda>k t. Some []) \<lparr>mw_Secret = ''s'', mw_PublicKey = [], mw_Algorithm = ''HS256'', mw_Audience = [],
       mw_Issuer = [], mw_RequireRole = [], mw_RequireScope = []\<rparr>
     ((plain_req ''/api/v1/mgmt/remote/models'')\<lparr>header := \<lambda>_. ''Bearer tok''\<rparr>) [] = Next c' h \<and>
     ListRemoteModels_h (Inr []) c' = Panic"
proof -
  have "JWTMiddleware (\<lambda>k t. Some []) \<lparr>mw_Secret = ''s'', mw_PublicKey = [], mw_Algorithm = ''HS256'', mw_Audience = [],
       mw_Issuer = [], mw_RequireRole = [], mw_RequireScope = []\<rparr>
     ((plain_req ''/api/v1/mgmt/remote/models'')\<lparr>header := \<lambda>_. ''Bearer tok''\<rparr>) [] = Next [(''jwt_claims'', GMapClaims [])] []"
    by (simp add: JWTMiddleware_def has_prefix_def check_claims_Next aput_def)
  from role_checks_panic[OF this, of "Inr []"] this show ?thesis by blast
qed

text \<open>The version in the path is ignored where it matters: predicting and unloading do the same
  whatever version the path names. Unloading always names the empty version, so on the engine a model that was
  loaded with a version is not found.\<close>

theorem path_version_ignored:
  "Predict_h submit (r\<lparr>param := (param r)(''version'' := v)\<rparr>) = Predict_h submit r \<and>
   UnloadModel_h unload (r\<lparr>param := (param r)(''version'' := v)\<rparr>) e = UnloadModel_h unload r e \<and>
   (param r ''model_id'' \<noteq> [] \<longrightarrow> UnloadModel_h unload r e =
      (case unload (param r ''model_id'') [] e of
         (Some err, e') \<Rightarrow> (err_of (if err = ErrModelNotFound then 404 else 500) [] err, e')
       | (None, e') \<Rightarrow> (ok_reply [(''status'', GString ''success''),
          (''message'', GString (''model '' @ param r ''model_id'' @ '' unloaded successfully''))], e')))"
  by (simp add: Predict_h_def UnloadModel_h_def Let_def split: prod.split)

lemma path_version_ignored_witness:
  "fst (UnloadModel_h (\<lambda>i v e. (if v = [] then Some ErrModelNotFound else None, e))
     ((plain_req ''/'')\<lparr>param := (\<lambda>_. ''a'')\<rparr>) ()) = err_of 404 [] ErrModelNotFound"
  using path_version_ignored[of "\<lambda>_ _ _. SCtxDone" "(plain_req ''/'')\<lparr>param := (\<lambda>_. ''a'')\<rparr>" "[]"
      "\<lambda>i v e. (if v = [] then Some ErrModelNotFound else None, e)" "()"]
  by simp

section \<open>Conversion of request inputs\<close>

lemma conv_slice_Inr: "conv_slice i vs = Inr xs \<longleftrightarrow> list_all2 (\<lambda>v x. num_f32 v = Some x) vs xs"
proof (induction vs arbitrary: i xs)
  case (Cons v vs)
  show ?case unfolding list_all2_Cons1 Cons.IH[of "Suc i", symmetric] by (auto split: option.splits sum.splits)
qed auto

lemma conv_slice_Inl: "conv_slice i vs = Inl e \<longleftrightarrow>
    (\<exists>as v bs. vs = as @ v # bs \<and> num_f32 v = None \<and> (\<forall>a \<in> set as. num_f32 a \<noteq> None) \<and>
       e = Errorf ''unsupported type at index %d: %T'' [GInt (int (i + length as)), v])"
proof (induction vs arbitrary: i)
  case (Cons v vs)
  show ?case
  proof (cases "num_f32 v")
    case None
    then show ?thesis by (auto simp: Cons_eq_append_conv)
  next
    case (Some x)
    have "conv_slice i (v # vs) = Inl e \<longleftrightarrow> conv_slice (Suc i) vs = Inl e" using Some by (auto split: sum.splits)
    also have "\<dots> \<longleftrightarrow> (\<exists>as w bs. v # vs = (v # as) @ w # bs \<and> num_f32 w = None \<and> (\<forall>a \<in> set (v # as). num_f32 a \<noteq> None) \<and>
       e = Errorf ''unsupported type at index %d: %T'' [GInt (int (i + length (v # as))), w])"
      unfolding Cons.IH[of "Suc i"] using Some by auto
    also have "\<dots> \<longleftrightarrow> (\<exists>as w bs. v # vs = as @ w # bs \<and> num_f32 w = None \<and> (\<forall>a \<in> set as. num_f32 a \<noteq> None) \<and>
       e = Errorf ''unsupported type at index %d: %T'' [GInt (int (i + length as)), w])" (is "?L \<longleftrightarrow> ?R")
    proof
      assume ?R
      then obtain as w bs where h: "v # vs = as @ w # bs" "num_f32 w = None" "\<forall>a \<in> set as. num_f32 a \<noteq> None"
        "e = Errorf ''unsupported type at index %d: %T'' [GInt (int (i + length as)), w]" by blast
      then obtain as' where "as = v # as'" using Some by (cases as) auto
      then show ?L using h by blast
    qed blast
    finally show ?thesis .
  qed
qed simp

text \<open>A JSON array is accepted as input exactly when all its elements are numbers, which become the
  nearest \<open>float32\<close> values in order; otherwise the error names the first element that is not one.\<close>

theorem convert_array_spec:
  "(convertToFloat32Slice (GSlice vs) = Inr xs \<longleftrightarrow> list_all2 (\<lambda>v x. num_f32 v = Some x) vs xs) \<and>
   (convertToFloat32Slice (GSlice vs) = Inl e \<longleftrightarrow>
      (\<exists>as v bs. vs = as @ v # bs \<and> num_f32 v = None \<and> (\<forall>a \<in> set as. num_f32 a \<noteq> None) \<and>
         e = Errorf ''unsupported type at index %d: %T'' [GInt (int (length as)), v])) \<and>
   num_f32 (unmarshal id (JF64 x)) = Some (fcvt F32 x)"
  using conv_slice_Inr[of 0 vs xs] conv_slice_Inl[of 0 vs e] by simp

end
