(* ===== verification/Grpc_Server.thy ===== *)
theory Grpc_Server
  imports Api
begin

text \<open>
  The gRPC service (\<open>src/internal/grpcapi/server.go\<close>): unary and streaming inference over the worker pool. The
  messages are those of the generated code, reduced to the fields that the service uses. As in \<open>Api\<close>,
  \<open>submit\<close> is what the \<open>select\<close> over the channels of a submitted task sees; the service waits for these two
  channels only.
\<close>

section \<open>Messages\<close>

record infer_request =
  req_model_id :: string
  req_version :: string
  input_floats :: "fp list"
  req_request_id :: string

record infer_response =
  resp_model_id :: string
  output_floats :: "fp list"
  resp_latency :: int
  resp_request_id :: string
  resp_error :: "gerr option"

definition error_response :: "gerr \<Rightarrow> infer_response" where
  "error_response e = \<lparr>resp_model_id = [], output_floats = [], resp_latency = 0, resp_request_id = [], resp_error = Some e\<rparr>"

fun toFloat32Slice :: "goval \<Rightarrow> fp list" where
  "toFloat32Slice (GF32s arr) = arr"
| "toFloat32Slice _ = []"

section \<open>Unary inference\<close>

text \<open>One request: a \<open>nil\<close> result is dereferenced; no error of the call itself is ever returned.\<close>

definition answer_request :: "(string \<Rightarrow> string \<Rightarrow> goval \<Rightarrow> select_case) \<Rightarrow> infer_request \<Rightarrow> infer_response outcome" where
  "answer_request submit req =
     (if req_model_id req = [] then Done (error_response (ErrNew ''model_id is required''))
      else (case submit (req_model_id req) (req_version req) (GF32s (input_floats req)) of
        SResult None \<Rightarrow> Panic
      | SResult (Some p) \<Rightarrow> Done \<lparr>resp_model_id = ModelID p, output_floats = toFloat32Slice (Output p),
          resp_latency = Latency p, resp_request_id = req_request_id req, resp_error = None\<rparr>
      | SError e \<Rightarrow> Done (error_response e)
      | SCtxDone \<Rightarrow> Blocked
      | STimeout \<Rightarrow> Blocked))"

definition grpc_Infer :: "(string \<Rightarrow> string \<Rightarrow> goval \<Rightarrow> select_case) \<Rightarrow> infer_request \<Rightarrow> infer_response outcome" where
  "grpc_Infer submit req = answer_request submit req"

section \<open>Streaming inference\<close>

text \<open>
  What \<open>Recv\<close> delivers, one after the other; an error whose text is \<open>EOF\<close> ends the stream well. \<open>send\<close>
  says whether the \<open>n\<close>-th \<open>Send\<close> fails, \<open>submit\<close> gets the number of the request. The result is the responses sent and the result of
  the call; with no more events the call waits.
\<close>

datatype recv = Req infer_request | Eof | RecvErr gerr

fun stream_loop :: "(nat \<Rightarrow> string \<Rightarrow> string \<Rightarrow> goval \<Rightarrow> select_case) \<Rightarrow> (nat \<Rightarrow> gerr option) \<Rightarrow> nat \<Rightarrow> recv list \<Rightarrow>
    infer_response list \<times> gerr option outcome" where
  "stream_loop submit send n [] = ([], Blocked)"
| "stream_loop submit send n (Eof # evs) = ([], Done None)"
| "stream_loop submit send n (RecvErr e # evs) = ([], Done (Some e))"
| "stream_loop submit send n (Req req # evs) = (case answer_request (submit n) req of
       Panic \<Rightarrow> ([], Panic)
     | Blocked \<Rightarrow> ([], Blocked)
     | Done resp \<Rightarrow> (case send n of
         Some e \<Rightarrow> ([], Done (Some e))
       | None \<Rightarrow> (case stream_loop submit send (Suc n) evs of (rs, res) \<Rightarrow> (resp # rs, res))))"

definition StreamInfer :: "(nat \<Rightarrow> string \<Rightarrow> string \<Rightarrow> goval \<Rightarrow> select_case) \<Rightarrow> (nat \<Rightarrow> gerr option) \<Rightarrow> recv list \<Rightarrow>
    infer_response list \<times> gerr option outcome" where
  "StreamInfer submit send evs = stream_loop submit send 0 evs"

section \<open>Properties\<close>

lemma stream_loop_requests:
  assumes "\<And>n. send n = None"
  shows "\<forall>i < length reqs. answer_request (submit (n + i)) (reqs ! i) = Done (resps ! i) \<Longrightarrow> length resps = length reqs \<Longrightarrow>
    stream_loop submit send n (map Req reqs @ Eof # evs) = (resps, Done None)"
proof (induction reqs arbitrary: n resps)
  case (Cons req reqs)
  then obtain resp rs where r: "resps = resp # rs" "length rs = length reqs" by (cases resps) auto
  have "answer_request (submit n) req = Done resp" using Cons.prems(1) r by force
  moreover have "stream_loop submit send (Suc n) (map Req reqs @ Eof # evs) = (rs, Done None)"
  proof (rule Cons.IH)
    show "\<forall>i < length reqs. answer_request (submit (Suc n + i)) (reqs ! i) = Done (rs ! i)"
      using Cons.prems(1) r by (auto dest: spec[of _ "Suc i" for i])
  qed (use r in simp)
  moreover have "send n = None" using assms .
  ultimately show ?case using r by simp
qed simp



end
