(* ===== verification/Verifier.thy ===== *)
theory Verifier
  imports Model_Manager
begin

text \<open>
  The checksum and RSA-PSS verifier (\<open>src/internal/security/verifier.go\<close>). Files, PEM and key parsing are those of the
  model manager; base64 decoding and RSA-PSS verification are parameters.
\<close>

section \<open>The verifier\<close>

record rsa_env =
  b64_decode :: "string \<Rightarrow> bytes res"
  rsa_verify_pss :: "bytes \<Rightarrow> bytes \<Rightarrow> bytes \<Rightarrow> gerr option"

record model_verifier =
  enabled :: bool
  publicKey :: "bytes option"

definition NewModelVerifier :: "os_env \<Rightarrow> crypto \<Rightarrow> bool \<Rightarrow> string \<Rightarrow> model_verifier res" where
  "NewModelVerifier env cr en publicKeyPemPath =
     (if \<not> en then Inr \<lparr>enabled = False, publicKey = None\<rparr>
      else case fs_read env publicKeyPemPath of
        Inl e \<Rightarrow> Inl (Errorw ''failed to read public key PEM file: %w'' [] e)
      | Inr pemData \<Rightarrow> (case pem_decode cr pemData of
          None \<Rightarrow> Inl (ErrNew ''failed to decode PEM block from public key file'')
        | Some block \<Rightarrow> (case parse_pkix cr block of
            Inl e \<Rightarrow> Inl (Errorw ''failed to parse public key: %w'' [] e)
          | Inr (RsaKey k) \<Rightarrow> Inr \<lparr>enabled = True, publicKey = Some k\<rparr>
          | Inr _ \<Rightarrow> Inl (ErrNew ''public key is not an RSA key''))))"

definition IsEnabled :: "model_verifier \<Rightarrow> bool" where
  "IsEnabled v = enabled v"

definition VerifyChecksum :: "os_env \<Rightarrow> crypto \<Rightarrow> model_verifier \<Rightarrow> string \<Rightarrow> string \<Rightarrow> gerr option" where
  "VerifyChecksum env cr v filePath expectedSHA256 =
     (if \<not> enabled v then None
      else case fs_open env filePath of
        Inl e \<Rightarrow> Some (Errorw ''failed to open file for checksum verification: %w'' [] e)
      | Inr _ \<Rightarrow> (case fs_read env filePath of
          Inl e \<Rightarrow> Some (Errorw ''failed to read file for checksum verification: %w'' [] e)
        | Inr f \<Rightarrow> (let actual = hex_encode (sha256_sum cr f) in
            if actual \<noteq> expectedSHA256
            then Some (Errorf ''checksum mismatch: expected %s, got %s'' [GString expectedSHA256, GString actual])
            else None)))"

definition VerifySignature :: "os_env \<Rightarrow> crypto \<Rightarrow> rsa_env \<Rightarrow> model_verifier \<Rightarrow> string \<Rightarrow> string \<Rightarrow> gerr option" where
  "VerifySignature env cr rsa v filePath signatureBase64 =
     (if \<not> enabled v then None
      else case publicKey v of
        None \<Rightarrow> Some (ErrNew ''no public key loaded for signature verification'')
      | Some k \<Rightarrow> (case fs_open env filePath of
          Inl e \<Rightarrow> Some (Errorw ''failed to open file for signature verification: %w'' [] e)
        | Inr _ \<Rightarrow> (case fs_read env filePath of
            Inl e \<Rightarrow> Some (Errorw ''failed to read file for signature verification: %w'' [] e)
          | Inr f \<Rightarrow> (case b64_decode rsa signatureBase64 of
              Inl e \<Rightarrow> Some (Errorw ''failed to decode base64 signature: %w'' [] e)
            | Inr sig \<Rightarrow> (case rsa_verify_pss rsa k (sha256_sum cr f) sig of
                Some e \<Rightarrow> Some (Errorw ''signature verification failed: %w'' [] e)
              | None \<Rightarrow> None)))))"

section \<open>Properties\<close>

text \<open>An enabled verifier accepts a checksum exactly when it is the SHA-256 of the file in lower-case
  hexadecimal, so it accepts for at most one digest, and a disabled one accepts everything; a verifier
  made from a key file is enabled exactly with the RSA key of that file.\<close>

theorem verifier_checksum_iff:
  "(VerifyChecksum env cr v p s = None \<longleftrightarrow>
     (if IsEnabled v then \<exists>f. fs_open env p = Inr () \<and> fs_read env p = Inr f \<and> s = hex_encode (sha256_sum cr f) else True)) \<and>
   (NewModelVerifier env cr True q = Inr v \<longleftrightarrow>
     (\<exists>pem block k. fs_read env q = Inr pem \<and> pem_decode cr pem = Some block \<and> parse_pkix cr block = Inr (RsaKey k) \<and>
        v = \<lparr>enabled = True, publicKey = Some k\<rparr>))"
  by (auto simp: VerifyChecksum_def NewModelVerifier_def IsEnabled_def Let_def
      split: sum.splits option.splits pubkey.splits if_splits)

text \<open>No key file serves both signature checks: a key from which the verifier can be made is an RSA key,
  and the model manager's check, which wants an ECDSA key, rejects every file under it.\<close>

theorem no_key_for_both_checks:
  assumes "NewModelVerifier env cr True pem = Inr v"
  shows "verifySignature env cr f sig pem \<noteq> None"
  using assms by (auto simp: NewModelVerifier_def verifySignature_def split: sum.splits option.splits pubkey.splits)

lemma no_key_for_both_checks_witness:
  "verifySignature (sample_env ''k'' [1]) (sample_crypto\<lparr>parse_pkix := \<lambda>b. Inr (RsaKey b)\<rparr>) ''k'' ''k'' ''k'' \<noteq> None"
  using no_key_for_both_checks[of "sample_env ''k'' [1]" "sample_crypto\<lparr>parse_pkix := \<lambda>b. Inr (RsaKey b)\<rparr>" "''k''" "\<lparr>enabled = True, publicKey = Some [1]\<rparr>"]
  by (simp add: NewModelVerifier_def sample_defs)

end
