(* ===== verification/App_Server.thy ===== *)
theory App_Server
  imports Router Grpc_Server ONNX_Engine Worker_Steps
begin

text \<open>
  The wiring of the server (\<open>src/internal/app/server.go\<close>, \<open>src/cmd/main.go\<close>): the placeholder model manager, the
  order of start-up, the route that triggers a reload, the loop that waits for reloads, signals and
  server errors, and the entry point. Tracing and loggers are only the errors of their constructors.
\<close>

section \<open>The placeholder model manager\<close>

definition dm_ListModels :: "string list" where
  "dm_ListModels = [''model1'', ''model2'']"

definition dm_GetModelInfo :: "string \<Rightarrow> string \<Rightarrow> goval res" where
  "dm_GetModelInfo mid version =
     Inr (GMap [(''model_id'', GString mid), (''version'', GString version), (''status'', GString ''loaded'')])"

definition dm_LoadModel :: "string \<Rightarrow> string \<Rightarrow> string \<Rightarrow> gerr option" where
  "dm_LoadModel mid version p = None"

definition dm_UnloadModel :: "string \<Rightarrow> string \<Rightarrow> gerr option" where
  "dm_UnloadModel mid version = None"

definition dm_ListRemoteModels :: "string list res" where
  "dm_ListRemoteModels = Inr [''remote_model1'', ''remote_model2'']"

definition dm_CleanupModelCache :: "gerr option" where
  "dm_CleanupModelCache = None"

definition dm_DeleteRemoteModel :: "string \<Rightarrow> string \<Rightarrow> gerr option" where
  "dm_DeleteRemoteModel mid version = None"

definition dm_UploadRemoteModel :: "string \<Rightarrow> string \<Rightarrow> string \<Rightarrow> gerr option" where
  "dm_UploadRemoteModel mid version p = None"

section \<open>Start-up\<close>

text \<open>How the HTTP server listens: in the clear, or with TLS and perhaps the CA of the clients.\<close>

datatype listen_mode = Plain | TLS12 string string "bytes option"

text \<open>What start-up has set in motion, in order.\<close>

datatype activity = WorkersStarted nat | Recovered | HTTPListening string listen_mode | GRPCListening string

record server =
  HTTPAddr :: string
  HTTPMode :: listen_mode
  GRPCAddr :: string
  Workers :: nat
  Pipe :: pipeline
  Routes :: "route list"
  Cfg :: config

text \<open>
  What start-up asks of its surroundings: two environment variables, the tracer, the two calls of the
  logger's constructor, the engine, the files, and whether the gRPC address can be listened on.
\<close>

record startup_env =
  queue_path_var :: string
  grpc_addr_var :: string
  tracer_init :: "unit res"
  logger_first :: "unit res"
  logger_second :: "unit res"
  engine_new :: "onnx_engine res"
  read_file :: "string \<Rightarrow> bytes res"
  listen_tcp :: "string \<Rightarrow> unit res"

definition or_default :: "string \<Rightarrow> string \<Rightarrow> string" where
  "or_default d s = (if s = [] then d else s)"

text \<open>\<open>SetupRoutes\<close> and the reload route that start-up adds to the engine itself.\<close>

definition server_routes :: "config \<Rightarrow> route list" where
  "server_routes cfg = SetupRoutes (jwt_Enabled (JWT cfg)) @ [handle ''POST'' ''/reload'' ''reloadCh'' \<lparr>prefix = [], mws = [MApiKey]\<rparr>]"

text \<open>The listening mode of the configuration; the certificates of an unparsable CA file are just not added.\<close>

definition listen_with :: "startup_env \<Rightarrow> config \<Rightarrow> listen_mode res" where
  "listen_with env cfg = (if \<not> tls_Enabled (TLS cfg) then Inr Plain
     else if RequireClientCert (TLS cfg) then (case read_file env (ClientCA (TLS cfg)) of
         Inl e \<Rightarrow> Inl (Errorw ''Failed to read client CA cert: %w'' [] e)
       | Inr ca \<Rightarrow> Inr (TLS12 (CertFile (TLS cfg)) (KeyFile (TLS cfg)) (Some ca)))
     else Inr (TLS12 (CertFile (TLS cfg)) (KeyFile (TLS cfg)) None))"

text \<open>From the worker pool on; \<open>None\<close> as the result means that start-up does not return.\<close>

definition start_services :: "'db badger \<Rightarrow> (fp \<Rightarrow> fp) \<Rightarrow> startup_env \<Rightarrow> config \<Rightarrow> pipeline \<Rightarrow> 'db pqueue \<Rightarrow>
    activity list \<times> (server \<times> 'db pqueue) res option" where
  "start_services ops dec32 env cfg pl queue =
     (let grpcAddr = or_default '':50051'' (grpc_addr_var env);
          ws = [WorkersStarted (nat (WorkerPoolSize cfg))] in
      case RecoverFromPersistentQueue ops dec32 queue of
        None \<Rightarrow> (ws, None)
      | Some q \<Rightarrow> (case logger_second env of
          Inl e \<Rightarrow> (ws @ [Recovered], Some (Inl (Errorw ''failed to create logger: %w'' [] e)))
        | Inr _ \<Rightarrow> (case listen_with env cfg of
            Inl e \<Rightarrow> (ws @ [Recovered], Some (Inl e))
          | Inr mode \<Rightarrow> (let http = ws @ [Recovered, HTTPListening ('':'' @ ServerPort cfg) mode] in
              case listen_tcp env grpcAddr of
                Inl e \<Rightarrow> (http, Some (Inl (Errorw ''Failed to listen for gRPC: %w'' [] e)))
              | Inr _ \<Rightarrow> (http @ [GRPCListening grpcAddr],
                  Some (Inr (\<lparr>HTTPAddr = '':'' @ ServerPort cfg, HTTPMode = mode, GRPCAddr = grpcAddr,
                    Workers = nat (WorkerPoolSize cfg), Pipe = pl, Routes = server_routes cfg, Cfg = cfg\<rparr>, q)))))))"

definition NewServerWithConfig :: "'db badger \<Rightarrow> (fp \<Rightarrow> fp) \<Rightarrow> startup_env \<Rightarrow> config \<Rightarrow>
    activity list \<times> (server \<times> 'db pqueue) res option" where
  "NewServerWithConfig ops dec32 env cfg =
     (let queuePath = or_default ''./data/queue'' (queue_path_var env) in
      case tracer_init env of
        Inl e \<Rightarrow> ([], Some (Inl (Errorw ''Failed to initialize OpenTelemetry tracer: %w'' [] e)))
      | Inr _ \<Rightarrow> (case NewPipelineFromConfig (PipelineCfg cfg) of
          Inl e \<Rightarrow> ([], Some (Inl (Errorw ''Failed to initialize processing pipeline: %w'' [] e)))
        | Inr pl \<Rightarrow> (case logger_first env of
            Inl e \<Rightarrow> ([], Some (Inl (Errorw ''failed to create logger: %w'' [] e)))
          | Inr _ \<Rightarrow> (case engine_new env of
              Inl e \<Rightarrow> ([], Some (Inl (Errorw ''Failed to initialize ONNX Runtime: %w'' [] e)))
            | Inr engine \<Rightarrow> (case NewPersistentQueue ops queuePath of
                Inl e \<Rightarrow> ([], Some (Inl (Errorw ''Failed to initialize persistent queue: %w'' [] e)))
              | Inr queue \<Rightarrow> start_services ops dec32 env cfg pl queue)))))"

definition NewServer :: "'db badger \<Rightarrow> (fp \<Rightarrow> fp) \<Rightarrow> startup_env \<Rightarrow> (string \<rightharpoonup> goval) \<Rightarrow>
    activity list \<times> (server \<times> 'db pqueue) res option" where
  "NewServer ops dec32 env v = NewServerWithConfig ops dec32 env (Load v)"

section \<open>Reloads, signals, errors\<close>

text \<open>The route \<open>/reload\<close>: a channel of capacity one, \<open>pending\<close> says whether it is full.\<close>

definition reload_route :: "bool \<Rightarrow> http_resp \<times> bool" where
  "reload_route pending = (if pending then (err_reply 429 ''reload already in progress'', pending)
     else (ok_reply [(''status'', GString ''reload_triggered'')], True))"

text \<open>
  What the loop of \<open>Start\<close> receives: an error of a server, a signal (\<open>again\<close> when a second one is already waiting), or
  a reload, with the settings that viper finds then.
\<close>

datatype loop_event = ServerError gerr | Signal bool | Reload "string \<rightharpoonup> goval"

text \<open>How the loop ends: the process exits, it returns after the shutdown, or it is stuck.\<close>

datatype loop_end = Fatal gerr | Stopped | Stuck

text \<open>
  \<open>http_shutdown\<close> is the error of the HTTP server's \<open>Shutdown\<close>: the loop then sends to its own signal
  channel of capacity one before it goes on, which waits forever when that channel is full.
\<close>

fun Start :: "gerr option \<Rightarrow> loop_event list \<Rightarrow> pipeline \<Rightarrow> pipeline \<times> loop_end option" where
  "Start http_shutdown [] pl = (pl, None)"
| "Start http_shutdown (ServerError e # evs) pl = (pl, Some (Fatal e))"
| "Start http_shutdown (Signal again # evs) pl =
     (pl, Some (if http_shutdown \<noteq> None \<and> again then Stuck else Stopped))"
| "Start http_shutdown (Reload v # evs) pl = (case NewPipelineFromConfig (PipelineCfg (Load v)) of
       Inl e \<Rightarrow> Start http_shutdown evs pl
     | Inr pl' \<Rightarrow> Start http_shutdown evs pl')"

section \<open>The entry point\<close>

text \<open>
  \<open>logging.Fatal\<close> ends the process itself. Deferred calls run in reverse order; neither they nor the exit
  status are reached when the loop ends the process or is stuck.
\<close>

datatype run_end = Exit int | Waiting | Finished "string list"

definition main_Run :: "(server \<times> 'db pqueue) res option \<Rightarrow> gerr option \<Rightarrow> loop_event list \<Rightarrow> run_end" where
  "main_Run started http_shutdown evs = (case started of
       None \<Rightarrow> Waiting
     | Some (Inl e) \<Rightarrow> Exit 1
     | Some (Inr (srv, q)) \<Rightarrow> (case snd (Start http_shutdown evs (Pipe srv)) of
         None \<Rightarrow> Waiting
       | Some Stuck \<Rightarrow> Waiting
       | Some (Fatal e) \<Rightarrow> Exit 1
       | Some Stopped \<Rightarrow> Finished [''Tracer.Shutdown'', ''engine.Close'', ''queue.Close'', ''lis.Close'']))"

section \<open>The order of start-up\<close>

lemma start_services_result:
  "start_services ops dec32 env cfg pl queue = (acts, r) \<Longrightarrow>
     (r = None \<longleftrightarrow> RecoverFromPersistentQueue ops dec32 queue = None) \<and>
     (r = None \<longrightarrow> acts = [WorkersStarted (nat (WorkerPoolSize cfg))])"
  by (auto simp: start_services_def Let_def split: option.splits sum.splits)

text \<open>C19: Start-up goes through workers, recovery, HTTP and gRPC in this order and stops at the first
  failure: it gives a server exactly when gRPC is listened on, and then HTTP is listened on with
  what the configuration says. When only gRPC fails, the error is returned with HTTP already
  listening.\<close>

theorem startup_order:
  assumes "NewServerWithConfig ops dec32 env cfg = (acts, r)"
  shows "(\<exists>mode. acts = take (length acts) [WorkersStarted (nat (WorkerPoolSize cfg)), Recovered,
       HTTPListening ('':'' @ ServerPort cfg) mode, GRPCListening (or_default '':50051'' (grpc_addr_var env))]) \<and>
     ((\<exists>srv q. r = Some (Inr (srv, q))) \<longleftrightarrow> (\<exists>a. GRPCListening a \<in> set acts)) \<and>
     (\<forall>srv q. r = Some (Inr (srv, q)) \<longrightarrow> NewPipelineFromConfig (PipelineCfg cfg) = Inr (Pipe srv) \<and>
        HTTPListening (HTTPAddr srv) (HTTPMode srv) \<in> set acts \<and> listen_with env cfg = Inr (HTTPMode srv)) \<and>
     ((\<exists>a m. HTTPListening a m \<in> set acts) \<longrightarrow> r \<noteq> None \<and>
        (\<forall>e. r = Some (Inl e) \<longrightarrow> (\<exists>e'. listen_tcp env (or_default '':50051'' (grpc_addr_var env)) = Inl e' \<and>
            e = Errorw ''Failed to listen for gRPC: %w'' [] e')))"
  using assms unfolding NewServerWithConfig_def start_services_def Let_def
  by (auto split: option.splits sum.splits)

text \<open>Surroundings in which every step succeeds.\<close>

definition good_env :: startup_env where
  "good_env = \<lparr>queue_path_var = [], grpc_addr_var = [], tracer_init = Inr (), logger_first = Inr (), logger_second = Inr (),
     engine_new = Inr new_onnx, read_file = (\<lambda>_. Inl (ErrExt ''no such file'')), listen_tcp = (\<lambda>_. Inr ())\<rparr>"

lemma startup_order_witness:
  "\<exists>acts srv q. NewServerWithConfig mem_badger id good_env default_config = (acts, Some (Inr (srv, q))) \<and>
     (\<exists>a. GRPCListening a \<in> set acts) \<and> HTTPListening '':8080'' Plain \<in> set acts"
proof -
  have rec: "RecoverFromPersistentQueue mem_badger id \<lparr>db = [], seq = 0\<rparr> = Some \<lparr>db = [], seq = 0\<rparr>"
    using recover_iff_empty[OF mem_store, of "\<lparr>db = [], seq = 0\<rparr>" "[]" id] by (simp add: mem_badger_def)
  let ?s = "NewServerWithConfig mem_badger id good_env default_config"
  have c: "PipelineCfg default_config = []" "\<not> tls_Enabled (TLS default_config)" "ServerPort default_config = ''8080''"
    by (simp_all add: default_config_def Load_def setting_defs)
  have "\<exists>srv q. snd ?s = Some (Inr (srv, q))"
    unfolding NewServerWithConfig_def start_services_def good_env_def listen_with_def Let_def
    by (simp add: c NewPersistentQueue_def NewPipelineFromConfig_def mem_badger_def rec[unfolded mem_badger_def])
  then obtain acts srv q where s: "?s = (acts, Some (Inr (srv, q)))" by (cases ?s) auto
  have "listen_with good_env default_config = Inr Plain" by (simp add: listen_with_def c)
  moreover note startup_order[OF s]
  ultimately have "\<exists>a. GRPCListening a \<in> set acts" "HTTPListening (HTTPAddr srv) Plain \<in> set acts" by auto
  moreover have "HTTPAddr srv = '':8080''"
    using s unfolding NewServerWithConfig_def start_services_def Let_def
    by (auto simp: c split: option.splits sum.splits)
  ultimately show ?thesis using s by auto
qed

text \<open>C10: A server that has accepted one request cannot be started again on its queue: with whatever
  configuration and surroundings, a start-up that finds the store as \<open>Submit\<close> left it listens on
  neither port; it fails early or, when nothing fails, never returns from the recovery.\<close>

theorem restart_never_serves:
  assumes "badger_store ops ok" "ok (db q)" "\<forall>(k, j) \<in> set (items ops q). item_good dec32 j"
    and "marshal input = Inr ji" "json_good dec32 ji"
    and "bopen ops (or_default ''./data/queue'' (queue_path_var env)) = Inr (db (submit_persist ops mid input q))"
    and "NewServerWithConfig ops dec32 env cfg = (acts, r)"
  shows "(\<forall>a m. HTTPListening a m \<notin> set acts) \<and> (\<forall>a. GRPCListening a \<notin> set acts) \<and> (\<forall>s. r \<noteq> Some (Inr s)) \<and>
    (tracer_init env = Inr () \<and> logger_first env = Inr () \<and> (\<exists>e. engine_new env = Inr e) \<and>
     (\<exists>p. NewPipelineFromConfig (PipelineCfg cfg) = Inr p) \<longrightarrow> r = None)"
proof -
  have rec: "RecoverFromPersistentQueue ops dec32 \<lparr>db = db (submit_persist ops mid input q), seq = 0\<rparr> = None"
    by (rule recover_after_submit[OF assms(1-5)])
  have q: "NewPersistentQueue ops (or_default ''./data/queue'' (queue_path_var env)) =
      Inr \<lparr>db = db (submit_persist ops mid input q), seq = 0\<rparr>"
    using assms(6) by (simp add: NewPersistentQueue_def)
  show ?thesis
    using assms(7) unfolding NewServerWithConfig_def start_services_def Let_def q sum.case rec
    by (auto split: sum.splits)
qed

lemma restart_never_serves_witness:
  "\<exists>acts. NewServerWithConfig (mem_badger\<lparr>bopen := (\<lambda>_. Inr (db (submit_persist mem_badger ''a'' (GF32s [FFin 1]) \<lparr>db = [], seq = 0\<rparr>)))\<rparr>)
     id good_env default_config = (acts, None) \<and> (\<forall>a m. HTTPListening a m \<notin> set acts)"
proof -
  let ?ops = "mem_badger\<lparr>bopen := (\<lambda>_. Inr (db (submit_persist mem_badger ''a'' (GF32s [FFin 1]) \<lparr>db = [], seq = 0\<rparr>)))\<rparr>"
  let ?s = "NewServerWithConfig ?ops id good_env default_config"
  have st: "badger_store ?ops (\<lambda>m. ascending (map fst m))"
    using mem_store unfolding badger_store_def by simp
  have sp: "submit_persist ?ops = submit_persist mem_badger"
    by (simp add: submit_persist_def Enqueue_def fun_eq_iff cong: sum.case_cong)
  obtain acts r where s: "?s = (acts, r)" by fastforce
  have it: "\<forall>(k, j) \<in> set (items ?ops \<lparr>db = [], seq = 0\<rparr>). item_good id j" by (simp add: items_def mem_badger_def)
  have m: "marshal (GF32s [FFin 1]) = Inr (JArr [JF32 (FFin 1)])" "json_good id (JArr [JF32 (FFin 1)])"
    by (simp_all add: jarr_def jfloat_def)
  have o: "bopen ?ops (or_default ''./data/queue'' (queue_path_var good_env)) =
      Inr (db (submit_persist ?ops ''a'' (GF32s [FFin 1]) \<lparr>db = [], seq = 0\<rparr>))" by (simp add: sp)
  have c: "tracer_init good_env = Inr ()" "logger_first good_env = Inr ()" "\<exists>e. engine_new good_env = Inr e"
    "\<exists>p. NewPipelineFromConfig (PipelineCfg default_config) = Inr p"
    by (simp_all add: good_env_def default_config_def Load_def setting_defs NewPipelineFromConfig_def)
  have "ascending (map fst (db \<lparr>db = [] :: (bytes \<times> json) list, seq = 0\<rparr>))" by simp
  from restart_never_serves[OF st this it m o s] c s show ?thesis by blast
qed

section \<open>Reloads\<close>

text \<open>Clients post to the route, the loop takes what is pending and builds the pipeline of its settings.\<close>

datatype reload_op = Post | Take "string \<rightharpoonup> goval"

record reload_state =
  rl_pending :: bool
  rl_pipeline :: pipeline
  rl_accepted :: nat
  rl_taken :: nat

definition reload_step :: "reload_op \<Rightarrow> reload_state \<Rightarrow> reload_state" where
  "reload_step op s = (case op of
       Post \<Rightarrow> (case reload_route (rl_pending s) of (resp, p) \<Rightarrow>
          s\<lparr>rl_pending := p, rl_accepted := rl_accepted s + (if status resp = 200 then 1 else 0)\<rparr>)
     | Take v \<Rightarrow> if rl_pending s
         then s\<lparr>rl_pending := False, rl_taken := Suc (rl_taken s), rl_pipeline := fst (Start None [Reload v] (rl_pipeline s))\<rparr>
         else s)"

definition valid_reload :: "(string \<rightharpoonup> goval) \<Rightarrow> pipeline \<Rightarrow> bool" where
  "valid_reload v p \<longleftrightarrow> NewPipelineFromConfig (PipelineCfg (Load v)) = Inr p"

text \<open>\<open>p'\<close> is the pipeline of the last valid reload, or \<open>p\<close> when no reload is valid.\<close>

definition last_valid :: "(string \<rightharpoonup> goval) list \<Rightarrow> pipeline \<Rightarrow> pipeline \<Rightarrow> bool" where
  "last_valid vs p p' \<longleftrightarrow> p' = p \<and> (\<forall>v \<in> set vs. \<forall>p1. \<not> valid_reload v p1) \<or>
     (\<exists>as v bs. vs = as @ v # bs \<and> valid_reload v p' \<and> (\<forall>b \<in> set bs. \<forall>p1. \<not> valid_reload b p1))"

lemma last_valid_skip: "last_valid vs p p' \<Longrightarrow> \<forall>p1. \<not> valid_reload v p1 \<Longrightarrow> last_valid (v # vs) p p'"
  unfolding last_valid_def by (metis append_Cons set_ConsD)

lemma last_valid_take: "last_valid vs p1 p' \<Longrightarrow> valid_reload v p1 \<Longrightarrow> last_valid (v # vs) p p'"
  unfolding last_valid_def by (metis append_Cons append_Nil)

lemma Start_reloads: "snd (Start sd (map Reload vs) p) = None \<and> last_valid vs p (fst (Start sd (map Reload vs) p))"
proof (induction vs arbitrary: p)
  case (Cons v vs)
  show ?case
  proof (cases "NewPipelineFromConfig (PipelineCfg (Load v))")
    case (Inl e)
    then show ?thesis using Cons.IH[of p] by (auto simp: valid_reload_def intro: last_valid_skip)
  next
    case (Inr p1)
    then show ?thesis using Cons.IH[of p1] by (auto simp: valid_reload_def intro: last_valid_take)
  qed
qed (simp add: last_valid_def)

definition accounted :: "reload_state \<Rightarrow> bool" where
  "accounted s \<longleftrightarrow> rl_accepted s = rl_taken s + (if rl_pending s then 1 else 0)"

lemma accounted_step [inv_intros]: "accounted s \<Longrightarrow> accounted (reload_step a s)"
  by (cases a) (auto simp: accounted_def reload_step_def reload_route_def ok_reply_def err_reply_def)

lemma accounted_fold: "accounted s \<Longrightarrow> accounted (fold reload_step os s)"
  by (induction os arbitrary: s) (auto intro: accounted_step)


end
