(* ===== verification/Ctl.thy ===== *)
theory Ctl
  imports Router
begin

text \<open>
  The command-line client (\<open>src/cmd/goedgeinferctl/main.go\<close>): flags, the requests of its commands, tokens and batch
  inference. The HTTP client, the token library, the decoder of the input file and the clock are
  the record \<open>cli_env\<close>. \<open>exitFunc\<close> is \<open>os.Exit\<close>, so nothing after it runs.
\<close>

section \<open>Surroundings and output\<close>

text \<open>
  \<open>do_http\<close> gets method, URL, headers and body, and gives status and body of the response; \<open>read_stream\<close> gives the
  values of a file of JSON values up to and including the first that is not one.
\<close>

record cli_env =
  do_http :: "string \<Rightarrow> string \<Rightarrow> (string \<times> string) list \<Rightarrow> json option \<Rightarrow> (int \<times> string) res"
  read_stream :: "string \<Rightarrow> json res list res"
  parse_response :: "string \<Rightarrow> json option"
  sign_hs256 :: "string \<Rightarrow> (string \<times> goval) list \<Rightarrow> string res"
  check_token :: "string \<Rightarrow> string \<Rightarrow> gerr option"
  now_ns :: int
  error_text :: "gerr \<Rightarrow> string"
  env_server :: string
  env_apikey :: string

datatype cli_out = Line string | ErrLine string gerr | JsonOut goval | Row nat goval

type_synonym cli_result = "cli_out list \<times> int"

section \<open>Requests\<close>

definition doRequest :: "cli_env \<Rightarrow> string \<Rightarrow> string \<Rightarrow> string \<Rightarrow> string \<Rightarrow> json option \<Rightarrow> string res" where
  "doRequest env serverURL apiKey meth p b =
     (case do_http env meth (serverURL @ p)
         ([(''X-API-Key'', apiKey)] @ (if b = None then [] else [(''Content-Type'', ''application/json'')])) b of
        Inl e \<Rightarrow> Inl e
      | Inr (st, resp) \<Rightarrow> if 400 \<le> st then Inl (Errorf ''%s'' [GString resp]) else Inr resp)"

text \<open>
  The request of a command, from its arguments: \<open>None\<close> for a command that is not one request, a usage
  line when arguments are missing. \<open>args ! 0\<close> is the command.
\<close>

definition command_request :: "string list \<Rightarrow> (string + string \<times> string \<times> json option) option" where
  "command_request args =
     (let cmd = args ! 0; n = length args in
      if cmd = ''list-models'' then Some (Inr (''GET'', ''/api/v1/models'', None))
      else if cmd = ''load-model'' then Some (if n < 3 then Inl ''Usage: load-model <model_id> <model_path> [version]''
        else Inr (''POST'', ''/api/v1/models'', Some (JObj ([(''model_id'', JStr (args ! 1)), (''model_path'', JStr (args ! 2))] @
          (if 3 < n then [(''version'', JStr (args ! 3))] else [])))))
      else if cmd = ''unload-model'' then Some (if n < 2 then Inl ''Usage: unload-model <model_id>''
        else Inr (''DELETE'', ''/api/v1/models/'' @ (args ! 1), None))
      else if cmd = ''reload'' then Some (Inr (''POST'', ''/api/v1/mgmt/system/reload'', None))
      else if cmd = ''list-remote'' then Some (Inr (''GET'', ''/api/v1/mgmt/remote/models'', None))
      else if cmd = ''upload-remote'' then Some (if n < 3 then Inl ''Usage: upload-remote <local_path> <object_key>''
        else Inr (''POST'', ''/api/v1/mgmt/remote/upload'', Some (JObj [(''local_path'', JStr (args ! 1)), (''object_key'', JStr (args ! 2))])))
      else if cmd = ''delete-remote'' then Some (if n < 2 then Inl ''Usage: delete-remote <object_key>''
        else Inr (''POST'', ''/api/v1/mgmt/remote/delete'', Some (JObj [(''object_key'', JStr (args ! 1))])))
      else if cmd = ''cleanup-cache'' then Some (if n < 3 then Inl ''Usage: cleanup-cache <cache_dir> <keep1> [keep2 ...]''
        else Inr (''POST'', ''/api/v1/mgmt/remote/cleanup'',
          Some (JObj [(''cache_dir'', JStr (args ! 1)), (''keep'', JArr (map JStr (drop 2 args)))])))
      else None)"

section \<open>Tokens\<close>

text \<open>\<open>time.Duration(expireMinutes) * time.Minute\<close> wraps at 64 bits; \<open>Unix\<close> rounds down to seconds.\<close>

definition jwt_exp :: "int \<Rightarrow> int \<Rightarrow> int" where
  "jwt_exp now expireMinutes = (now + sint (word_of_int expireMinutes * 60000000000 :: 64 word)) div 1000000000"

definition jwt_claims_of :: "int \<Rightarrow> string \<Rightarrow> string \<Rightarrow> string \<Rightarrow> string \<Rightarrow> int \<Rightarrow> (string \<times> goval) list" where
  "jwt_claims_of now issuer audience role scope expireMinutes =
     [(''iss'', GString issuer), (''aud'', GString audience), (''role'', GString role), (''scope'', GString scope),
      (''exp'', GInt64 (word_of_int (jwt_exp now expireMinutes)))]"

definition generateJWT :: "cli_env \<Rightarrow> string \<Rightarrow> string \<Rightarrow> string \<Rightarrow> string \<Rightarrow> string \<Rightarrow> string \<Rightarrow> int \<Rightarrow> string res" where
  "generateJWT env secret algorithm issuer audience role scope expireMinutes =
     (if algorithm = ''HS256'' then sign_hs256 env secret (jwt_claims_of (now_ns env) issuer audience role scope expireMinutes)
      else Inl (Errorf ''unsupported algorithm: %s'' [GString algorithm]))"

text \<open>A key function that fails makes the parse fail with its error.\<close>

definition validateJWT :: "cli_env \<Rightarrow> string \<Rightarrow> string \<Rightarrow> string \<Rightarrow> gerr option" where
  "validateJWT env tokenStr secret algorithm =
     (if algorithm = ''HS256'' then check_token env secret tokenStr
      else Some (Errorw ''token is unverifiable: error while executing keyfunc: %w'' []
        (Errorf ''unsupported algorithm: %s'' [GString algorithm])))"

text \<open>\<open>fmt.Sscanf(s, "%d", &expire)\<close> with \<open>expire\<close> zero before: spaces, a sign, decimal digits.\<close>

definition is_digit :: "char \<Rightarrow> bool" where
  "is_digit c \<longleftrightarrow> of_char c - (48::int) \<in> {0..9}"

definition digits_val :: "string \<Rightarrow> int" where
  "digits_val s = foldl (\<lambda>n c. n * 10 + (of_char c - 48)) 0 s"

definition scan_minutes :: "string \<Rightarrow> int" where
  "scan_minutes s =
     (let t = dropWhile (\<lambda>c. of_char c \<in> {32, 9, 11, 12, 13 :: int}) s;
          neg = (t \<noteq> [] \<and> hd t = CHR ''-'');
          u = (if t \<noteq> [] \<and> hd t \<in> {CHR ''-'', CHR ''+''} then tl t else t);
          ds = takeWhile is_digit u;
          n = (if neg then - digits_val ds else digits_val ds) in
      if ds = [] then 0 else if - (2 ^ 63) \<le> n \<and> n < 2 ^ 63 then n else 0)"

section \<open>Batch inference\<close>

text \<open>One input: the request, and the entry of the results; a response that is not a JSON object leaves \<open>nil\<close>.\<close>

definition infer_body :: "string \<Rightarrow> string \<Rightarrow> json \<Rightarrow> json" where
  "infer_body mid version input = JObj ([(''model_id'', JStr mid), (''input'', input)] @
     (if version = [] then [] else [(''version'', JStr version)]))"

definition batch_entry :: "cli_env \<Rightarrow> string \<Rightarrow> string \<Rightarrow> string \<Rightarrow> string \<Rightarrow> json \<Rightarrow> (string \<times> goval) list" where
  "batch_entry env serverURL apiKey mid version input =
     (case doRequest env serverURL apiKey ''POST'' (''/api/v1/infer/'' @ mid) (Some (infer_body mid version input)) of
        Inl e \<Rightarrow> [(''error'', GString (error_text env e))]
      | Inr resp \<Rightarrow> (case parse_response env resp of Some (JObj fs) \<Rightarrow> unmarshal_kvs id fs | _ \<Rightarrow> []))"

definition is_map_json :: "json \<Rightarrow> bool" where
  "is_map_json j = (case j of JObj fs \<Rightarrow> True | JNull \<Rightarrow> True | _ \<Rightarrow> False)"

text \<open>
  The loop: the inputs that were sent, and the results. An input that does not decode into a map ends the batch with
  its error after the requests before it have been sent.
\<close>

fun batch_stream :: "(json \<Rightarrow> (string \<times> goval) list) \<Rightarrow> json res list \<Rightarrow> json list \<times> (string \<times> goval) list list res" where
  "batch_stream entry [] = ([], Inr [])"
| "batch_stream entry (Inl e # js) = ([], Inl e)"
| "batch_stream entry (Inr j # js) = (if is_map_json j then (case batch_stream entry js of
         (sent, Inl e) \<Rightarrow> (j # sent, Inl e)
       | (sent, Inr rs) \<Rightarrow> (j # sent, Inr (entry j # rs)))
     else ([], Inl (ErrExt ''json: cannot unmarshal into Go value of type map[string]interface {}'')))"

text \<open>How the results are printed; an unknown format prints nothing.\<close>

definition batch_print :: "string \<Rightarrow> (string \<times> goval) list list \<Rightarrow> cli_out list" where
  "batch_print outputFormat results =
     (if outputFormat = ''json'' then [JsonOut (GMaps results)]
      else if outputFormat = ''table'' then map (\<lambda>(i, r). Row (Suc i) (GMap r)) (enumerate 0 results)
      else if outputFormat = ''quiet'' then
        map (\<lambda>r. case kv_get r ''error'' of Some err \<Rightarrow> Row 0 err | None \<Rightarrow> Line ''ok'') results
      else [])"

definition batchInfer :: "cli_env \<Rightarrow> string \<Rightarrow> string \<Rightarrow> string \<Rightarrow> string \<Rightarrow> string \<Rightarrow> string \<Rightarrow>
    json list \<times> cli_out list res" where
  "batchInfer env serverURL apiKey inputFile mid version outputFormat = (case read_stream env inputFile of
       Inl e \<Rightarrow> ([], Inl e)
     | Inr js \<Rightarrow> (case batch_stream (batch_entry env serverURL apiKey mid version) js of
         (sent, Inl e) \<Rightarrow> (sent, Inl e)
       | (sent, Inr results) \<Rightarrow> (sent, Inr (batch_print outputFormat results))))"

section \<open>Flags\<close>

text \<open>
  \<open>FlagSet.Parse\<close> with the two flags: \<open>-name value\<close>, \<open>-name=value\<close>, one or two dashes; it stops at the first argument
  that is not a flag, or after \<open>--\<close>. The result is the server, the key and the rest.
\<close>

definition flag_name :: "string \<Rightarrow> string" where
  "flag_name a = (if has_prefix a ''--'' then drop 2 a else drop 1 a)"

definition set_flag :: "string \<Rightarrow> string \<Rightarrow> string \<times> string \<Rightarrow> string \<times> string" where
  "set_flag n v f = (if n = ''server'' then (v, snd f) else (fst f, v))"

fun parse_flags :: "string \<times> string \<Rightarrow> string list \<Rightarrow> (string \<times> string \<times> string list) res" where
  "parse_flags f [] = Inr (fst f, snd f, [])"
| "parse_flags f (a # rest) =
     (if length a < 2 \<or> hd a \<noteq> CHR ''-'' then Inr (fst f, snd f, a # rest)
      else if a = ''--'' then Inr (fst f, snd f, rest)
      else let body = flag_name a; n = takeWhile (\<lambda>c. c \<noteq> CHR ''='') body in
        if body = [] \<or> hd body \<in> {CHR ''-'', CHR ''=''} then Inl (Errorf ''bad flag syntax: %s'' [GString a])
        else if n \<noteq> ''server'' \<and> n \<noteq> ''apikey'' then
          Inl (if n = ''help'' \<or> n = ''h'' then ErrNew ''flag: help requested''
               else Errorf ''flag provided but not defined: -%s'' [GString n])
        else if CHR ''='' \<in> set body then parse_flags (set_flag n (drop (Suc (length n)) body) f) rest
        else (case rest of
            [] \<Rightarrow> Inl (Errorf ''flag needs an argument: -%s'' [GString n])
          | v # rest' \<Rightarrow> parse_flags (set_flag n v f) rest'))"

section \<open>Commands\<close>

definition finish :: "string res \<Rightarrow> cli_result" where
  "finish r = (case r of Inl e \<Rightarrow> ([ErrLine ''Error:'' e], 1) | Inr resp \<Rightarrow> ([Line resp], 0))"

definition jwt_command :: "cli_env \<Rightarrow> string list \<Rightarrow> cli_result" where
  "jwt_command env args =
     (let n = length args in
      if n < 2 then ([Line ''Usage: jwt <generate|validate> [args...]''], 1)
      else if args ! 1 = ''generate'' then
        (if n < 8 then
           ([Line ''Usage: jwt generate <secret> <algorithm> <issuer> <audience> <role> <scope> <expire_minutes>''], 1)
         else finish (generateJWT env (args ! 2) (args ! 3) (args ! 4) (args ! 5) (args ! 6) (args ! 7)
           (if 8 < n then scan_minutes (args ! 8) else 60)))
      else if args ! 1 = ''validate'' then
        (if n < 5 then ([Line ''Usage: jwt validate <token> <secret> <algorithm>''], 1)
         else (case validateJWT env (args ! 2) (args ! 3) (args ! 4) of
             Some e \<Rightarrow> ([ErrLine ''Invalid token:'' e], 1)
           | None \<Rightarrow> ([Line ''Valid token''], 0)))
      else ([Line ''Unknown jwt subcommand''], 1))"

definition batch_command :: "cli_env \<Rightarrow> string \<Rightarrow> string \<Rightarrow> string list \<Rightarrow> cli_result" where
  "batch_command env serverURL apiKey args =
     (let n = length args in
      if n < 3 then
        ([Line ''Usage: batch-infer <input_jsonl_file> <model_id> [version] [output_format=json|table|quiet]''], 1)
      else (case snd (batchInfer env serverURL apiKey (args ! 1) (args ! 2)
            (if 3 < n then args ! 3 else []) (if 4 < n then args ! 4 else ''json'')) of
          Inl e \<Rightarrow> ([ErrLine ''Error:'' e], 1)
        | Inr out \<Rightarrow> (out, 0)))"

definition run_command :: "cli_env \<Rightarrow> string \<Rightarrow> string \<Rightarrow> string list \<Rightarrow> cli_result" where
  "run_command env serverURL apiKey args = (case command_request args of
       Some (Inl usage) \<Rightarrow> ([Line usage], 1)
     | Some (Inr (meth, p, b)) \<Rightarrow> finish (doRequest env serverURL apiKey meth p b)
     | None \<Rightarrow>
         if args ! 0 = ''jwt'' then jwt_command env args
         else if args ! 0 = ''batch-infer'' then batch_command env serverURL apiKey args
         else ([Line ''Unknown command''], 1))"

text \<open>\<open>args ! 0\<close> is the program; without it the slice expression panics.\<close>

definition runCLI :: "cli_env \<Rightarrow> string list \<Rightarrow> cli_result outcome" where
  "runCLI env args = (case args of
       [] \<Rightarrow> Panic
     | prog # r \<Rightarrow> (case parse_flags (env_server env, env_apikey env) r of
         Inl e \<Rightarrow> Done ([ErrLine [] e], 1)
       | Inr (serverURL, apiKey, rest) \<Rightarrow>
           if serverURL = [] \<or> apiKey = [] \<or> rest = [] then
             Done ([Line ''Usage: goedgeinferctl --server <url> --apikey <key> <command> [args...]''], 1)
           else Done (run_command env serverURL apiKey rest)))"

section \<open>The client and the server\<close>

text \<open>The request that arrives when the client sends headers \<open>hs\<close>.\<close>

definition to_req :: "string \<Rightarrow> (string \<times> string) list \<Rightarrow> json option \<Rightarrow> http_req" where
  "to_req p hs b = \<lparr>path = p, header = (\<lambda>k. case map_of hs k of None \<Rightarrow> [] | Some v \<Rightarrow> v), query = (\<lambda>_. []),
     param = (\<lambda>_. []), body = b, client_ip = []\<rparr>"

definition route_of :: "bool \<Rightarrow> string \<Rightarrow> string \<Rightarrow> route option" where
  "route_of jwt meth p = find (\<lambda>rt. r_method rt = meth \<and> r_path rt = p) (SetupRoutes jwt)"

definition handler_at :: "bool \<Rightarrow> string \<Rightarrow> string \<Rightarrow> string option" where
  "handler_at jwt meth p = map_option r_handler (route_of jwt meth p)"

lemma handlers_at:
  "handler_at b ''POST'' ''/api/v1/models'' = Some ''LoadModel''"
  "handler_at b ''POST'' ''/api/v1/mgmt/remote/upload'' = Some ''UploadRemoteModel''"
  "handler_at b ''POST'' ''/api/v1/mgmt/remote/delete'' = Some ''DeleteRemoteModel''"
  "handler_at b ''POST'' ''/api/v1/mgmt/remote/cleanup'' = Some ''CleanupModelCache''"
  by (cases b; simp only:; code_simp)+

lemma map_res_JStr: "map_res (\<lambda>j. case j of JStr s \<Rightarrow> Inr s | JNull \<Rightarrow> Inr [] | _ \<Rightarrow> Inl bad_json) (map JStr ks) = Inr ks"
  by (induction ks) auto

text \<open>The command word of \<open>command_request\<close>, one equation for each command with a body.\<close>

lemma command_load: "command_request (''load-model'' # i # p # vs) = Some (Inr (''POST'', ''/api/v1/models'',
    Some (JObj ([(''model_id'', JStr i), (''model_path'', JStr p)] @ (if vs = [] then [] else [(''version'', JStr (hd vs))])))))"
  by (cases vs) (simp_all add: command_request_def)

lemma command_upload: "command_request (''upload-remote'' # p # k # r) = Some (Inr (''POST'', ''/api/v1/mgmt/remote/upload'',
    Some (JObj [(''local_path'', JStr p), (''object_key'', JStr k)])))"
  by (simp add: command_request_def)

lemma command_delete: "command_request (''delete-remote'' # k # r) = Some (Inr (''POST'', ''/api/v1/mgmt/remote/delete'',
    Some (JObj [(''object_key'', JStr k)])))"
  by (simp add: command_request_def)

lemma command_cleanup: "command_request (''cleanup-cache'' # d # k # ks) = Some (Inr (''POST'', ''/api/v1/mgmt/remote/cleanup'',
    Some (JObj [(''cache_dir'', JStr d), (''keep'', JArr (map JStr (k # ks)))])))"
  by (simp add: command_request_def)

section \<open>Properties\<close>

text \<open>C28: Client and server agree on the bodies: what the commands that carry data send arrives at the handler
  of that name, and the handler reads back the arguments of the command line.\<close>

theorem ctl_bodies_round_trip:
  assumes "i \<noteq> []" "p \<noteq> []" "k \<noteq> []"
  shows "(\<exists>path b. command_request (''load-model'' # i # p # vs) = Some (Inr (''POST'', path, Some b)) \<and>
       handler_at jwt ''POST'' path = Some ''LoadModel'' \<and> dec_load (Some b) = Inr (i, p, if vs = [] then [] else hd vs)) \<and>
     (\<exists>path b. command_request (''upload-remote'' # p # k # r1) = Some (Inr (''POST'', path, Some b)) \<and>
       handler_at jwt ''POST'' path = Some ''UploadRemoteModel'' \<and>
       UploadRemoteModel_h upload (to_req path hs (Some b)) =
         (case upload p k of Some e \<Rightarrow> err_of 500 [] e | None \<Rightarrow> ok_reply [(''status'', GString ''remote_model_uploaded'')])) \<and>
     (\<exists>path b. command_request (''delete-remote'' # k # r2) = Some (Inr (''POST'', path, Some b)) \<and>
       handler_at jwt ''POST'' path = Some ''DeleteRemoteModel'' \<and>
       DeleteRemoteModel_h delete (to_req path hs (Some b)) =
         (case delete k of Some e \<Rightarrow> err_of 500 [] e | None \<Rightarrow> ok_reply [(''status'', GString ''remote_model_deleted'')])) \<and>
     (\<exists>path b. command_request (''cleanup-cache'' # d # k1 # ks) = Some (Inr (''POST'', path, Some b)) \<and>
       handler_at jwt ''POST'' path = Some ''CleanupModelCache'' \<and> dec_cleanup (Some b) = Inr (d, set (k1 # ks)))"
proof (intro conjI)
  show "\<exists>path b. command_request (''load-model'' # i # p # vs) = Some (Inr (''POST'', path, Some b)) \<and>
       handler_at jwt ''POST'' path = Some ''LoadModel'' \<and> dec_load (Some b) = Inr (i, p, if vs = [] then [] else hd vs)"
    using assms by (simp add: command_load handlers_at dec_load_def required_str_def field_str_def)
  show "\<exists>path b. command_request (''upload-remote'' # p # k # r1) = Some (Inr (''POST'', path, Some b)) \<and>
       handler_at jwt ''POST'' path = Some ''UploadRemoteModel'' \<and>
       UploadRemoteModel_h upload (to_req path hs (Some b)) =
         (case upload p k of Some e \<Rightarrow> err_of 500 [] e | None \<Rightarrow> ok_reply [(''status'', GString ''remote_model_uploaded'')])"
    using assms by (simp add: command_upload handlers_at UploadRemoteModel_h_def to_req_def required_str_def field_str_def)
  show "\<exists>path b. command_request (''delete-remote'' # k # r2) = Some (Inr (''POST'', path, Some b)) \<and>
       handler_at jwt ''POST'' path = Some ''DeleteRemoteModel'' \<and>
       DeleteRemoteModel_h delete (to_req path hs (Some b)) =
         (case delete k of Some e \<Rightarrow> err_of 500 [] e | None \<Rightarrow> ok_reply [(''status'', GString ''remote_model_deleted'')])"
    using assms by (simp add: command_delete handlers_at DeleteRemoteModel_h_def to_req_def required_str_def field_str_def)
  have "map_res (\<lambda>j. case j of JStr s \<Rightarrow> Inr s | JNull \<Rightarrow> Inr [] | _ \<Rightarrow> Inl bad_json) (map JStr (k1 # ks)) = Inr (k1 # ks)"
    by (rule map_res_JStr)
  then show "\<exists>path b. command_request (''cleanup-cache'' # d # k1 # ks) = Some (Inr (''POST'', path, Some b)) \<and>
       handler_at jwt ''POST'' path = Some ''CleanupModelCache'' \<and> dec_cleanup (Some b) = Inr (d, set (k1 # ks))"
    by (simp add: command_cleanup handlers_at dec_cleanup_def field_str_def)
qed

lemma ctl_bodies_round_trip_witness:
  "\<exists>path b. command_request [''load-model'', ''a'', ''m.onnx'', ''1''] = Some (Inr (''POST'', path, Some b)) \<and>
     dec_load (Some b) = Inr (''a'', ''m.onnx'', ''1'')"
  using ctl_bodies_round_trip[of "''a''" "''m.onnx''" "''k''" "[''1'']" True "[]" "\<lambda>_ _. None" "[]" "[]" "\<lambda>_. None" "''d''" "''x''" "[]"]
  by force

section \<open>Tokens and the management commands\<close>

text \<open>What the client sends with a request: the API key, and nothing that carries a token.\<close>

definition sent_headers :: "string \<Rightarrow> json option \<Rightarrow> (string \<times> string) list" where
  "sent_headers apiKey b = [(''X-API-Key'', apiKey)] @ (if b = None then [] else [(''Content-Type'', ''application/json'')])"

lemma doRequest_headers: "doRequest env serverURL apiKey meth p b =
    (case do_http env meth (serverURL @ p) (sent_headers apiKey b) b of
       Inl e \<Rightarrow> Inl e
     | Inr (st, resp) \<Rightarrow> if 400 \<le> st then Inl (Errorf ''%s'' [GString resp]) else Inr resp)"
  by (simp add: doRequest_def sent_headers_def)

lemma no_authorization: "header (to_req p (sent_headers apiKey b) d) ''Authorization'' = []"
  by (simp add: to_req_def sent_headers_def)

text \<open>The paths of the five management commands, and their middleware when tokens are enabled.\<close>

definition mgmt_requests :: "(string \<times> string) list" where
  "mgmt_requests = [(''POST'', ''/api/v1/mgmt/system/reload''), (''GET'', ''/api/v1/mgmt/remote/models''),
     (''POST'', ''/api/v1/mgmt/remote/upload''), (''POST'', ''/api/v1/mgmt/remote/delete''), (''POST'', ''/api/v1/mgmt/remote/cleanup'')]"

lemma mgmt_mws: "list_all (\<lambda>(m, p). map_option r_mws (route_of True m p) = Some [MApiKey, MRateLimit, MRequestID, MJWT]) mgmt_requests"
  by code_simp

text \<open>With tokens enabled every management command of the client is refused: a request with exactly the
  headers that the client sends passes the API key check and the rate limit and is then answered
  401, whatever the key, the configuration and the arguments. So the reload, the listing, the upload, the
  deletion and the cleanup all exit with status 1.\<close>

theorem ctl_mgmt_unauthorized:
  assumes "(meth, p) \<in> set mgmt_requests" "route_of True meth p = Some rt"
    and "r = to_req p (sent_headers apiKey b) b" "fst (Allow now limiter)"
  shows "run_chain (run_mw apiKey jwtCfg jwt_parse rand8 now limiter) (r_mws rt) r [] =
       Abort (err_reply 401 ''Missing or invalid Authorization header'') \<and>
     (\<forall>args env serverURL body resp. command_request args = Some (Inr (meth, p, b)) \<and>
        do_http env meth (serverURL @ p) (sent_headers apiKey b) b = Inr (401, resp) \<longrightarrow>
        snd (run_command env serverURL apiKey args) = 1)"
proof -
  have m: "r_mws rt = [MApiKey, MRateLimit, MRequestID, MJWT]"
    using mgmt_mws assms(1,2) by (fastforce simp: list_all_iff)
  have h: "header r ''Authorization'' = []" unfolding assms(3) by (rule no_authorization)
  have key: "APIKeyAuth apiKey r [] = Next [] []" unfolding assms(3) by (auto simp: APIKeyAuth_def to_req_def sent_headers_def)
  have "fst (RateLimit now r [] limiter) = Next [] []" using assms(4) by (cases "Allow now limiter"; cases "fst (Allow now limiter)") (auto simp: RateLimit_def)
  moreover have "JWTMiddleware jwt_parse (router_jwt jwtCfg) r c = Abort (err_reply 401 ''Missing or invalid Authorization header'')" for c
    by (simp add: JWTMiddleware_def h)
  ultimately have "run_chain (run_mw apiKey jwtCfg jwt_parse rand8 now limiter) (r_mws rt) r [] =
       Abort (err_reply 401 ''Missing or invalid Authorization header'')"
    unfolding m by (simp add: run_mw_def key RequestID_def Let_def)
  then show ?thesis by (auto simp: run_command_def doRequest_headers finish_def)
qed

lemma ctl_mgmt_unauthorized_witness:
  "\<exists>rt. route_of True ''POST'' ''/api/v1/mgmt/system/reload'' = Some rt \<and>
     run_chain (run_mw ''k'' (JWT default_config) (\<lambda>_ _. None) [] 0 (NewRateLimiter 0 (FFin 10) 20)) (r_mws rt)
       (to_req ''/api/v1/mgmt/system/reload'' (sent_headers ''k'' None) None) [] =
     Abort (err_reply 401 ''Missing or invalid Authorization header'')"
proof -
  have i: "(''POST'', ''/api/v1/mgmt/system/reload'') \<in> set mgmt_requests" by (simp add: mgmt_requests_def)
  then obtain rt where rt: "route_of True ''POST'' ''/api/v1/mgmt/system/reload'' = Some rt"
    using mgmt_mws by (fastforce simp: list_all_iff)
  have "Allow (lastCheck (NewRateLimiter 0 (FFin 10) 20)) (NewRateLimiter 0 (FFin 10) 20) =
      (1 \<le> (20::int), (NewRateLimiter 0 (FFin 10) 20)\<lparr>tokens := FFin (of_int (if 1 \<le> (20::int) then 20 - 1 else 20))\<rparr>)"
    by (rule burst_step[where c = 20]) (simp_all add: NewRateLimiter_def fof_small)
  then have "fst (Allow 0 (NewRateLimiter 0 (FFin 10) 20))" by (simp add: NewRateLimiter_def)
  from ctl_mgmt_unauthorized[OF i rt refl this] rt show ?thesis by blast
qed


text \<open>A signer and a parser that know one set of claims.\<close>

definition sample_claims :: "(string \<times> goval) list" where
  "sample_claims = jwt_claims_of 0 ''i'' ''a'' ''admin'' ''models:read'' 60"

definition sample_cli :: cli_env where
  "sample_cli = \<lparr>do_http = (\<lambda>_ _ _ _. Inl (ErrExt ''connection refused'')), read_stream = (\<lambda>_. Inr []), parse_response = (\<lambda>_. None),
     sign_hs256 = (\<lambda>s cl. if s = ''s'' \<and> cl = sample_claims then Inr ''tok'' else Inl (ErrExt ''unknown'')),
     check_token = (\<lambda>_ _. None), now_ns = 0, error_text = (\<lambda>_. []), env_server = [], env_apikey = []\<rparr>"

definition sample_verify :: "jwt_key \<Rightarrow> string \<Rightarrow> (string \<times> goval) list option" where
  "sample_verify k t = (if k = HmacKey ''s'' \<and> t = ''tok'' then Some sample_claims else None)"


section \<open>Batches\<close>

lemma batch_stream_split:
  "list_all is_map_json js \<Longrightarrow> batch_stream entry (map Inr js @ rest) =
     (case batch_stream entry rest of (sent, Inl e) \<Rightarrow> (js @ sent, Inl e) | (sent, Inr rs) \<Rightarrow> (js @ sent, Inr (map entry js @ rs)))"
  by (induction js) (auto split: prod.splits sum.splits)

text \<open>C30: A batch whose inputs are all JSON objects (or \<open>null\<close>) sends one request for each, in order, and has one result for
  each in the same order, also when some of the requests fail. The first input of another kind ends
  it with an error: the inputs before it have been sent, and their results are not printed.\<close>

theorem batch_infer_results:
  assumes "list_all is_map_json js" "read_stream env f = Inr (map Inr js @ rest)"
    and "rest = [] \<or> (\<exists>x rest'. rest = x # rest' \<and> (\<forall>j. x = Inr j \<longrightarrow> \<not> is_map_json j))"
  shows "fst (batchInfer env url key f mid ver fmt) = js \<and>
     (rest = [] \<longrightarrow> snd (batchInfer env url key f mid ver fmt) = Inr (batch_print fmt (map (batch_entry env url key mid ver) js))) \<and>
     (rest \<noteq> [] \<longrightarrow> (\<exists>e. snd (batchInfer env url key f mid ver fmt) = Inl e)) \<and>
     (fmt \<in> {''table'', ''quiet''} \<longrightarrow> length (batch_print fmt (map (batch_entry env url key mid ver) js)) = length js)"
proof -
  have r: "rest = [] \<or> (\<exists>e. batch_stream entry rest = ([], Inl e))" for entry
    using assms(3) by (cases rest; cases "hd rest") auto
  let ?e = "batch_entry env url key mid ver"
  have len: "fmt \<in> {''table'', ''quiet''} \<Longrightarrow> length (batch_print fmt (map ?e js)) = length js"
    unfolding batch_print_def by (elim insertE emptyE) simp_all
  have b: "batchInfer env url key f mid ver fmt = (case batch_stream ?e (map Inr js @ rest) of
      (sent, Inl e) \<Rightarrow> (sent, Inl e) | (sent, Inr results) \<Rightarrow> (sent, Inr (batch_print fmt results)))"
    unfolding batchInfer_def assms(2) by simp
  show ?thesis
  proof (cases "rest = []")
    case True
    then show ?thesis using len unfolding b batch_stream_split[OF assms(1)] by simp
  next
    case False
    then obtain e where "batch_stream ?e rest = ([], Inl e)" using r by blast
    then show ?thesis using False len unfolding b batch_stream_split[OF assms(1)] by simp
  qed
qed

lemma batch_infer_results_witness:
  "fst (batchInfer (sample_cli\<lparr>read_stream := (\<lambda>_. Inr [Inr (JObj []), Inr (JInt 1)])\<rparr>) ''u'' ''k'' ''f'' ''m'' [] ''json'') = [JObj []]"
  using batch_infer_results[of "[JObj []]" "sample_cli\<lparr>read_stream := (\<lambda>_. Inr [Inr (JObj []), Inr (JInt 1)])\<rparr>" "''f''" "[Inr (JInt 1)]"
      "''u''" "''k''" "''m''" "[]" "''json''"]
  by (simp add: is_map_json_def)

end
