(* ===== verification/Serving.thy ===== *)
theory Serving
  imports App_Server Ctl
begin

text \<open>
  The components together: a request handler that waits for a worker, the worker that runs the pipeline
  around the ONNX engine, and what comes back. \<open>worker_answers\<close> says that a handler sees what a
  worker sends, which leaves out only requests that the client or a shutdown cancels.
\<close>

section \<open>Handler and worker\<close>

definition sel_of :: "prediction res \<Rightarrow> select_case" where
  "sel_of r = (case r of Inl e \<Rightarrow> SError e | Inr p \<Rightarrow> SResult (Some p))"

definition worker_answers :: "(fp \<Rightarrow> fp) \<Rightarrow> pipeline option \<Rightarrow> (string \<Rightarrow> string \<Rightarrow> goval \<Rightarrow> prediction res outcome) \<Rightarrow>
    (string \<Rightarrow> string \<Rightarrow> goval \<Rightarrow> select_case) \<Rightarrow> bool" where
  "worker_answers ex pl predict submit \<longleftrightarrow> (\<forall>m v x. \<exists>r.
     work ex pl pl predict \<lparr>ticket = 0, TModelID = m, TModelVersion = v, TInput = x\<rparr> = Done r \<and> submit m v x = sel_of r)"

text \<open>The engine as the workers call it, and the pipeline without steps.\<close>

abbreviation no_steps :: pipeline where
  "no_steps \<equiv> \<lparr>steps = []\<rparr>"

lemma Run_no_steps [simp]: "Run ex no_steps v = Inr v"
  by (simp add: Run_def Run_effect_def)

lemma work_no_steps: "work ex (Some no_steps) (Some no_steps) predict t = predict (TModelID t) (TModelVersion t) (TInput t)"
proof (cases "predict (TModelID t) (TModelVersion t) (TInput t)")
  case (Done r)
  then show ?thesis by (cases r) (simp_all add: work_def run_pipeline_def)
qed (simp_all add: work_def run_pipeline_def)

lemma submit_no_steps:
  assumes "worker_answers ex (Some no_steps) predict submit"
  shows "\<exists>r. predict m v x = Done r \<and> submit m v x = sel_of r"
  using assms unfolding worker_answers_def work_no_steps by simp

lemma submit_work:
  assumes "worker_answers ex pl predict submit"
  obtains r where "work ex pl pl predict \<lparr>ticket = 0, TModelID = m, TModelVersion = v, TInput = x\<rparr> = Done r" "submit m v x = sel_of r"
  using assms unfolding worker_answers_def by blast

section \<open>What the handler answers\<close>

lemma status_err [simp]: "status (err_reply c m) = c" "status (err_of c s e) = c" "status (ok_reply fs) = 200"
  by (simp_all add: err_reply_def err_of_def ok_reply_def)

lemma err_status_not_200 [simp]: "err_status e \<noteq> 200"
  by (simp add: err_status_def)

text \<open>A valid request: what is submitted.\<close>

definition valid_request :: "http_req \<Rightarrow> string \<Rightarrow> goval \<Rightarrow> bool" where
  "valid_request r ver input \<longleftrightarrow> param r ''model_id'' \<noteq> [] \<and> (\<exists>req. dec_inference (body r) = Inr req \<and> ir_version req = ver \<and>
     ir_model_id req \<in> {[], param r ''model_id''} \<and> ir_input req \<noteq> GNil \<and> process_input (ir_input req) = Inr input)"

lemma Predict_valid: "valid_request r ver input \<Longrightarrow> Predict_h submit r = (case submit (param r ''model_id'') ver input of
       SResult None \<Rightarrow> Done ([''inference_start'', ''inference_error''], Some (err_reply 500 ''no result from worker''))
     | SResult (Some p) \<Rightarrow> Done ([''inference_start'', ''inference_success''], Some (ok_reply (prediction_reply p)))
     | SError e \<Rightarrow> Done ([''inference_start'', ''inference_error''], Some (err_of (err_status e) [] e))
     | SCtxDone \<Rightarrow> Done ([''inference_start'', ''inference_cancelled''], None)
     | STimeout \<Rightarrow> Blocked)"
  unfolding valid_request_def Predict_h_def Let_def by (elim conjE exE) auto

lemma Predict_invalid: "\<nexists>ver input. valid_request r ver input \<Longrightarrow>
    \<exists>resp. Predict_h submit r = Done ([''inference_error''], Some resp) \<and> status resp = 400"
  unfolding valid_request_def Predict_h_def Let_def by (auto split: sum.splits)

section \<open>What the engine answers\<close>

text \<open>With any step in the pipeline no ONNX output gets through.\<close>

lemma Run_map_fails: "steps pl \<noteq> [] \<Longrightarrow> \<exists>err. Run ex pl (GMap fs) = Inl err"
  using run_steps_no_type[of "GMap fs" "steps pl" ex] by (simp add: Run_def Run_effect_def)

lemma work_onnx_steps:
  assumes "steps pl \<noteq> []"
  shows "work ex (Some pl) (Some pl) (onnx_predict ort oor ce e) t \<noteq> Done (Inr p)"
proof
  assume "work ex (Some pl) (Some pl) (onnx_predict ort oor ce e) t = Done (Inr p)"
  then show False
  proof (rule work_Inr)
    fix input q out
    assume p: "onnx_predict ort oor ce e (TModelID t) (TModelVersion t) input = Done (Inr q)"
      and o: "run_pipeline ex (Some pl) (Output q) = Inr out"
    obtain fs where "Output q = GMap fs" using onnx_output[OF p] by blast
    then show False using Run_map_fails[OF assms, of ex fs] o by (simp add: run_pipeline_def)
  qed
qed

text \<open>Inputs that the engine refuses: a pointer, and named inputs as JSON gives them.\<close>

lemma onnx_refuses:
  assumes "\<And>mid names. names \<noteq> [] \<Longrightarrow> \<exists>err. resolveInputs mid names x = Inl err"
    and "\<And>k m. map_of (oe_models e) k = Some m \<Longrightarrow> inputNames m \<noteq> []"
  shows "onnx_predict ort oor ce e mid v x \<noteq> Done (Inr p)"
proof
  assume "onnx_predict ort oor ce e mid v x = Done (Inr p)"
  then show False
  proof (rule onnx_predict_Inr)
    fix key m ins
    assume m: "map_of (oe_models e) key = Some m" and r: "resolveInputs (modelID m) (inputNames m) x = Inr ins"
    obtain err where "resolveInputs (modelID m) (inputNames m) x = Inl err" using assms(1) assms(2)[OF m] by blast
    with r show False by simp
  qed
qed

lemma resolve_task: "names \<noteq> [] \<Longrightarrow> \<exists>err. resolveInputs mid names (GTask a b c) = Inl err"
  by (simp add: resolveInputs_def)

lemma resolve_json_map: "names \<noteq> [] \<Longrightarrow> \<exists>err. resolveInputs mid names (GMap (unmarshal_kvs dec32 fs)) = Inl err"
proof -
  assume "names \<noteq> []"
  then obtain n ns where n: "names = n # ns" by (cases names) auto
  show ?thesis
  proof (cases "map_of fs n")
    case None
    then show ?thesis by (simp add: n resolveInputs_def unmarshal_kvs_get)
  next
    case (Some j)
    then show ?thesis using flatten_unmarshal[of dec32 j] by (auto simp: n resolveInputs_def unmarshal_kvs_get)
  qed
qed

lemma valid_request_unique: "valid_request r ver input \<Longrightarrow> valid_request r ver' input' \<Longrightarrow> ver' = ver \<and> input' = input"
  unfolding valid_request_def by auto

lemma Predict_sel: "valid_request r ver input \<Longrightarrow> submit (param r ''model_id'') ver input = sel_of res \<Longrightarrow>
    \<exists>acts. Predict_h submit r = Done (acts, Some (case res of Inr p \<Rightarrow> ok_reply (prediction_reply p) | Inl e \<Rightarrow> err_of (err_status e) [] e))"
  by (cases res) (simp_all add: Predict_valid sel_of_def)

text \<open>
  A prediction request over any engine of the contract, in a server without pipeline steps: the reply is 400, or it
  is what the engine says.
\<close>

context inference_engine
begin

lemma http_answers:
  assumes "worker_answers ex (Some no_steps) (predict e) submit"
  shows "\<exists>acts resp. Predict_h submit r = Done (acts, Some resp) \<and>
    ((\<nexists>ver input. valid_request r ver input) \<longrightarrow> status resp = 400) \<and>
    (\<forall>ver input. valid_request r ver input \<longrightarrow>
       (\<exists>res. predict e (param r ''model_id'') ver input = Done res \<and>
          (case res of Inr p \<Rightarrow> resp = ok_reply (prediction_reply p) \<and> ModelID p = param r ''model_id''
             | Inl err \<Rightarrow> resp = err_of (err_status err) [] err \<and> status resp \<noteq> 200)))"
proof (cases "\<exists>ver input. valid_request r ver input")
  case False
  then show ?thesis using Predict_invalid[of r submit] by blast
next
  case True
  then obtain ver input where v: "valid_request r ver input" by blast
  obtain res where res: "predict e (param r ''model_id'') ver input = Done res"
    and s: "submit (param r ''model_id'') ver input = sel_of res" using submit_no_steps[OF assms] by blast
  let ?resp = "case res of Inr p \<Rightarrow> ok_reply (prediction_reply p) | Inl e \<Rightarrow> err_of (err_status e) [] e"
  obtain acts where h: "Predict_h submit r = Done (acts, Some ?resp)" using Predict_sel[where submit = submit and r = r, OF v s] by blast
  have c: "case res of Inr p \<Rightarrow> ?resp = ok_reply (prediction_reply p) \<and> ModelID p = param r ''model_id''
      | Inl err \<Rightarrow> ?resp = err_of (err_status err) [] err \<and> status ?resp \<noteq> 200"
    using names_model res by (cases res) simp_all
  have "ver' = ver \<and> input' = input" if "valid_request r ver' input'" for ver' input' using valid_request_unique[OF v that] .
  then show ?thesis using h v res c by (intro exI[of _ acts] exI[of _ ?resp]) blast
qed

end

text \<open>A worker that never sends a result makes every request fail.\<close>

lemma Predict_never_ok:
  assumes "worker_answers ex pl predict submit"
    and "\<And>ver input p. valid_request r ver input \<Longrightarrow>
      work ex pl pl predict \<lparr>ticket = 0, TModelID = param r ''model_id'', TModelVersion = ver, TInput = input\<rparr> \<noteq> Done (Inr p)"
  shows "\<exists>acts resp. Predict_h submit r = Done (acts, Some resp) \<and> status resp \<noteq> 200"
proof (cases "\<exists>ver input. valid_request r ver input")
  case False
  then show ?thesis using Predict_invalid[of r submit] by force
next
  case True
  then obtain ver input where v: "valid_request r ver input" by blast
  obtain res where w: "work ex pl pl predict \<lparr>ticket = 0, TModelID = param r ''model_id'', TModelVersion = ver, TInput = input\<rparr> = Done res"
      and s: "submit (param r ''model_id'') ver input = sel_of res" using submit_work[OF assms(1)] by blast
  obtain err where err: "res = Inl err" using assms(2)[OF v] w by (cases res) auto
  show ?thesis using Predict_sel[where submit = submit and r = r, OF v s] unfolding err sum.case by (metis status_err(2) err_status_not_200)
qed

text \<open>The same for a batch and for gRPC.\<close>

lemma work_task_fails:
  assumes "\<And>k m. map_of (oe_models e) k = Some m \<Longrightarrow> inputNames m \<noteq> []"
  shows "work ex (Some pl) (Some pl) (onnx_predict ort oor ce e) \<lparr>ticket = n, TModelID = m, TModelVersion = v, TInput = GTask a b c\<rparr> \<noteq> Done (Inr p)"
proof (cases "steps pl = []")
  case True
  then have "pl = no_steps" by (cases pl) simp
  then show ?thesis using onnx_refuses[OF resolve_task assms, of e] by (simp add: work_no_steps)
next
  case False
  then show ?thesis by (rule work_onnx_steps)
qed

lemma work_json_map_fails:
  assumes "\<And>k m. map_of (oe_models e) k = Some m \<Longrightarrow> inputNames m \<noteq> []"
  shows "work ex (Some pl) (Some pl) (onnx_predict ort oor ce e)
    \<lparr>ticket = n, TModelID = m, TModelVersion = v, TInput = GMap (unmarshal_kvs dec32 fs)\<rparr> \<noteq> Done (Inr p)"
proof (cases "steps pl = []")
  case True
  then have "pl = no_steps" by (cases pl) simp
  then show ?thesis using onnx_refuses[OF resolve_json_map assms, of e] by (simp add: work_no_steps)
next
  case False
  then show ?thesis by (rule work_onnx_steps)
qed

text \<open>Every model of an engine that the server can reach has an input.\<close>

lemma reach_inputs: "oe_reach ort c e \<Longrightarrow> ort_ok ort \<Longrightarrow> map_of (oe_models e) k = Some m \<Longrightarrow> inputNames m \<noteq> []"
  using oe_reach_inv[of ort c e] oe_inv_lookup[of e k m] by (auto simp: omodel_ok_def)

section \<open>Handlers over a given engine\<close>

text \<open>What a handler sees when a worker takes its task next.\<close>

definition select_for :: "(fp \<Rightarrow> fp) \<Rightarrow> pipeline option \<Rightarrow> (string \<Rightarrow> string \<Rightarrow> goval \<Rightarrow> prediction res outcome) \<Rightarrow>
    string \<Rightarrow> string \<Rightarrow> goval \<Rightarrow> select_case" where
  "select_for ex pl predict m v x =
     (case work ex pl pl predict \<lparr>ticket = 0, TModelID = m, TModelVersion = v, TInput = x\<rparr> of Done r \<Rightarrow> sel_of r | _ \<Rightarrow> SCtxDone)"

lemma select_for_answers:
  assumes "\<forall>m v x. \<exists>r. predict m v x = Done r"
  shows "worker_answers ex pl predict (select_for ex pl predict)"
  unfolding worker_answers_def
proof (intro allI)
  fix m v x
  obtain r where "work ex pl pl predict \<lparr>ticket = 0, TModelID = m, TModelVersion = v, TInput = x\<rparr> = Done r"
    using work_total assms by metis
  then show "\<exists>r. work ex pl pl predict \<lparr>ticket = 0, TModelID = m, TModelVersion = v, TInput = x\<rparr> = Done r \<and>
      select_for ex pl predict m v x = sel_of r" by (simp add: select_for_def)
qed

context inference_engine
begin

lemma select_for_ready: "ready e \<Longrightarrow> worker_answers ex pl (predict e) (select_for ex pl (predict e))"
  by (intro select_for_answers allI returns)

end

abbreviation sample_call :: call_env where
  "sample_call \<equiv> \<lparr>ctx_err = None, pick = True, latency_ms = 1\<rparr>"

text \<open>A server with one model, loaded with version \<open>1\<close>.\<close>

abbreviation sample_select :: "onnx_engine \<Rightarrow> string \<Rightarrow> string \<Rightarrow> goval \<Rightarrow> select_case" where
  "sample_select e \<equiv> select_for id (Some no_steps) (onnx_predict (sample_ort 9) (\<lambda>_ _. 0) sample_call e)"

lemma sample_server:
  obtains e m where "oe_LoadModel (\<lambda>_. False) (sample_ort 9) sample_cuda None (sample_model ''a'' ''1'') new_onnx = Done (None, e)"
    "oe_reach (sample_ort 9) None e" "oe_models e = [(''a:1'', m)]"
    "worker_answers id (Some no_steps) (onnx_predict (sample_ort 9) (\<lambda>_ _. 0) sample_call e) (sample_select e)"
proof (rule sample_load)
  fix e m
  assume l: "oe_LoadModel (\<lambda>_. False) (sample_ort 9) sample_cuda None (sample_model ''a'' ''1'') new_onnx = Done (None, e)"
    and m: "map_of (oe_models e) ''a:1'' = Some m" "outputNames m = [''y'']"
  have r: "oe_reach (sample_ort 9) None e" using oe_reach.load[OF oe_reach.new l] .
  have ms: "oe_models e = [(''a:1'', m)]"
  proof (rule oe_LoadModel_None[OF l])
    fix key om
    assume "e = new_onnx\<lparr>oe_models := aput key om (oe_models new_onnx)\<rparr>"
    then have "oe_models e = [(key, om)]" by (simp add: aput_def)
    then show ?thesis using m(1) by (auto split: if_splits)
  qed
  have "outputNames m' \<noteq> []" if "map_of (oe_models e) k = Some m'" for k m'
    using that m(2) unfolding ms by (auto split: if_splits)
  then have "worker_answers id (Some no_steps) (onnx_predict (sample_ort 9) (\<lambda>_ _. 0) sample_call e) (sample_select e)"
    by (intro select_for_answers onnx_predict_done[OF r sample_ort_ok]) blast
  with l r ms show ?thesis by (rule that)
qed

section \<open>Models over HTTP\<close>

lemma oe_info_BaseEngine [simp]: "oe_GetModelInfo i v (e\<lparr>BaseEngine := b\<rparr>) = oe_GetModelInfo i v e"
  by (simp add: oe_GetModelInfo_def cong: sum.case_cong)

lemma oe_LoadModelWithTracing_None:
  assumes "oe_LoadModelWithTracing env cr notExist ort cu c m e = Done (None, e')"
  obtains b where "be_LoadModelWithTracing env cr m (BaseEngine e) = (None, b)"
    "oe_LoadModel notExist ort cu c m (e\<lparr>BaseEngine := b\<rparr>) = Done (None, e')"
  using assms by (auto simp: oe_LoadModelWithTracing_def split: prod.splits option.splits)

text \<open>An unload through HTTP names the empty version, so it never touches a model with one.\<close>

lemma oe_Unload_other:
  assumes "v \<noteq> []"
  shows "oe_GetModelInfo i v (snd (oe_UnloadModel mid [] e)) = oe_GetModelInfo i v e"
proof (cases "modelKey i v")
  case (Inr k)
  show ?thesis
  proof (cases "modelKey mid []")
    case Inr': (Inr k')
    have "k \<noteq> k'" using modelKey_inject[of i v k mid "[]"] Inr Inr' assms by auto
    then show ?thesis using Inr Inr' by (simp add: oe_UnloadModel_def unloadModel_def oe_GetModelInfo_def)
  qed (simp add: oe_UnloadModel_def)
qed (simp add: oe_GetModelInfo_def)

lemma unload_keeps_versions:
  assumes "v \<noteq> []"
  shows "oe_GetModelInfo i v (snd (UnloadModel_h oe_UnloadModelWithTracing r e)) = oe_GetModelInfo i v e"
proof -
  have "oe_GetModelInfo i v (snd (oe_UnloadModelWithTracing mid [] e)) = oe_GetModelInfo i v e" for mid
    using oe_Unload_other[OF assms] by (simp add: oe_UnloadModelWithTracing_def split: prod.split option.split)
  then show ?thesis by (simp add: UnloadModel_h_def Let_def split: prod.split option.split) (metis snd_conv)
qed

text \<open>Without metadata the manager never looks at a signature.\<close>

lemma LoadModel_no_signature:
  assumes "sha256_sum cr' = sha256_sum cr"
  shows "LoadModel env cr' i v p ish osh [] mm = LoadModel env cr i v p ish osh [] mm"
proof -
  have "sig_check env cr'' (aput ''sha256'' c []) p = None" for cr'' c by (rule sig_check_no_config) simp
  then show ?thesis by (simp add: LoadModel_def assms Let_def cong: sum.case_cong)
qed

text \<open>The numbers of a JSON request are \<open>float32\<close> values once converted.\<close>

lemma unmarshal_num_f32: "num_f32 (unmarshal dec32 j) = Some x \<Longrightarrow> fwf F32 x"
  by (cases j) (auto simp del: fwf.simps)

end
