(* ===== verification/Spec2Isabelle.thy ===== *)
theory Spec2Isabelle
  imports Pipeline Persistent_Queue Model_Manager S3_Registry Engine Tensors ONNX_Engine Session_Pool Worker_Pool Worker_Steps
    Rate_Limiter Middleware Api Router Grpc_Server Verifier TFLite_Engine App_Server Ctl Serving
begin

text \<open>
  GoEdgeInfer serves ONNX models over HTTP and gRPC. This development models the server, its command line client and
  the library code under \<open>src/\<close> as Isabelle functions and step relations, and proves what they do.

  \<^bold>\<open>The parts and how they interact.\<close> \<open>cmd/main.go\<close> starts the server of \<open>internal/app/server.go\<close>. The start-up reads the
  configuration, builds the pipeline, the ONNX engine and the persistent queue, starts the worker pool, lets it recover
  the queue, and then listens for HTTP and gRPC. A request goes through the middleware of its route
  (\<open>internal/middleware\<close>, \<open>internal/api/router.go\<close>) to a handler (\<open>internal/api/handlers.go\<close>); a prediction is
  submitted to the worker pool (\<open>internal/worker/pool.go\<close>), which persists it (\<open>internal/persistence/queue.go\<close>), runs the
  pipeline (\<open>internal/processing/pipeline.go\<close>) on the input, calls the engine (\<open>internal/inference\<close>) and runs the
  pipeline again on the output. Loading goes from the handler to the engine, which registers the model with the model
  manager (\<open>internal/model\<close>, with the signature check) before it creates a pool of native sessions. The client
  (\<open>cmd/goedgeinferctl/main.go\<close>) sends HTTP requests.

  \<^bold>\<open>The theories.\<close>
  \<^item> \<open>Prelude\<close>: lists, strings and association lists, the outcome of a call (\<open>Done\<close>, \<open>Panic\<close>, \<open>Blocked\<close>), collections of
    simplification rules. \<open>Go_Float\<close>: \<open>float32\<close> and \<open>float64\<close> as exact rationals with signed zeros, infinities and
    NaN, rounding to nearest even. \<open>Go_Values\<close>: dynamic values, errors and their wrapping, JSON. \<open>Go_Path\<close>: \<open>path/filepath\<close>.
  \<^item> \<open>Config\<close>: \<open>config.go\<close>. \<open>Pipeline\<close>: \<open>pipeline.go\<close>, with a type system for pipeline configurations.
    \<open>Persistent_Queue\<close>: \<open>queue.go\<close> over an abstract store.
  \<^item> \<open>Registry\<close>: the contract of a model registry. \<open>Model_Manager\<close>: \<open>model.go\<close> and the cache cleanup of \<open>s3.go\<close>.
    \<open>S3_Registry\<close>: the rest of \<open>s3.go\<close>. \<open>Verifier\<close>: \<open>internal/security/verifier.go\<close>. \<open>Engine\<close>: the base and the mock engine
    of \<open>engine.go\<close>.
  \<^item> \<open>Tensors\<close>: flattening inputs, filling and reading tensors; \<open>ONNX_Engine\<close>: the operations of \<open>onnx_runtime.go\<close> one
    after the other; \<open>Session_Pool\<close>: the same pool under concurrent requests, as a step relation on the channel of slots.
    \<open>TFLite_Engine\<close>: the mock engine and the engine over the C API.
  \<^item> \<open>Worker_Pool\<close>: the worker body, \<open>Submit\<close> with persistence and the recovery; \<open>Worker_Steps\<close>: the interleavings of
    submitters, workers, pipeline updates and a shutdown.
  \<^item> \<open>Rate_Limiter\<close>, \<open>Middleware\<close>: \<open>internal/middleware\<close>. \<open>Api\<close>: the handlers. \<open>Router\<close>: the routes and the chain of
    middleware. \<open>Grpc_Server\<close>: \<open>internal/grpcapi/server.go\<close>. \<open>App_Server\<close>: the start-up, the event loop and the reloads.
    \<open>Ctl\<close>: the client.
  \<^item> \<open>Serving\<close>: the handlers composed with the worker pool and the engine. This theory: the properties that span them.

  A definition has the name of the Go function it models, with a prefix or suffix where names repeat: \<open>be_\<close> base engine,
  \<open>oe_\<close> ONNX engine, \<open>tm_\<close> and \<open>tc_\<close> the two TensorFlow Lite engines, \<open>dm_\<close> the default model manager, \<open>_h\<close> an HTTP handler.
  A struct is a record, an interface value a \<open>goval\<close>, an error a \<open>gerr\<close> and a result with an error a sum.

  \<^bold>\<open>Contracts.\<close> The locale \<open>badger_store\<close> says what the queue needs of its store (interpreted on an ordered map), \<open>fifo_queue\<close> what a
  queue promises, and every such store gives such a queue (\<open>sublocale\<close>); recovery is proved inside \<open>badger_store\<close>.
  The locale \<open>model_registry\<close> is the contract of a lookup, a load and an unload; the base engine and the model manager are
  interpretations of it. The locale \<open>inference_engine\<close> is what the callers of the Go interface \<open>Engine\<close> rely on: the base, the mock, the ONNX
  and the mock TensorFlow Lite engine are interpretations of it (the engine over the C API panics on an empty input), and what the
  worker and the prediction handler do with any such engine is proved inside it. ONNX Runtime, the TensorFlow Lite library, cryptography, the token library, MinIO, the file system and
  viper are parameters: records of functions, with the laws that a property needs as its hypotheses.

  \<^bold>\<open>What is shown.\<close> Serving: a valid request on a loaded model is answered with the output of the session run on its
  numbers, every other one with its error; requests that can never succeed. Concurrency: no session or task is
  lost, duplicated or stuck until an unload or a shutdown, and what goes wrong then. Data: input conversion, tensors, bounds and types of the
  pipeline in rounded arithmetic. State: registries, queue refinement, rate limiter, reloads. Access: the API key, tokens, signatures.
  Start-up: its order, its failures, and the recovery that does not end.

  \<^bold>\<open>Bounds and fuel.\<close> Word sizes are those of Go (\<open>int\<close> has 64 bits). The task channel holds 100 tasks as in the code. The recovery
  loop may not end, so it is an \<open>option\<close>: \<open>None\<close> when no number of turns ends it; \<open>recover_n\<close> runs a
  given number of turns. All other loops are structural. \<open>Seconds\<close> and the rest of the arithmetic round in every operation.

  \<^bold>\<open>Not modelled.\<close> Log output, metrics and spans (of an audit record only the action is kept; \<open>pkg/logging\<close>, \<open>pkg/metrics\<close>),
  as nothing reads them. Fused multiply-add, which the Go compiler may use on some machines. Memory of native handles:
  a destroyed session is only taken out of use. TLS handshakes and the transport of HTTP and gRPC; the Go code generated from
  \<open>infer.proto\<close>, whose messages are records here. The case-insensitive match of JSON keys in request bodies. The data race on the
  pipeline pointer of the worker pool beyond which pipeline a worker reads. The scripts, which are manual tests.
\<close>

section \<open>Requests that are answered\<close>





section \<open>Requests that always fail\<close>

text \<open>C33: A pipeline with any step makes the server useless with this engine: the engine's output is a map, which no
  step accepts, so no prediction request is ever answered with status 200, whatever the model and
  the input.\<close>

theorem pipeline_rejects_all:
  assumes "steps pl \<noteq> []" "worker_answers ex (Some pl) (onnx_predict ort oor ce e) submit"
  shows "\<exists>acts resp. Predict_h submit r = Done (acts, Some resp) \<and> status resp \<noteq> 200"
  using assms(2) work_onnx_steps[OF assms(1)] by (rule Predict_never_ok)

lemma pipeline_rejects_all_witness:
  "\<exists>acts resp. Predict_h (select_for id (Some \<lparr>steps = [\<lparr>step_type = ''normalize'', params = []\<rparr>]\<rparr>)
     (onnx_predict (sample_ort 9) (\<lambda>_ _. 0) sample_call new_onnx)) (plain_req ''/'') = Done (acts, Some resp) \<and> status resp \<noteq> 200"
  by (rule pipeline_rejects_all[OF _ select_for_answers[OF new_onnx_predict]]) simp

text \<open>C32: A batch request never succeeds: for every model, pipeline and input the reply is an error, because the
  handler submits the pointer to a task where the input belongs.\<close>

theorem batch_always_fails:
  assumes "oe_reach ort c e" "ort_ok ort" "\<And>i. worker_answers ex (Some pl) (onnx_predict ort oor (ce i) e) (submit i)"
  shows "\<exists>acts resp. BatchPredict_h submit lat r = Done (acts, Some resp) \<and> status resp \<in> {400, 500}"
proof -
  note inp = reach_inputs[OF assms(1,2)]
  have "\<exists>err. submit 0 m v (GTask m v x) = SError err" for m v x
  proof (rule submit_work[OF assms(3)[of 0], of m v "GTask m v x"])
    fix res
    assume "work ex (Some pl) (Some pl) (onnx_predict ort oor (ce 0) e) \<lparr>ticket = 0, TModelID = m, TModelVersion = v, TInput = GTask m v x\<rparr> = Done res"
      and "submit 0 m v (GTask m v x) = sel_of res"
    then show ?thesis using work_task_fails[OF inp] by (cases res) (auto simp: sel_of_def)
  qed
  then have sub: "\<forall>m v x. \<exists>err. submit 0 m v (GTask m v x) = SError err" by blast
  have loop: "\<exists>err. batch_loop submit m v 0 xs [] = Inl (Done ([''batch_predict_error''], Some (err_of 500 [] err)))"
    if ne: "xs \<noteq> []" for m v xs
  proof -
    obtain x xs' where x: "xs = x # xs'" using ne by (cases xs) auto
    obtain err where "submit 0 m v (GTask m v x) = SError err" using sub by blast
    then show ?thesis by (intro exI[of _ err]) (simp add: x)
  qed
  show ?thesis
  proof (cases "dec_batch (body r)")
    case (Inl e)
    then show ?thesis by (simp add: BatchPredict_h_def Let_def)
  next
    case (Inr xs)
    then show ?thesis using loop[of xs "param r ''model_id''" "if param r ''version'' = [] then query r ''version'' else param r ''version''"]
      by (auto simp: BatchPredict_h_def Let_def)
  qed
qed

lemma batch_always_fails_witness:
  "\<exists>acts resp. BatchPredict_h (\<lambda>i. select_for id (Some no_steps) (onnx_predict (sample_ort 9) (\<lambda>_ _. 0) sample_call new_onnx)) 1
     ((plain_req ''/'')\<lparr>param := (\<lambda>_. ''a''), body := Some (JObj [(''inputs'', JArr [JArr [JInt 1]])])\<rparr>) = Done (acts, Some resp) \<and>
     status resp \<in> {400, 500}"
  by (rule batch_always_fails[OF oe_reach.new[of "sample_ort 9" None] sample_ort_ok select_for_answers[OF new_onnx_predict]])

text \<open>C31: Named inputs, the only way to call a model with several inputs, always fail over HTTP: the arrays inside a JSON object reach
  the engine as \<open>[]interface{}\<close>, which it does not accept. So no request with an object as input is
  answered with status 200, and since the client sends nothing else in a batch, every result of its
  \<open>batch-infer\<close> command is an error.\<close>

theorem named_inputs_fail:
  assumes "oe_reach ort c e" "ort_ok ort" "worker_answers ex (Some pl) (onnx_predict ort oor ce e) submit" "mid \<noteq> []"
    and "is_map_json j" "r = (to_req p hs (Some (infer_body mid ver j)))\<lparr>param := (\<lambda>k. if k = ''model_id'' then mid else [])\<rparr>"
  shows "\<exists>acts resp. Predict_h submit r = Done (acts, Some resp) \<and> 400 \<le> status resp \<and>
    (do_http env ''POST'' (url @ ''/api/v1/infer/'' @ mid) (sent_headers key (Some (infer_body mid ver j))) (Some (infer_body mid ver j)) =
       Inr (status resp, text) \<longrightarrow> kv_get (batch_entry env url key mid ver j) ''error'' \<noteq> None)"
proof -
  note inp = reach_inputs[OF assms(1,2)]
  have pr: "param r ''model_id'' = mid" "body r = Some (infer_body mid ver j)" unfolding assms(6) by (simp_all add: to_req_def)
  have dec: "dec_inference (body r) = Inr \<lparr>ir_model_id = mid, ir_version = ver, ir_input = unmarshal id j\<rparr>"
    unfolding pr by (simp add: dec_inference_def infer_body_def field_str_def field_any_def)
  have "\<exists>acts resp. Predict_h submit r = Done (acts, Some resp) \<and> 400 \<le> status resp"
  proof (cases j)
    case (JObj fs)
    have v: "valid_request r ver (GMap (unmarshal_kvs id fs))"
      unfolding valid_request_def pr(1) dec JObj using assms(4) by (simp add: process_input_def)
    show ?thesis
    proof (rule submit_work[OF assms(3), of mid ver "GMap (unmarshal_kvs id fs)"])
      fix res
      assume w: "work ex (Some pl) (Some pl) (onnx_predict ort oor ce e)
          \<lparr>ticket = 0, TModelID = mid, TModelVersion = ver, TInput = GMap (unmarshal_kvs id fs)\<rparr> = Done res"
        and s: "submit mid ver (GMap (unmarshal_kvs id fs)) = sel_of res"
      obtain err where "res = Inl err" using w work_json_map_fails[OF inp] by (cases res) auto
      then show ?thesis using Predict_valid[OF v, of submit] s pr(1) by (simp add: sel_of_def err_status_def)
    qed
  next
    case JNull
    then show ?thesis using dec pr(1) assms(4) by (simp add: Predict_h_def)
  qed (use assms(5) in \<open>simp_all add: is_map_json_def\<close>)
  then obtain acts resp where h: "Predict_h submit r = Done (acts, Some resp)" "400 \<le> status resp" by blast
  show ?thesis
    by (intro exI conjI impI, rule h(1), rule h(2)) (use h(2) in \<open>simp add: batch_entry_def doRequest_headers\<close>)
qed

lemma named_inputs_fail_witness:
  "\<exists>e acts resp. oe_LoadModel (\<lambda>_. False) (sample_ort 9) sample_cuda None (sample_model ''a'' ''1'') new_onnx = Done (None, e) \<and>
     Predict_h (select_for id (Some no_steps) (onnx_predict (sample_ort 9) (\<lambda>_ _. 0) sample_call e))
       ((to_req ''/'' [] (Some (infer_body ''a'' ''1'' (JObj [(''x'', JArr [JInt 1, JInt 2])]))))\<lparr>param := (\<lambda>k. if k = ''model_id'' then ''a'' else [])\<rparr>) =
       Done (acts, Some resp) \<and> 400 \<le> status resp"
proof (rule sample_server)
  fix e m
  assume l: "oe_LoadModel (\<lambda>_. False) (sample_ort 9) sample_cuda None (sample_model ''a'' ''1'') new_onnx = Done (None, e)"
    and r: "oe_reach (sample_ort 9) None e"
    and w: "worker_answers id (Some no_steps) (onnx_predict (sample_ort 9) (\<lambda>_ _. 0) sample_call e) (sample_select e)"
  from named_inputs_fail[OF r sample_ort_ok w _ _ refl, of "''a''" "JObj [(''x'', JArr [JInt 1, JInt 2])]" "''/''" "[]" "''1''"] l
  show ?thesis by (simp add: is_map_json_def) blast
qed

text \<open>C34: The gRPC service never returns a number: every unary call over this engine is answered, and its list of output
  floats is empty, also when the prediction succeeded, because the output is a map and not a
  \<open>[]float32\<close>.\<close>

theorem grpc_returns_no_floats:
  assumes "worker_answers ex (Some pl) (onnx_predict ort oor ce e) submit"
  shows "\<exists>resp. grpc_Infer submit req = Done resp \<and> output_floats resp = []"
proof (rule submit_work[OF assms, of "req_model_id req" "req_version req" "GF32s (input_floats req)"])
  fix res
  assume w: "work ex (Some pl) (Some pl) (onnx_predict ort oor ce e)
      \<lparr>ticket = 0, TModelID = req_model_id req, TModelVersion = req_version req, TInput = GF32s (input_floats req)\<rparr> = Done res"
    and s: "submit (req_model_id req) (req_version req) (GF32s (input_floats req)) = sel_of res"
  show ?thesis
  proof (cases res)
    case (Inl err)
    then show ?thesis using s by (simp add: grpc_Infer_def answer_request_def sel_of_def error_response_def)
  next
    case (Inr p)
    have "toFloat32Slice (Output p) = []"
    proof (cases "steps pl = []")
      case True
      then have "pl = no_steps" by (cases pl) simp
      then have "\<exists>fs. Output p = GMap fs" using w Inr onnx_output by (fastforce simp: work_no_steps)
      then show ?thesis by auto
    qed (use w Inr work_onnx_steps in blast)
    then show ?thesis using s Inr by (simp add: grpc_Infer_def answer_request_def sel_of_def error_response_def)
  qed
qed

lemma grpc_returns_no_floats_witness:
  "\<exists>resp. grpc_Infer (select_for id (Some no_steps) (onnx_predict (sample_ort 9) (\<lambda>_ _. 0) sample_call new_onnx))
     \<lparr>req_model_id = ''a'', req_version = [], input_floats = [FFin 1], req_request_id = ''1''\<rparr> = Done resp \<and> output_floats resp = []"
  by (rule grpc_returns_no_floats[OF select_for_answers[OF new_onnx_predict]])

text \<open>A model that is not loaded under exactly the requested version is answered with 500, not with the
  documented 404; an empty version does not mean the latest one: with only a version of the model
  loaded, a request that names no version gets this answer.\<close>

theorem missing_model_500:
  assumes "worker_answers ex (Some no_steps) (onnx_predict ort oor ce e) submit" "valid_request r ver input"
    and "modelKey (param r ''model_id'') ver = Inr key" "map_of (oe_models e) key = None"
  shows "\<exists>acts resp. Predict_h submit r = Done (acts, Some resp) \<and> status resp = 500"
proof -
  obtain res where res: "onnx_predict ort oor ce e (param r ''model_id'') ver input = Done res"
    and s: "submit (param r ''model_id'') ver input = sel_of res" using submit_no_steps[OF assms(1)] by blast
  have "res = Inl (Errorf ''model not found or not properly loaded: %s'' [GString key])"
    using res assms(3,4) by (simp add: onnx_predict_def oe_Predict_def)
  then show ?thesis using Predict_valid[OF assms(2), of submit] s by (simp add: sel_of_def err_status_def)
qed

lemma missing_model_500_witness:
  "\<exists>e acts resp. oe_LoadModel (\<lambda>_. False) (sample_ort 9) sample_cuda None (sample_model ''a'' ''1'') new_onnx = Done (None, e) \<and>
     Predict_h (sample_select e) ((plain_req ''/'')\<lparr>param := (\<lambda>_. ''a''), body := Some (JObj [(''input'', JArr [])])\<rparr>) =
       Done (acts, Some resp) \<and> status resp = 500"
proof (rule sample_server)
  fix e m
  assume l: "oe_LoadModel (\<lambda>_. False) (sample_ort 9) sample_cuda None (sample_model ''a'' ''1'') new_onnx = Done (None, e)"
    and ms: "oe_models e = [(''a:1'', m)]"
    and w: "worker_answers id (Some no_steps) (onnx_predict (sample_ort 9) (\<lambda>_ _. 0) sample_call e) (sample_select e)"
  let ?r = "(plain_req ''/'')\<lparr>param := (\<lambda>_. ''a''), body := Some (JObj [(''input'', JArr [])])\<rparr>"
  have v: "valid_request ?r [] (GF32s [])"
    by (simp add: valid_request_def plain_req_def dec_inference_def field_str_def field_any_def process_input_def)
  have k: "modelKey (param ?r ''model_id'') [] = Inr ''a''" by (simp, code_simp)
  have "map_of (oe_models e) ''a'' = None" by (simp add: ms)
  from missing_model_500[OF w v k this] l show ?thesis by blast
qed

section \<open>Models over HTTP\<close>

text \<open>C11: Loading a model over HTTP does what it says: after a reply of status 200 the engine has the model under the
  identifier, version and path of the request and the information route shows it, and the same request again is
  answered 409 and changes nothing. But a model with a version can never be unloaded
  again: whatever unload request follows, the engine still has it.\<close>

theorem http_load_lifecycle:
  assumes "LoadModel_h oe_GetModel (oe_LoadModelWithTracing env cr notExist ort cu c) r e = Done (resp, e')" "status resp = 200"
  shows "\<exists>mid p ver mdl. dec_load (body r) = Inr (mid, p, ver) \<and>
     mdl = \<lparr>ID = mid, Version = ver, Path = p, InputShape = [], OutputShape = [], Metadata = []\<rparr> \<and>
     (\<forall>r2. param r2 ''model_id'' = mid \<and> param r2 ''version'' = ver \<longrightarrow>
        GetModelInfo_h (\<lambda>i v. oe_GetModelInfo i v e') r2 = Done ([''model_info''], Some (ok_reply (model_json mdl)))) \<and>
     LoadModel_h oe_GetModel (oe_LoadModelWithTracing env cr notExist ort cu c) r e' =
       Done (err_reply 409 ''model with this ID and version already exists'', e') \<and>
     (ver \<noteq> [] \<longrightarrow> (\<forall>r2. oe_GetModelInfo mid ver (snd (UnloadModel_h oe_UnloadModelWithTracing r2 e')) = Inr mdl))"
proof -
  obtain mid p ver where d: "dec_load (body r) = Inr (mid, p, ver)"
    using assms by (cases "dec_load (body r)") (auto simp: LoadModel_h_def)
  let ?mdl = "\<lparr>ID = mid, Version = ver, Path = p, InputShape = [], OutputShape = [], Metadata = []\<rparr>"
  obtain err where g: "oe_GetModel mid ver e = Inl err"
    using assms d by (cases "oe_GetModel mid ver e") (auto simp: LoadModel_h_def)
  obtain res e1 where l: "oe_LoadModelWithTracing env cr notExist ort cu c ?mdl e = Done (res, e1)"
    using assms d g by (cases "oe_LoadModelWithTracing env cr notExist ort cu c ?mdl e") (auto simp: LoadModel_h_def)
  have n: "res = None" "e1 = e'" using assms d g l by (cases res; simp add: LoadModel_h_def; fastforce)+
  have info: "oe_GetModelInfo mid ver e' = Inr ?mdl"
  proof (rule oe_LoadModelWithTracing_None[OF l[unfolded n]])
    fix b assume "oe_LoadModel notExist ort cu c ?mdl (e\<lparr>BaseEngine := b\<rparr>) = Done (None, e')"
    then show ?thesis by (rule oe_LoadModel_None) (simp add: oe_GetModelInfo_def)
  qed
  have ne: "mid \<noteq> []" using info by (auto simp: oe_GetModelInfo_def modelKey_def)
  have "GetModelInfo_h (\<lambda>i v. oe_GetModelInfo i v e') r2 = Done ([''model_info''], Some (ok_reply (model_json ?mdl)))"
    if "param r2 ''model_id'' = mid \<and> param r2 ''version'' = ver" for r2
    using that ne info by (simp add: GetModelInfo_h_def)
  moreover have "LoadModel_h oe_GetModel (oe_LoadModelWithTracing env cr notExist ort cu c) r e' =
       Done (err_reply 409 ''model with this ID and version already exists'', e')"
    using d info by (simp add: LoadModel_h_def oe_GetModel_def)
  moreover have "oe_GetModelInfo mid ver (snd (UnloadModel_h oe_UnloadModelWithTracing r2 e')) = Inr ?mdl" if "ver \<noteq> []" for r2
    using unload_keeps_versions[OF that] info by simp
  ultimately show ?thesis using d by blast
qed

definition load_req :: http_req where
  "load_req = (plain_req ''/'')\<lparr>body := Some (JObj [(''model_id'', JStr ''a''), (''model_path'', JStr ''m.onnx''), (''version'', JStr ''1'')])\<rparr>"

lemma http_load_lifecycle_witness:
  "\<exists>e' mdl. (\<exists>resp. LoadModel_h oe_GetModel (oe_LoadModelWithTracing (sample_env ''m.onnx'' [1]) sample_crypto (\<lambda>_. False) (sample_ort 9) sample_cuda None)
       load_req new_onnx = Done (resp, e') \<and> status resp = 200) \<and>
     oe_GetModelInfo ''a'' ''1'' (snd (UnloadModel_h oe_UnloadModelWithTracing ((plain_req ''/'')\<lparr>param := (\<lambda>_. ''a'')\<rparr>) e')) = Inr mdl"
proof -
  let ?load = "oe_LoadModelWithTracing (sample_env ''m.onnx'' [1]) sample_crypto (\<lambda>_. False) (sample_ort 9) sample_cuda None"
  have "case LoadModel_h oe_GetModel ?load load_req new_onnx of Done (resp, e') \<Rightarrow> status resp = 200 | _ \<Rightarrow> False"
    by code_simp
  then obtain resp e' where l: "LoadModel_h oe_GetModel ?load load_req new_onnx = Done (resp, e')" "status resp = 200"
    by (cases "LoadModel_h oe_GetModel ?load load_req new_onnx") auto
  have d: "dec_load (body load_req) = Inr (''a'', ''m.onnx'', ''1'')" by code_simp
  obtain mid p ver mdl where t: "dec_load (body load_req) = Inr (mid, p, ver)"
    "ver \<noteq> [] \<longrightarrow> (\<forall>r2. oe_GetModelInfo mid ver (snd (UnloadModel_h oe_UnloadModelWithTracing r2 e')) = Inr mdl)"
    using http_load_lifecycle[OF l] by blast
  then have "mid = ''a''" "ver = ''1''" using d by (simp_all only: sum.inject prod.inject)
  then show ?thesis using t(2) l by blast
qed

text \<open>C35: A model that is loaded over HTTP is never checked against its signature, however the server is
  configured: the handler hands no configuration on, so the result of a load request does not depend on the
  keys or on the signature scheme.\<close>

theorem http_load_skips_signature:
  assumes "sha256_sum cr' = sha256_sum cr"
  shows "LoadModel_h oe_GetModel (oe_LoadModelWithTracing env cr' notExist ort cu c) r e =
         LoadModel_h oe_GetModel (oe_LoadModelWithTracing env cr notExist ort cu c) r e"
  unfolding LoadModel_h_def oe_LoadModelWithTracing_def be_LoadModelWithTracing_def
  by (simp add: LoadModel_no_signature[OF assms] cong: sum.case_cong)

lemma http_load_skips_signature_witness:
  "verifySignature (sample_env ''m'' [1]) (sample_crypto\<lparr>parse_pkix := (\<lambda>_. Inl (ErrExt ''bad key''))\<rparr>) ''m'' ''m'' ''m'' \<noteq> None \<and>
   LoadModel_h oe_GetModel (oe_LoadModelWithTracing (sample_env ''m'' [1]) (sample_crypto\<lparr>parse_pkix := (\<lambda>_. Inl (ErrExt ''bad key''))\<rparr>)
     (\<lambda>_. False) (sample_ort 9) sample_cuda None) (plain_req ''/'') new_onnx =
   LoadModel_h oe_GetModel (oe_LoadModelWithTracing (sample_env ''m'' [1]) sample_crypto
     (\<lambda>_. False) (sample_ort 9) sample_cuda None) (plain_req ''/'') new_onnx"
proof
  show "verifySignature (sample_env ''m'' [1]) (sample_crypto\<lparr>parse_pkix := (\<lambda>_. Inl (ErrExt ''bad key''))\<rparr>) ''m'' ''m'' ''m'' \<noteq> None"
    by (simp add: verifySignature_def sample_defs split: option.split)
  show "LoadModel_h oe_GetModel (oe_LoadModelWithTracing (sample_env ''m'' [1]) (sample_crypto\<lparr>parse_pkix := (\<lambda>_. Inl (ErrExt ''bad key''))\<rparr>)
     (\<lambda>_. False) (sample_ort 9) sample_cuda None) (plain_req ''/'') new_onnx =
   LoadModel_h oe_GetModel (oe_LoadModelWithTracing (sample_env ''m'' [1]) sample_crypto
     (\<lambda>_. False) (sample_ort 9) sample_cuda None) (plain_req ''/'') new_onnx"
    by (rule http_load_skips_signature) simp
qed

section \<open>A prediction from end to end\<close>

text \<open>C1: A valid request on a loaded model with one \<open>float32\<close> input and one \<open>float32\<close> output is served from end to end: the
  numbers of the JSON array, rounded to \<open>float32\<close>, are exactly what the session is run on, and the
  response of status 200 carries exactly the data and the shape of the tensor that the session has written.\<close>

theorem predict_end_to_end:
  assumes "worker_answers ex (Some no_steps) (onnx_predict ort oor \<lparr>ctx_err = None, pick = pk, latency_ms = lat\<rparr> e) submit"
    and req: "param r ''model_id'' = mid" "body r = Some (JObj fs)" "field_str fs ''model_id'' = Inr i" "i \<in> {[], mid}"
      "field_str fs ''version'' = Inr ver" "map_of fs ''input'' = Some (JArr js)" "list_all2 (\<lambda>j x. num_f32 (unmarshal id j) = Some x) js xs"
    and mod: "modelKey mid ver = Inr key" "map_of (oe_models e) key = Some m" "inputNames m = [n]" "outputNames m = [o1]" "pool m = slot # rest"
    and ten: "inputs slot = [Tensor (TF32 old) shp]" "length old = length js"
      "session_run ort (session slot) [Tensor (TF32 xs) shp] (outputs slot) = Inr [Tensor (TF32 ys) oshp]"
  shows "\<exists>md. Predict_h submit r = Done ([''inference_start'', ''inference_success''], Some (ok_reply
     [(''model_id'', GString mid), (''output'', GMap [(''data'', GF32s ys), (''shape'', GI64s oshp), (''model_id'', GString mid)]),
      (''latency_ms'', GInt lat), (''metadata'', GMap md)]))"
proof -
  have len: "length xs = length js" using req(7) by (simp add: list_all2_lengthD)
  have ne: "mid \<noteq> []" using mod(1) by (simp add: modelKey_Inr)
  have fit: "list_all (fwf F32) xs"
    using req(7) by (induction js xs rule: list_all2_induct) (auto simp: unmarshal_num_f32)
  have conv: "convertToFloat32Slice (GSlice (map (unmarshal id) js)) = Inr xs"
    using req(7) conv_slice_Inr[of 0 "map (unmarshal id) js" xs] by (simp add: list_all2_map1)
  have v: "valid_request r ver (GF32s xs)"
    unfolding valid_request_def req(1) using ne req(2-6) conv
    by (simp add: dec_inference_def field_any_def process_input_def unmarshal_list_map)
  have flat: "flattenInput (GF32s xs) = Inr (map (fcvt F64) xs)" by simp
  have fill: "fillTensor oor (Tensor (TF32 old) shp) (map (fcvt F64) xs) = Inr (Tensor (TF32 xs) shp)"
    using fit len ten(2) by (simp add: fillTensor_def fcvt_narrow_widen list_all_iff map_id_on)
  let ?md = "[(''engine'', GString ''onnxruntime''), (''latency_ms'', GInt64 (word_of_int lat)),
      (''input_dims'', GI64ss (inputDims m)), (''output_dims'', GI64ss (outputDims m))]"
  let ?out = "GMap [(''data'', GF32s ys), (''shape'', GI64s oshp), (''model_id'', GString mid)]"
  let ?p = "\<lparr>ModelID = mid, PVersion = [], Output = ?out, PMetadata = GMap ?md, Latency = lat\<rparr>"
  have run: "fst (runSlot ort oor lat m slot [map (fcvt F64) xs] mid) = Done (Inr ?p)"
    by (simp add: runSlot_def mod(3,4) ten(1,3) fill readTensor_def output_map_def)
  have res: "resolveInputs (modelID m) (inputNames m) (GF32s xs) = Inr [map (fcvt F64) xs]"
    by (simp add: resolveInputs_def mod(3))
  have pred: "onnx_predict ort oor \<lparr>ctx_err = None, pick = pk, latency_ms = lat\<rparr> e mid ver (GF32s xs) = Done (Inr ?p)"
    using run by (cases "runSlot ort oor lat m slot [map (fcvt F64) xs] mid") (simp add: onnx_predict_def oe_Predict_def mod(1,2,5) res)
  then have "submit (param r ''model_id'') ver (GF32s xs) = sel_of (Inr ?p)"
    using submit_no_steps[OF assms(1), of mid ver "GF32s xs"] unfolding req(1) by auto
  then have "Predict_h submit r = Done ([''inference_start'', ''inference_success''], Some (ok_reply (prediction_reply ?p)))"
    using Predict_valid[OF v, of submit] by (simp add: sel_of_def)
  moreover have "prediction_reply ?p = [(''model_id'', GString mid), (''output'', ?out), (''latency_ms'', GInt lat), (''metadata'', GMap ?md)]"
    by (simp add: prediction_reply_def omit_empty_def omit_nil_def)
  ultimately show ?thesis by (intro exI[of _ ?md]) simp
qed

lemma predict_end_to_end_witness:
  "\<exists>e md. oe_LoadModel (\<lambda>_. False) (sample_ort 9) sample_cuda None (sample_model ''a'' ''1'') new_onnx = Done (None, e) \<and>
     Predict_h (sample_select e) ((plain_req ''/'')\<lparr>param := (\<lambda>_. ''a''),
       body := Some (JObj [(''version'', JStr ''1''), (''input'', JArr [JF64 (FFin 1), JF64 (FFin 2)])])\<rparr>) =
     Done ([''inference_start'', ''inference_success''], Some (ok_reply
       [(''model_id'', GString ''a''), (''output'', GMap [(''data'', GF32s [FFin 0, FFin 0]), (''shape'', GI64s [1, 2]), (''model_id'', GString ''a'')]),
        (''latency_ms'', GInt 1), (''metadata'', GMap md)]))"
proof (rule sample_server)
  fix e m
  assume l: "oe_LoadModel (\<lambda>_. False) (sample_ort 9) sample_cuda None (sample_model ''a'' ''1'') new_onnx = Done (None, e)"
    and ms: "oe_models e = [(''a:1'', m)]"
    and w: "worker_answers id (Some no_steps) (onnx_predict (sample_ort 9) (\<lambda>_ _. 0) sample_call e) (sample_select e)"
  have "case oe_LoadModel (\<lambda>_. False) (sample_ort 9) sample_cuda None (sample_model ''a'' ''1'') new_onnx of
     Done (None, e) \<Rightarrow> (case map_of (oe_models e) ''a:1'' of Some m \<Rightarrow> inputNames m = [''x''] \<and> outputNames m = [''y''] \<and>
       (case pool m of slot # rest \<Rightarrow> inputs slot = [Tensor (TF32 [FFin 0, FFin 0]) [1, 2]] \<and> outputs slot = [Tensor (TF32 [FFin 0, FFin 0]) [1, 2]] | [] \<Rightarrow> False)
       | None \<Rightarrow> False) | _ \<Rightarrow> False" by code_simp
  then obtain slot rest where m: "inputNames m = [''x'']" "outputNames m = [''y'']" "pool m = slot # rest"
    "inputs slot = [Tensor (TF32 [FFin 0, FFin 0]) [1, 2]]" "outputs slot = [Tensor (TF32 [FFin 0, FFin 0]) [1, 2]]"
    using l ms by (cases "pool m") auto
  let ?b = "[(''version'', JStr ''1''), (''input'', JArr [JF64 (FFin 1), JF64 (FFin 2)])]"
  let ?r = "(plain_req ''/'')\<lparr>param := (\<lambda>_. ''a''), body := Some (JObj ?b)\<rparr>"
  have f: "fcvt F32 (FFin 1) = FFin 1" "fcvt F32 (FFin 2) = FFin 2" by code_simp+
  have k: "modelKey ''a'' ''1'' = Inr ''a:1''" by code_simp
  have r: "param ?r ''model_id'' = ''a''" "body ?r = Some (JObj ?b)" "field_str ?b ''model_id'' = Inr []" "[] \<in> {[], ''a''}"
    "field_str ?b ''version'' = Inr ''1''" "map_of ?b ''input'' = Some (JArr [JF64 (FFin 1), JF64 (FFin 2)])"
    "list_all2 (\<lambda>j x. num_f32 (unmarshal id j) = Some x) [JF64 (FFin 1), JF64 (FFin 2)] [FFin 1, FFin 2]"
    by (simp_all add: field_str_def f del: fcvt.simps)
  have o: "map_of (oe_models e) ''a:1'' = Some m" by (simp add: ms)
  have t: "length [FFin 0, FFin 0] = length [JF64 (FFin 1), JF64 (FFin 2)]"
    "session_run (sample_ort 9) (session slot) [Tensor (TF32 [FFin 1, FFin 2]) [1, 2]] (outputs slot) = Inr [Tensor (TF32 [FFin 0, FFin 0]) [1, 2]]"
    using m(5) by (simp_all add: sample_ort_def)
  from predict_end_to_end[OF w r k o m(1-4) t] l show ?thesis by blast
qed

end
